theory Spec2Isabelle
  imports Main
begin

section \<open>JavaScript values\<close>

text \<open>
  The components are TypeScript/React. Numbers that the rules engine handles are always
  integers (positions, scores, cell values), so they are modelled as \<open>int\<close>. A number is
  truthy iff it is not zero. Reading an array at an index outside its range yields
  \<open>undefined\<close>; reading or writing a property of \<open>undefined\<close> throws a \<open>TypeError\<close>.
  A function that may throw returns \<open>error + 'a\<close>, with \<open>Inl TypeError\<close> for the throw.

  Boards and shapes are arrays of arrays of numbers, as their TypeScript types say
  (\<open>Cell[][]\<close>, \<open>number[][]\<close>), and are modelled as lists of lists of \<open>int\<close>. JavaScript
  itself would let an array leave these types: a write past the end of a row makes the
  row sparse, and copying \<open>row[index]\<close> from a row that is too short stores \<open>undefined\<close>.
  Neither is a list of numbers any more, so the model stops there with \<open>Inl OutOfModel\<close>.
  \<open>OutOfModel\<close> is not an exception of the program; no theorem below says what the program
  does after it.
\<close>

datatype error = TypeError | OutOfModel

definition js_index :: "'a list \<Rightarrow> int \<Rightarrow> 'a option" where
  "js_index xs i = (if 0 \<le> i \<and> i < int (length xs) then Some (xs ! nat i) else None)"

section \<open>Types and constants shared by the components\<close>

text \<open>
  \<open>type Board = Cell[][]\<close> and \<open>type Piece = { shape, position: { x, y }, color }\<close>.
  The two coordinates of \<open>position\<close> are the fields \<open>pos_x\<close> and \<open>pos_y\<close>. The colour is a
  number in the first component of \<open>tetris-2d.tsx\<close> and a string in the others.
\<close>

type_synonym board = "int list list"

record 'c piece =
  shape :: "int list list"
  pos_x :: int
  pos_y :: int
  color :: 'c

definition BOARD_WIDTH :: int where
  "BOARD_WIDTH = 10"

definition BOARD_HEIGHT :: int where
  "BOARD_HEIGHT = 20"

definition BOARD_DEPTH :: int where
  "BOARD_DEPTH = 10"

definition SPEED_INCREMENT :: int where
  "SPEED_INCREMENT = 50"

definition LEVEL_THRESHOLD :: int where
  "LEVEL_THRESHOLD = 1000"

text \<open>
  A board as every component constructs it: \<open>BOARD_HEIGHT\<close> rows of \<open>BOARD_WIDTH\<close> cells.
\<close>

definition wf_board :: "board \<Rightarrow> bool" where
  "wf_board b = (int (length b) = BOARD_HEIGHT \<and> list_all (\<lambda>r. int (length r) = BOARD_WIDTH) b)"

section \<open>isValidMove (2D components)\<close>

text \<open>
  The condition of the \<open>if\<close> inside the loops, for the sub-cell that lands on column
  \<open>newX\<close> and row \<open>newY\<close>:
  \<^verbatim>\<open>newX < 0 || newX >= BOARD_WIDTH || newY >= BOARD_HEIGHT || (newY >= 0 && board[newY][newX])\<close>.
  \<open>board[newY]\<close> is \<open>undefined\<close> when the board has no such row, and then \<open>[newX]\<close> throws;
  a row that has no such column gives \<open>undefined\<close>, which is falsy.
\<close>

definition collides :: "board \<Rightarrow> int \<Rightarrow> int \<Rightarrow> error + bool" where
  "collides b newX newY =
     (if newX < 0 \<or> newX \<ge> BOARD_WIDTH \<or> newY \<ge> BOARD_HEIGHT then Inr True
      else if newY \<ge> 0 then
        (case js_index b newY of
           None \<Rightarrow> Inl TypeError
         | Some r \<Rightarrow> (case js_index r newX of None \<Rightarrow> Inr False | Some c \<Rightarrow> Inr (c \<noteq> 0)))
      else Inr False)"

text \<open>
  The inner loop over \<open>x\<close>, from the column \<open>newX\<close> on, over the cells of the shape's row
  that are left: \<open>Inr False\<close> is the \<open>return false\<close>, \<open>Inr True\<close> the end of the loop.
\<close>

fun scan_cells :: "board \<Rightarrow> int \<Rightarrow> int \<Rightarrow> int list \<Rightarrow> error + bool" where
  "scan_cells b newY newX [] = Inr True"
| "scan_cells b newY newX (v # vs) =
     (if v \<noteq> 0 then
        (case collides b newX newY of
           Inl e \<Rightarrow> Inl e
         | Inr hit \<Rightarrow> if hit then Inr False else scan_cells b newY (newX + 1) vs)
      else scan_cells b newY (newX + 1) vs)"

text \<open>The outer loop over \<open>y\<close>, from the row \<open>newY\<close> on.\<close>

fun scan_rows :: "board \<Rightarrow> int \<Rightarrow> int \<Rightarrow> int list list \<Rightarrow> error + bool" where
  "scan_rows b px newY [] = Inr True"
| "scan_rows b px newY (r # rs) =
     (case scan_cells b newY px r of
        Inl e \<Rightarrow> Inl e
      | Inr ok \<Rightarrow> if ok then scan_rows b px (newY + 1) rs else Inr False)"

definition isValidMove :: "'c piece \<Rightarrow> board \<Rightarrow> error + bool" where
  "isValidMove p b = scan_rows b (pos_x p) (pos_y p) (shape p)"

section \<open>isValidMove (volumetric component, tetris-3d-crazy-3d.tsx)\<close>

type_synonym board3 = "int list list list"

record piece3 =
  shape3 :: "int list list list"
  pos3_x :: int
  pos3_y :: int
  pos3_z :: int
  color3 :: string

definition wf_board3 :: "board3 \<Rightarrow> bool" where
  "wf_board3 b = (int (length b) = BOARD_DEPTH \<and> list_all wf_board b)"

text \<open>
  \<^verbatim>\<open>newX < 0 || newX >= BOARD_WIDTH || newY >= BOARD_HEIGHT || newZ < 0 || newZ >= BOARD_DEPTH
  || (newY >= 0 && board[newZ][newY][newX])\<close>
\<close>

definition collides3 :: "board3 \<Rightarrow> int \<Rightarrow> int \<Rightarrow> int \<Rightarrow> error + bool" where
  "collides3 b newX newY newZ =
     (if newX < 0 \<or> newX \<ge> BOARD_WIDTH \<or> newY \<ge> BOARD_HEIGHT \<or> newZ < 0 \<or> newZ \<ge> BOARD_DEPTH
      then Inr True
      else if newY \<ge> 0 then
        (case js_index b newZ of
           None \<Rightarrow> Inl TypeError
         | Some pl \<Rightarrow>
             (case js_index pl newY of
                None \<Rightarrow> Inl TypeError
              | Some r \<Rightarrow> (case js_index r newX of None \<Rightarrow> Inr False | Some c \<Rightarrow> Inr (c \<noteq> 0))))
      else Inr False)"

fun scan_cells3 :: "board3 \<Rightarrow> int \<Rightarrow> int \<Rightarrow> int \<Rightarrow> int list \<Rightarrow> error + bool" where
  "scan_cells3 b newZ newY newX [] = Inr True"
| "scan_cells3 b newZ newY newX (v # vs) =
     (if v \<noteq> 0 then
        (case collides3 b newX newY newZ of
           Inl e \<Rightarrow> Inl e
         | Inr hit \<Rightarrow> if hit then Inr False else scan_cells3 b newZ newY (newX + 1) vs)
      else scan_cells3 b newZ newY (newX + 1) vs)"

fun scan_rows3 :: "board3 \<Rightarrow> int \<Rightarrow> int \<Rightarrow> int \<Rightarrow> int list list \<Rightarrow> error + bool" where
  "scan_rows3 b newZ px newY [] = Inr True"
| "scan_rows3 b newZ px newY (r # rs) =
     (case scan_cells3 b newZ newY px r of
        Inl e \<Rightarrow> Inl e
      | Inr ok \<Rightarrow> if ok then scan_rows3 b newZ px (newY + 1) rs else Inr False)"

fun scan_planes3 :: "board3 \<Rightarrow> int \<Rightarrow> int \<Rightarrow> int \<Rightarrow> int list list list \<Rightarrow> error + bool" where
  "scan_planes3 b px py newZ [] = Inr True"
| "scan_planes3 b px py newZ (pl # pls) =
     (case scan_rows3 b newZ px py pl of
        Inl e \<Rightarrow> Inl e
      | Inr ok \<Rightarrow> if ok then scan_planes3 b px py (newZ + 1) pls else Inr False)"

definition isValidMove3 :: "piece3 \<Rightarrow> board3 \<Rightarrow> error + bool" where
  "isValidMove3 p b = scan_planes3 b (pos3_x p) (pos3_y p) (pos3_z p) (shape3 p)"

section \<open>The shape tables and createNewPiece\<close>

text \<open>
  \<open>SHAPES_dom\<close> is the table of the first component of \<open>tetris-2d.tsx\<close> (colours are
  numbers); \<open>SHAPES\<close> is the table of its second component and of \<open>tetris-3d.tsx\<close>
  (colours are strings).
\<close>

definition SHAPES_dom :: "(int list list \<times> int) list" where
  "SHAPES_dom =
     [([[1, 1, 1, 1]], 1),
      ([[1, 1], [1, 1]], 2),
      ([[1, 1, 1], [0, 1, 0]], 3),
      ([[1, 1, 1], [1, 0, 0]], 4),
      ([[1, 1, 1], [0, 0, 1]], 5),
      ([[1, 1, 0], [0, 1, 1]], 6),
      ([[0, 1, 1], [1, 1, 0]], 7)]"

definition SHAPES :: "(int list list \<times> string) list" where
  "SHAPES =
     [([[1, 1, 1, 1]], ''#00FFFF''),
      ([[1, 1], [1, 1]], ''#FFFF00''),
      ([[1, 1, 1], [0, 1, 0]], ''#800080''),
      ([[1, 1, 1], [1, 0, 0]], ''#0000FF''),
      ([[1, 1, 1], [0, 0, 1]], ''#FFA500''),
      ([[1, 1, 0], [0, 1, 1]], ''#00FF00''),
      ([[0, 1, 1], [1, 1, 0]], ''#FF0000'')]"

text \<open>
  \<open>createNewPiece\<close> has the same text in the 2D components. Its random draw
  \<open>Math.floor(Math.random() * SHAPES.length)\<close> is the argument \<open>r\<close>; the program only draws
  \<open>r < 7\<close>. \<open>shape[0].length\<close> throws when the shape has no row.
\<close>

definition spawn_x :: "int list list \<Rightarrow> error + int" where
  "spawn_x sh =
     (case sh of
        [] \<Rightarrow> Inl TypeError
      | r0 # _ \<Rightarrow> Inr (BOARD_WIDTH div 2 - int (length r0) div 2))"

definition createNewPiece_from :: "(int list list \<times> 'c) list \<Rightarrow> nat \<Rightarrow> error + 'c piece" where
  "createNewPiece_from table r =
     (case js_index table (int r) of
        None \<Rightarrow> Inl TypeError
      | Some (sh, col) \<Rightarrow>
          (case spawn_x sh of
             Inl e \<Rightarrow> Inl e
           | Inr x0 \<Rightarrow> Inr \<lparr>shape = sh, pos_x = x0, pos_y = 0, color = col\<rparr>))"

definition createNewPiece_dom :: "nat \<Rightarrow> error + int piece" where
  "createNewPiece_dom r = createNewPiece_from SHAPES_dom r"

definition createNewPiece :: "nat \<Rightarrow> error + string piece" where
  "createNewPiece r = createNewPiece_from SHAPES r"

section \<open>mergePieceToBoard\<close>

text \<open>
  The assignment \<open>newBoard[Y][X] = v\<close>. \<open>newBoard[Y]\<close> is \<open>undefined\<close> when the board has no
  row \<open>Y\<close> (a negative \<open>Y\<close> included), and the assignment throws. A column past the end of
  the row would make the row sparse, and a negative column would add a property that is
  not an element of the row (see \<open>OutOfModel\<close>).
\<close>

definition set_cell :: "board \<Rightarrow> int \<Rightarrow> int \<Rightarrow> int \<Rightarrow> error + board" where
  "set_cell nb Y X v =
     (case js_index nb Y of
        None \<Rightarrow> Inl TypeError
      | Some r \<Rightarrow>
          if 0 \<le> X \<and> X < int (length r) then Inr (nb[nat Y := r[nat X := v]])
          else Inl OutOfModel)"

text \<open>The two \<open>forEach\<close> loops, each from the running board coordinate on.\<close>

fun write_cells :: "int \<Rightarrow> int \<Rightarrow> int \<Rightarrow> int list \<Rightarrow> board \<Rightarrow> error + board" where
  "write_cells v Y X [] nb = Inr nb"
| "write_cells v Y X (c # cs) nb =
     (if c \<noteq> 0 then
        (case set_cell nb Y X v of
           Inl e \<Rightarrow> Inl e
         | Inr nb' \<Rightarrow> write_cells v Y (X + 1) cs nb')
      else write_cells v Y (X + 1) cs nb)"

fun write_rows :: "int \<Rightarrow> int \<Rightarrow> int \<Rightarrow> int list list \<Rightarrow> board \<Rightarrow> error + board" where
  "write_rows v px Y [] nb = Inr nb"
| "write_rows v px Y (r # rs) nb =
     (case write_cells v Y px r nb of
        Inl e \<Rightarrow> Inl e
      | Inr nb' \<Rightarrow> write_rows v px (Y + 1) rs nb')"

text \<open>
  First component of \<open>tetris-2d.tsx\<close>: the value written is \<open>piece.color\<close>. The copy
  \<open>board.map(row => [...row])\<close> is the board itself in a model without mutation.
\<close>

definition mergePieceToBoard_dom :: "int piece \<Rightarrow> board \<Rightarrow> error + board" where
  "mergePieceToBoard_dom p b = write_rows (color p) (pos_x p) (pos_y p) (shape p) b"

text \<open>\<open>Array.prototype.findIndex\<close>: the first index whose element passes, or \<open>-1\<close>.\<close>

fun findIndex :: "('a \<Rightarrow> bool) \<Rightarrow> 'a list \<Rightarrow> int" where
  "findIndex P [] = -1"
| "findIndex P (x # xs) =
     (if P x then 0 else (let i = findIndex P xs in if i < 0 then -1 else i + 1))"

text \<open>
  Second component of \<open>tetris-2d.tsx\<close> and \<open>tetris-3d.tsx\<close>: the value written is
  \<open>SHAPES.findIndex(s => s.color === piece.color) + 1\<close>.
\<close>

definition mergePieceToBoard :: "string piece \<Rightarrow> board \<Rightarrow> error + board" where
  "mergePieceToBoard p b =
     write_rows (findIndex (\<lambda>s. snd s = color p) SHAPES + 1) (pos_x p) (pos_y p) (shape p) b"

section \<open>clearLines\<close>

text \<open>
  \<open>board.filter(row => ...)\<close> with the counter \<open>linesCleared\<close> that its callback increments:
  a row is dropped, and counted, when \<open>row.every(cell => cell !== 0)\<close>.
\<close>

fun filter_rows :: "board \<Rightarrow> int \<Rightarrow> board \<times> int" where
  "filter_rows [] linesCleared = ([], linesCleared)"
| "filter_rows (r # rs) linesCleared =
     (if list_all (\<lambda>cell. cell \<noteq> 0) r then filter_rows rs (linesCleared + 1)
      else (case filter_rows rs linesCleared of (kept, n) \<Rightarrow> (r # kept, n)))"

text \<open>\<^verbatim>\<open>while (newBoard.length < BOARD_HEIGHT) newBoard.unshift(Array(BOARD_WIDTH).fill(0))\<close>\<close>

function pad_rows :: "board \<Rightarrow> board" where
  "pad_rows nb =
     (if int (length nb) < BOARD_HEIGHT then pad_rows (replicate (nat BOARD_WIDTH) 0 # nb)
      else nb)"
  by pat_completeness auto
termination
  by (relation "measure (\<lambda>nb. nat BOARD_HEIGHT - length nb)") auto

definition clearLines :: "board \<Rightarrow> board \<times> int" where
  "clearLines b = (case filter_rows b 0 of (newBoard, linesCleared) \<Rightarrow> (pad_rows newBoard, linesCleared))"

declare pad_rows.simps [simp del]

text \<open>
  The volumetric component (\<open>tetris-3d-crazy-3d.tsx\<close>):
  \<open>board.map(plane => plane.filter(row => ...))\<close>, with one counter for all planes.
\<close>

fun filter_planes :: "board3 \<Rightarrow> int \<Rightarrow> board3 \<times> int" where
  "filter_planes [] linesCleared = ([], linesCleared)"
| "filter_planes (pl # pls) linesCleared =
     (case filter_rows pl linesCleared of
        (kept, n) \<Rightarrow> (case filter_planes pls n of (rest, m) \<Rightarrow> (kept # rest, m)))"

lemma pad_rows_length: "\<not> int (length (pad_rows nb)) < BOARD_HEIGHT"
  by (induction nb rule: pad_rows.induct) (simp add: pad_rows.simps)

text \<open>
  \<^verbatim>\<open>while (newBoard.some(plane => plane.length < BOARD_HEIGHT)) {
    newBoard.forEach(plane => { while (plane.length < BOARD_HEIGHT) plane.unshift(...) }) }\<close>
\<close>

function pad_planes :: "board3 \<Rightarrow> board3" where
  "pad_planes nb =
     (if list_ex (\<lambda>pl. int (length pl) < BOARD_HEIGHT) nb then pad_planes (map pad_rows nb)
      else nb)"
  by pat_completeness auto
termination
proof (relation "measure (\<lambda>nb. length (filter (\<lambda>pl. int (length pl) < BOARD_HEIGHT) nb))")
  show "wf (measure (\<lambda>nb. length (filter (\<lambda>pl. int (length pl) < BOARD_HEIGHT) nb)))"
    by simp
next
  fix nb :: board3
  assume some: "list_ex (\<lambda>pl. int (length pl) < BOARD_HEIGHT) nb"
  have "filter (\<lambda>pl. int (length pl) < BOARD_HEIGHT) (map pad_rows nb) = []"
    by (simp add: filter_empty_conv pad_rows_length)
  moreover have "filter (\<lambda>pl. int (length pl) < BOARD_HEIGHT) nb \<noteq> []"
    using some by (simp add: filter_empty_conv list_ex_iff)
  ultimately show "(map pad_rows nb, nb)
      \<in> measure (\<lambda>nb. length (filter (\<lambda>pl. int (length pl) < BOARD_HEIGHT) nb))"
    by simp
qed

declare pad_planes.simps [simp del]

definition clearLines3 :: "board3 \<Rightarrow> board3 \<times> int" where
  "clearLines3 b =
     (case filter_planes b 0 of (newBoard, linesCleared) \<Rightarrow> (pad_planes newBoard, linesCleared))"

section \<open>Rotation of a shape\<close>

text \<open>
  \<^verbatim>\<open>piece.shape[0].map((_, index) => piece.shape.map(row => row[index]).reverse())\<close>.
  \<open>column_at index\<close> is \<open>piece.shape.map(row => row[index])\<close>; \<open>rotate_columns\<close> is the outer
  \<open>map\<close> over the first row, from \<open>index\<close> on. \<open>piece.shape[0]\<close> is \<open>undefined\<close> for a shape
  with no row, and \<open>.map\<close> throws.
\<close>

fun column_at :: "int \<Rightarrow> int list list \<Rightarrow> error + int list" where
  "column_at index [] = Inr []"
| "column_at index (r # rs) =
     (case js_index r index of
        None \<Rightarrow> Inl OutOfModel
      | Some v \<Rightarrow> (case column_at index rs of Inl e \<Rightarrow> Inl e | Inr vs \<Rightarrow> Inr (v # vs)))"

fun rotate_columns :: "int list list \<Rightarrow> int \<Rightarrow> int list \<Rightarrow> error + int list list" where
  "rotate_columns sh index [] = Inr []"
| "rotate_columns sh index (c # cs) =
     (case column_at index sh of
        Inl e \<Rightarrow> Inl e
      | Inr col \<Rightarrow>
          (case rotate_columns sh (index + 1) cs of
             Inl e \<Rightarrow> Inl e
           | Inr rest \<Rightarrow> Inr (rev col # rest)))"

definition rotate_shape :: "int list list \<Rightarrow> error + int list list" where
  "rotate_shape sh = (case sh of [] \<Rightarrow> Inl TypeError | r0 # _ \<Rightarrow> rotate_columns sh 0 r0)"

section \<open>The state of a game\<close>

text \<open>
  The \<open>useState\<close> variables of a 2D component. The second component of \<open>tetris-2d.tsx\<close>
  adds \<open>storedPiece\<close>, \<open>canStore\<close> and \<open>highScore\<close> (whose copy in \<open>localStorage\<close> is not
  modelled).

  Every callback is created by the render it belongs to and reads that render's state;
  a setter replaces a variable of the next state (\<open>setLevel(prev => prev + 1)\<close> updates the
  pending value). The key handler and the interval are installed anew after each render,
  so an event runs a callback on the current state: a callback is a function from the
  state to the next state. The one callback that calls another after a setter
  (\<open>hardDrop\<close> of \<open>tetris-3d.tsx\<close>) is modelled with both states, see below.
  A callback that throws returns the error; the model does not say which of its setters
  had already run.
\<close>

record 'c game =
  board :: board
  piece :: "'c piece option"
  nextPiece :: "'c piece option"
  score :: int
  level :: int
  gameOver :: bool
  speed :: int

record 'c hold_game = "'c game" +
  storedPiece :: "'c piece option"
  canStore :: bool
  highScore :: int

definition INITIAL_SPEED :: int where
  "INITIAL_SPEED = 500"

definition emptyBoard :: board where
  "emptyBoard = replicate (nat BOARD_HEIGHT) (replicate (nat BOARD_WIDTH) 0)"

definition emptyBoard3 :: board3 where
  "emptyBoard3 = replicate (nat BOARD_DEPTH) emptyBoard"

text \<open>The initial values of the \<open>useState\<close> calls.\<close>

definition initial_game :: "'c game" where
  "initial_game =
     \<lparr>board = emptyBoard, piece = None, nextPiece = None, score = 0, level = 1,
      gameOver = False, speed = INITIAL_SPEED\<rparr>"

definition initial_hold_game :: "int \<Rightarrow> 'c hold_game" where
  "initial_hold_game stored_high =
     \<lparr>board = emptyBoard, piece = None, nextPiece = None, score = 0, level = 1,
      gameOver = False, speed = INITIAL_SPEED,
      storedPiece = None, canStore = True, highScore = stored_high\<rparr>"

text \<open>
  \<^verbatim>\<open>if (newScore >= level * LEVEL_THRESHOLD) {
    setLevel(prevLevel => prevLevel + 1);
    setSpeed(prevSpeed => Math.max(prevSpeed - SPEED_INCREMENT, 100)); }\<close>
  \<open>lv\<close> is the \<open>level\<close> the callback read; the setters update the pending state \<open>g\<close>.
\<close>

definition level_up :: "int \<Rightarrow> int \<Rightarrow> ('c, 'z) game_scheme \<Rightarrow> ('c, 'z) game_scheme" where
  "level_up newScore lv g =
     (if newScore \<ge> lv * LEVEL_THRESHOLD
      then g\<lparr>level := level g + 1, speed := max (speed g - SPEED_INCREMENT) 100\<rparr>
      else g)"

section \<open>Callbacks with the same text in the 2D components\<close>

datatype direction = Left | Right

definition moveSideways :: "direction \<Rightarrow> ('c, 'z) game_scheme \<Rightarrow> error + ('c, 'z) game_scheme" where
  "moveSideways d g =
     (case piece g of
        None \<Rightarrow> Inr g
      | Some p \<Rightarrow>
          (case isValidMove (p\<lparr>pos_x := pos_x p + (if d = Left then -1 else 1)\<rparr>) (board g) of
             Inl e \<Rightarrow> Inl e
           | Inr ok \<Rightarrow>
               if ok then Inr (g\<lparr>piece := Some (p\<lparr>pos_x := pos_x p + (if d = Left then -1 else 1)\<rparr>)\<rparr>)
               else Inr g))"

text \<open>
  \<open>rotate\<close> of the first component of \<open>tetris-2d.tsx\<close> (lines 163-172) and of
  \<open>tetris-3d.tsx\<close>: no kicks.
\<close>

definition rotate_plain :: "('c, 'z) game_scheme \<Rightarrow> error + ('c, 'z) game_scheme" where
  "rotate_plain g =
     (case piece g of
        None \<Rightarrow> Inr g
      | Some p \<Rightarrow>
          (case rotate_shape (shape p) of
             Inl e \<Rightarrow> Inl e
           | Inr newShape \<Rightarrow>
               (case isValidMove (p\<lparr>shape := newShape\<rparr>) (board g) of
                  Inl e \<Rightarrow> Inl e
                | Inr ok \<Rightarrow> if ok then Inr (g\<lparr>piece := Some (p\<lparr>shape := newShape\<rparr>)\<rparr>) else Inr g)))"

section \<open>First component of tetris-2d.tsx (DOM board, lines 1-280)\<close>

text \<open>
  Lines 134-145 of \<open>moveDown\<close>: the next piece, when there is one, becomes the active
  piece with no check; only a piece drawn on the spot is checked. \<open>g\<close> is the pending
  state, \<open>nxt\<close> the \<open>nextPiece\<close> the callback read.
\<close>

definition advance_dom ::
  "nat \<Rightarrow> nat \<Rightarrow> int piece option \<Rightarrow> board \<Rightarrow> int game \<Rightarrow> error + int game" where
  "advance_dom r1 r2 nxt clearedBoard g =
     (case nxt of
        Some np \<Rightarrow>
          (case createNewPiece_dom r1 of
             Inl e \<Rightarrow> Inl e
           | Inr n \<Rightarrow> Inr (g\<lparr>piece := Some np, nextPiece := Some n\<rparr>))
      | None \<Rightarrow>
          (case createNewPiece_dom r1 of
             Inl e \<Rightarrow> Inl e
           | Inr newPiece \<Rightarrow>
               (case isValidMove newPiece clearedBoard of
                  Inl e \<Rightarrow> Inl e
                | Inr ok \<Rightarrow>
                    if \<not> ok then Inr (g\<lparr>gameOver := True\<rparr>)
                    else
                      (case createNewPiece_dom r2 of
                         Inl e \<Rightarrow> Inl e
                       | Inr n \<Rightarrow> Inr (g\<lparr>piece := Some newPiece, nextPiece := Some n\<rparr>)))))"

text \<open>\<open>moveDown\<close>, lines 112-147. \<open>r1\<close> and \<open>r2\<close> are the random draws, in the order of the calls.\<close>

definition moveDown_dom :: "nat \<Rightarrow> nat \<Rightarrow> int game \<Rightarrow> error + int game" where
  "moveDown_dom r1 r2 g =
     (case piece g of
        None \<Rightarrow> Inr g
      | Some p \<Rightarrow>
          (case isValidMove (p\<lparr>pos_y := pos_y p + 1\<rparr>) (board g) of
             Inl e \<Rightarrow> Inl e
           | Inr ok \<Rightarrow>
               if ok then Inr (g\<lparr>piece := Some (p\<lparr>pos_y := pos_y p + 1\<rparr>)\<rparr>)
               else
                 (case mergePieceToBoard_dom p (board g) of
                    Inl e \<Rightarrow> Inl e
                  | Inr newBoard \<Rightarrow>
                      (case clearLines newBoard of
                         (clearedBoard, linesCleared) \<Rightarrow>
                           (let linesClearedScore = linesCleared * linesCleared * 100;
                                newScore = score g + linesClearedScore + 10
                            in advance_dom r1 r2 (nextPiece g) clearedBoard
                                 (level_up newScore (level g)
                                    (g\<lparr>board := clearedBoard, score := newScore\<rparr>)))))))"

text \<open>
  The effect of lines 174-180: when there is no piece and the game is not over, a piece
  and a next piece are drawn.
\<close>

definition spawn_dom :: "nat \<Rightarrow> nat \<Rightarrow> int game \<Rightarrow> error + int game" where
  "spawn_dom r1 r2 g =
     (if piece g = None \<and> \<not> gameOver g then
        (case createNewPiece_dom r1 of
           Inl e \<Rightarrow> Inl e
         | Inr newPiece \<Rightarrow>
             (case createNewPiece_dom r2 of
                Inl e \<Rightarrow> Inl e
              | Inr n \<Rightarrow> Inr (g\<lparr>piece := Some newPiece, nextPiece := Some n\<rparr>)))
      else Inr g)"

section \<open>Second component of tetris-2d.tsx (canvas board with hold, lines 281-770)\<close>

text \<open>
  The loop of \<open>getDropPosition\<close> (lines 390-396), which is also the loop of \<open>hardDrop\<close> in
  \<open>tetris-3d.tsx\<close> (lines 173-176). It does not end for a piece that is valid at every
  row, so it is a partial function: \<open>None\<close> is the loop that never returns.
\<close>

partial_function (option) drop_loop :: "'c piece \<Rightarrow> board \<Rightarrow> int \<Rightarrow> (error + int) option" where
  "drop_loop p b dropY =
     (case isValidMove (p\<lparr>pos_y := dropY + 1\<rparr>) b of
        Inl e \<Rightarrow> Some (Inl e)
      | Inr ok \<Rightarrow> if ok then drop_loop p b (dropY + 1) else Some (Inr dropY))"

declare drop_loop.simps [code]

definition getDropPosition :: "'c piece \<Rightarrow> board \<Rightarrow> (error + int \<times> int) option" where
  "getDropPosition p b =
     (case drop_loop p b (pos_y p) of
        None \<Rightarrow> None
      | Some (Inl e) \<Rightarrow> Some (Inl e)
      | Some (Inr dropY) \<Rightarrow> Some (Inr (pos_x p, dropY)))"

text \<open>
  Lines 425-442 of \<open>moveDown\<close>, which are lines 517-534 of \<open>hardDrop\<close>: the piece that
  becomes active is checked against the cleared board first. \<open>g\<close> is the pending state,
  \<open>nxt\<close> the \<open>nextPiece\<close> the callback read.
\<close>

definition advance_canvas ::
  "nat \<Rightarrow> nat \<Rightarrow> string piece option \<Rightarrow> board \<Rightarrow> string hold_game \<Rightarrow> error + string hold_game" where
  "advance_canvas r1 r2 nxt clearedBoard g =
     (case nxt of
        Some np \<Rightarrow>
          (case isValidMove np clearedBoard of
             Inl e \<Rightarrow> Inl e
           | Inr ok \<Rightarrow>
               if \<not> ok then Inr (g\<lparr>gameOver := True\<rparr>)
               else
                 (case createNewPiece r1 of
                    Inl e \<Rightarrow> Inl e
                  | Inr n \<Rightarrow> Inr (g\<lparr>piece := Some np, nextPiece := Some n, canStore := True\<rparr>)))
      | None \<Rightarrow>
          (case createNewPiece r1 of
             Inl e \<Rightarrow> Inl e
           | Inr newPiece \<Rightarrow>
               (case isValidMove newPiece clearedBoard of
                  Inl e \<Rightarrow> Inl e
                | Inr ok \<Rightarrow>
                    if \<not> ok then Inr (g\<lparr>gameOver := True\<rparr>)
                    else
                      (case createNewPiece r2 of
                         Inl e \<Rightarrow> Inl e
                       | Inr n \<Rightarrow>
                           Inr (g\<lparr>piece := Some newPiece, nextPiece := Some n, canStore := True\<rparr>)))))"

text \<open>
  Lines 408-442 of \<open>moveDown\<close> and lines 500-534 of \<open>hardDrop\<close>, which differ in one
  summand of \<open>newScore\<close>: \<open>bonus\<close> is \<open>0\<close> in \<open>moveDown\<close> and
  \<open>dropPosition.y - piece.position.y\<close> in \<open>hardDrop\<close>. \<open>newBoard\<close> is the merged board.
\<close>

definition lock_canvas ::
  "nat \<Rightarrow> nat \<Rightarrow> int \<Rightarrow> board \<Rightarrow> string hold_game \<Rightarrow> error + string hold_game" where
  "lock_canvas r1 r2 bonus newBoard g =
     (case clearLines newBoard of
        (clearedBoard, linesCleared) \<Rightarrow>
          (let linesClearedScore = linesCleared * linesCleared * 100;
               newScore = score g + linesClearedScore + 10 + bonus;
               g1 = g\<lparr>board := clearedBoard, score := newScore\<rparr>;
               g2 = (if newScore > highScore g then g1\<lparr>highScore := newScore\<rparr> else g1)
           in advance_canvas r1 r2 (nextPiece g) clearedBoard (level_up newScore (level g) g2)))"

text \<open>\<open>moveDown\<close>, lines 398-444.\<close>

definition moveDown_canvas :: "nat \<Rightarrow> nat \<Rightarrow> string hold_game \<Rightarrow> error + string hold_game" where
  "moveDown_canvas r1 r2 g =
     (case piece g of
        None \<Rightarrow> Inr g
      | Some p \<Rightarrow>
          (case isValidMove (p\<lparr>pos_y := pos_y p + 1\<rparr>) (board g) of
             Inl e \<Rightarrow> Inl e
           | Inr ok \<Rightarrow>
               if ok then Inr (g\<lparr>piece := Some (p\<lparr>pos_y := pos_y p + 1\<rparr>)\<rparr>)
               else
                 (case mergePieceToBoard p (board g) of
                    Inl e \<Rightarrow> Inl e
                  | Inr newBoard \<Rightarrow> lock_canvas r1 r2 0 newBoard g)))"

text \<open>
  \<open>hardDrop\<close>, lines 493-535. \<open>setPiece(newPiece)\<close> comes first, so the dropped piece is
  the active piece of the pending state. \<open>None\<close>: the loop of \<open>getDropPosition\<close> does not
  return.
\<close>

definition hardDrop_canvas ::
  "nat \<Rightarrow> nat \<Rightarrow> string hold_game \<Rightarrow> (error + string hold_game) option" where
  "hardDrop_canvas r1 r2 g =
     (case piece g of
        None \<Rightarrow> Some (Inr g)
      | Some p \<Rightarrow>
          (case getDropPosition p (board g) of
             None \<Rightarrow> None
           | Some (Inl e) \<Rightarrow> Some (Inl e)
           | Some (Inr (dx, dy)) \<Rightarrow>
               (case mergePieceToBoard (p\<lparr>pos_x := dx, pos_y := dy\<rparr>) (board g) of
                  Inl e \<Rightarrow> Some (Inl e)
                | Inr newBoard \<Rightarrow>
                    Some (lock_canvas r1 r2 (dy - pos_y p) newBoard
                            (g\<lparr>piece := Some (p\<lparr>pos_x := dx, pos_y := dy\<rparr>)\<rparr>)))))"

text \<open>The kick offsets of \<open>rotate\<close> (lines 470-476), as pairs \<open>(x, y)\<close>, and its \<open>for\<close> loop.\<close>

definition kicks :: "(int \<times> int) list" where
  "kicks = [(1, 0), (-1, 0), (0, -1), (1, -1), (-1, -1)]"

fun try_kicks :: "'c piece \<Rightarrow> board \<Rightarrow> (int \<times> int) list \<Rightarrow> error + 'c piece option" where
  "try_kicks np b [] = Inr None"
| "try_kicks np b (k # ks) =
     (case isValidMove (np\<lparr>pos_x := pos_x np + fst k, pos_y := pos_y np + snd k\<rparr>) b of
        Inl e \<Rightarrow> Inl e
      | Inr ok \<Rightarrow>
          if ok then Inr (Some (np\<lparr>pos_x := pos_x np + fst k, pos_y := pos_y np + snd k\<rparr>))
          else try_kicks np b ks)"

text \<open>\<open>rotate\<close>, lines 460-491.\<close>

definition rotate_canvas :: "string hold_game \<Rightarrow> error + string hold_game" where
  "rotate_canvas g =
     (case piece g of
        None \<Rightarrow> Inr g
      | Some p \<Rightarrow>
          (case rotate_shape (shape p) of
             Inl e \<Rightarrow> Inl e
           | Inr newShape \<Rightarrow>
               (case isValidMove (p\<lparr>shape := newShape\<rparr>) (board g) of
                  Inl e \<Rightarrow> Inl e
                | Inr ok \<Rightarrow>
                    if ok then Inr (g\<lparr>piece := Some (p\<lparr>shape := newShape\<rparr>)\<rparr>)
                    else
                      (case try_kicks (p\<lparr>shape := newShape\<rparr>) (board g) kicks of
                         Inl e \<Rightarrow> Inl e
                       | Inr None \<Rightarrow> Inr g
                       | Inr (Some kickedPiece) \<Rightarrow> Inr (g\<lparr>piece := Some kickedPiece\<rparr>)))))"

text \<open>
  \<open>storePiece\<close>, lines 537-559. \<open>setCanStore(false)\<close> is the last statement of both
  branches.
\<close>

definition storePiece :: "nat \<Rightarrow> string hold_game \<Rightarrow> error + string hold_game" where
  "storePiece r g =
     (if \<not> canStore g \<or> piece g = None then Inr g
      else
        (case storedPiece g of
           Some sp \<Rightarrow>
             (case spawn_x (shape sp) of
                Inl e \<Rightarrow> Inl e
              | Inr x0 \<Rightarrow>
                  (case isValidMove (sp\<lparr>pos_x := x0, pos_y := 0\<rparr>) (board g) of
                     Inl e \<Rightarrow> Inl e
                   | Inr ok \<Rightarrow>
                       if ok
                       then Inr (g\<lparr>storedPiece := piece g, piece := Some (sp\<lparr>pos_x := x0, pos_y := 0\<rparr>),
                                  canStore := False\<rparr>)
                       else Inr (g\<lparr>canStore := False\<rparr>)))
         | None \<Rightarrow>
             (case nextPiece g of
                Some np \<Rightarrow>
                  (case createNewPiece r of
                     Inl e \<Rightarrow> Inl e
                   | Inr n \<Rightarrow>
                       Inr (g\<lparr>storedPiece := piece g, piece := Some np, nextPiece := Some n,
                              canStore := False\<rparr>))
              | None \<Rightarrow>
                  (case createNewPiece r of
                     Inl e \<Rightarrow> Inl e
                   | Inr n \<Rightarrow>
                       Inr (g\<lparr>storedPiece := piece g, piece := Some n, canStore := False\<rparr>)))))"

text \<open>
  The effect of lines 561-571 (and of lines 181-191 of \<open>tetris-3d.tsx\<close>): the first
  piece is drawn, and checked.
\<close>

definition spawn_checked :: "nat \<Rightarrow> nat \<Rightarrow> (string, 'z) game_scheme \<Rightarrow> error + (string, 'z) game_scheme" where
  "spawn_checked r1 r2 g =
     (if piece g = None \<and> \<not> gameOver g then
        (case createNewPiece r1 of
           Inl e \<Rightarrow> Inl e
         | Inr newPiece \<Rightarrow>
             (case isValidMove newPiece (board g) of
                Inl e \<Rightarrow> Inl e
              | Inr ok \<Rightarrow>
                  if \<not> ok then Inr (g\<lparr>gameOver := True\<rparr>)
                  else
                    (case createNewPiece r2 of
                       Inl e \<Rightarrow> Inl e
                     | Inr n \<Rightarrow> Inr (g\<lparr>piece := Some newPiece, nextPiece := Some n\<rparr>))))
      else Inr g)"

text \<open>
  \<open>handleKeyPress\<close>, lines 574-596, and the interval of lines 604-610, which runs
  \<open>moveDown\<close> only while the game is not over.
\<close>

datatype key = ArrowLeft | ArrowRight | ArrowDown | ArrowUp | Key_z | Key_x | Key_other

definition handleKeyPress_canvas ::
  "nat \<Rightarrow> nat \<Rightarrow> key \<Rightarrow> string hold_game \<Rightarrow> (error + string hold_game) option" where
  "handleKeyPress_canvas r1 r2 k g =
     (if gameOver g then Some (Inr g)
      else
        (case k of
           ArrowLeft \<Rightarrow> Some (moveSideways Left g)
         | ArrowRight \<Rightarrow> Some (moveSideways Right g)
         | ArrowDown \<Rightarrow> Some (moveDown_canvas r1 r2 g)
         | ArrowUp \<Rightarrow> hardDrop_canvas r1 r2 g
         | Key_z \<Rightarrow> Some (rotate_canvas g)
         | Key_x \<Rightarrow> Some (storePiece r1 g)
         | Key_other \<Rightarrow> Some (Inr g)))"

definition gameLoop_canvas :: "nat \<Rightarrow> nat \<Rightarrow> string hold_game \<Rightarrow> error + string hold_game" where
  "gameLoop_canvas r1 r2 g = (if gameOver g then Inr g else moveDown_canvas r1 r2 g)"

section \<open>tetris-3d.tsx (flat board in a 3D scene)\<close>

text \<open>
  \<open>moveDown\<close>, lines 105-144. Here the callback is modelled with two states, because
  \<open>hardDrop\<close> calls it after a setter: \<open>cl\<close> is the render that the callback closes over
  (it reads \<open>piece\<close>, \<open>board\<close>, \<open>score\<close>, \<open>level\<close> and \<open>nextPiece\<close> there), \<open>g\<close> is the pending
  state that its setters update. A key press or the interval runs it as
  \<open>moveDown_3d r1 r2 g g\<close>.
\<close>

definition advance_3d ::
  "nat \<Rightarrow> nat \<Rightarrow> string piece option \<Rightarrow> board \<Rightarrow> string game \<Rightarrow> error + string game" where
  "advance_3d r1 r2 nxt clearedBoard g =
     (case nxt of
        Some np \<Rightarrow>
          (case isValidMove np clearedBoard of
             Inl e \<Rightarrow> Inl e
           | Inr ok \<Rightarrow>
               if \<not> ok then Inr (g\<lparr>gameOver := True\<rparr>)
               else
                 (case createNewPiece r1 of
                    Inl e \<Rightarrow> Inl e
                  | Inr n \<Rightarrow> Inr (g\<lparr>piece := Some np, nextPiece := Some n\<rparr>)))
      | None \<Rightarrow>
          (case createNewPiece r1 of
             Inl e \<Rightarrow> Inl e
           | Inr newPiece \<Rightarrow>
               (case isValidMove newPiece clearedBoard of
                  Inl e \<Rightarrow> Inl e
                | Inr ok \<Rightarrow>
                    if \<not> ok then Inr (g\<lparr>gameOver := True\<rparr>)
                    else
                      (case createNewPiece r2 of
                         Inl e \<Rightarrow> Inl e
                       | Inr n \<Rightarrow> Inr (g\<lparr>piece := Some newPiece, nextPiece := Some n\<rparr>)))))"

definition moveDown_3d :: "nat \<Rightarrow> nat \<Rightarrow> string game \<Rightarrow> string game \<Rightarrow> error + string game" where
  "moveDown_3d r1 r2 cl g =
     (case piece cl of
        None \<Rightarrow> Inr g
      | Some p \<Rightarrow>
          (case isValidMove (p\<lparr>pos_y := pos_y p + 1\<rparr>) (board cl) of
             Inl e \<Rightarrow> Inl e
           | Inr ok \<Rightarrow>
               if ok then Inr (g\<lparr>piece := Some (p\<lparr>pos_y := pos_y p + 1\<rparr>)\<rparr>)
               else
                 (case mergePieceToBoard p (board cl) of
                    Inl e \<Rightarrow> Inl e
                  | Inr newBoard \<Rightarrow>
                      (case clearLines newBoard of
                         (clearedBoard, linesCleared) \<Rightarrow>
                           (let linesClearedScore = linesCleared * linesCleared * 100;
                                newScore = score cl + linesClearedScore + 10
                            in advance_3d r1 r2 (nextPiece cl) clearedBoard
                                 (level_up newScore (level cl)
                                    (g\<lparr>board := clearedBoard, score := newScore\<rparr>)))))))"

text \<open>
  \<open>hardDrop\<close>, lines 171-179: the loop, then
  \<open>setPiece({ ...piece, position: { ...piece.position, y: newY } })\<close>, then \<open>moveDown()\<close>.
  The \<open>moveDown\<close> it calls is the callback of the same render, so it still reads the
  piece and the board of \<open>g\<close>, while its setters act after the \<open>setPiece\<close> of \<open>hardDrop\<close>.
\<close>

definition hardDrop_3d :: "nat \<Rightarrow> nat \<Rightarrow> string game \<Rightarrow> (error + string game) option" where
  "hardDrop_3d r1 r2 g =
     (case piece g of
        None \<Rightarrow> Some (Inr g)
      | Some p \<Rightarrow>
          (case drop_loop p (board g) (pos_y p) of
             None \<Rightarrow> None
           | Some (Inl e) \<Rightarrow> Some (Inl e)
           | Some (Inr newY) \<Rightarrow>
               Some (moveDown_3d r1 r2 g (g\<lparr>piece := Some (p\<lparr>pos_y := newY\<rparr>)\<rparr>))))"

section \<open>Notions used in the statements\<close>

text \<open>
  A sub-cell that lands on column \<open>newX\<close> and row \<open>newY\<close> of a well-formed board cannot be
  placed there: it is outside the columns, or below the last row, or on an occupied cell
  of a row of the board.
\<close>

definition blocked_at :: "board \<Rightarrow> int \<Rightarrow> int \<Rightarrow> bool" where
  "blocked_at b newX newY =
     (newX < 0 \<or> BOARD_WIDTH \<le> newX \<or> BOARD_HEIGHT \<le> newY \<or>
      (0 \<le> newY \<and> b ! nat newY ! nat newX \<noteq> 0))"

definition blocked_at3 :: "board3 \<Rightarrow> int \<Rightarrow> int \<Rightarrow> int \<Rightarrow> bool" where
  "blocked_at3 b newX newY newZ =
     (newX < 0 \<or> BOARD_WIDTH \<le> newX \<or> BOARD_HEIGHT \<le> newY \<or>
      newZ < 0 \<or> BOARD_DEPTH \<le> newZ \<or>
      (0 \<le> newY \<and> b ! nat newZ ! nat newY ! nat newX \<noteq> 0))"

text \<open>A full row: every cell of it is non-zero.\<close>

definition full_row :: "int list \<Rightarrow> bool" where
  "full_row r = (\<forall>cell \<in> set r. cell \<noteq> 0)"

text \<open>
  States used as examples: the I piece in column 3 at row \<open>y\<close>, on a given board, in the
  first and in the second component of \<open>tetris-2d.tsx\<close>. \<open>gap_board\<close> is empty but for its
  last row, where the four columns under the I piece are free; \<open>full_bottom\<close> is \<open>gap_board\<close>
  with the I piece merged into that row.
\<close>

definition gap_board :: board where
  "gap_board = replicate 19 (replicate 10 0) @ [[1, 1, 1, 0, 0, 0, 0, 1, 1, 1]]"

definition I_dom :: "int \<Rightarrow> int piece" where
  "I_dom y = \<lparr>shape = [[1, 1, 1, 1]], pos_x = 3, pos_y = y, color = 1\<rparr>"

definition I_canvas :: "int \<Rightarrow> string piece" where
  "I_canvas y = \<lparr>shape = [[1, 1, 1, 1]], pos_x = 3, pos_y = y, color = ''#00FFFF''\<rparr>"

definition dom_state :: "board \<Rightarrow> int \<Rightarrow> int game" where
  "dom_state b y = \<lparr>board = b, piece = Some (I_dom y), nextPiece = Some (I_dom 0), score = 0,
     level = 1, gameOver = False, speed = 500\<rparr>"

definition canvas_state :: "board \<Rightarrow> int \<Rightarrow> string hold_game" where
  "canvas_state b y = \<lparr>board = b, piece = Some (I_canvas y), nextPiece = Some (I_canvas 0), score = 0,
     level = 1, gameOver = False, speed = 500, storedPiece = None, canStore = True, highScore = 0\<rparr>"

definition full_bottom :: board where
  "full_bottom = replicate 19 (replicate 10 0) @ [[1, 1, 1, 1, 1, 1, 1, 1, 1, 1]]"

text \<open>
  States in which the I piece lies on the last row of the empty board, ten points short of
  the threshold of their level: at level 9 with the interval at its floor, and at level 1.
\<close>

definition floor_state :: "int game" where
  "floor_state =
     \<lparr>board = emptyBoard, piece = Some (I_dom 19), nextPiece = Some (I_dom 0), score = 8990,
      level = 9, gameOver = False, speed = 100\<rparr>"

definition crossing_state :: "int game" where
  "crossing_state =
     \<lparr>board = emptyBoard, piece = Some (I_dom 19), nextPiece = Some (I_dom 0), score = 990,
      level = 1, gameOver = False, speed = 500\<rparr>"

definition crossing_canvas :: "string hold_game" where
  "crossing_canvas =
     \<lparr>board = emptyBoard, piece = Some (I_canvas 19), nextPiece = Some (I_canvas 0), score = 990,
      level = 1, gameOver = False, speed = 500, storedPiece = None, canStore = True,
      highScore = 2000\<rparr>"

text \<open>
  The I piece at its spawn row on the empty board, twenty points short of the threshold of
  level 1: a hard drop falls nineteen rows.
\<close>

definition crossing_drop :: "string hold_game" where
  "crossing_drop =
     \<lparr>board = emptyBoard, piece = Some (I_canvas 0), nextPiece = Some (I_canvas 0), score = 980,
      level = 1, gameOver = False, speed = 500, storedPiece = None, canStore = True,
      highScore = 2000\<rparr>"

text \<open>
  A tower of nineteen I pieces in columns 3 to 6, with the twentieth lying on it in row 0
  as the active piece, and the I piece as the next piece; \<open>held_blocked\<close> is this state
  with the O piece held.
\<close>

definition tower_row :: "int list" where
  "tower_row = [0, 0, 0, 1, 1, 1, 1, 0, 0, 0]"

definition tower_board :: board where
  "tower_board = replicate 10 0 # replicate 19 tower_row"

definition tower_dom :: "int game" where
  "tower_dom =
     \<lparr>board = tower_board, piece = Some (I_dom 0), nextPiece = Some (I_dom 0), score = 190,
      level = 1, gameOver = False, speed = 500\<rparr>"

definition tower_canvas :: "string hold_game" where
  "tower_canvas =
     \<lparr>board = tower_board, piece = Some (I_canvas 0), nextPiece = Some (I_canvas 0), score = 190,
      level = 1, gameOver = False, speed = 500, storedPiece = None, canStore = True,
      highScore = 190\<rparr>"

definition O_canvas :: "string piece" where
  "O_canvas = \<lparr>shape = [[1, 1], [1, 1]], pos_x = 4, pos_y = 0, color = ''#FFFF00''\<rparr>"

definition held_blocked :: "string hold_game" where
  "held_blocked = tower_canvas\<lparr>storedPiece := Some O_canvas\<rparr>"

text \<open>
  A run of the second component from its start. \<open>after_store\<close> is the first state after a
  store with nothing held (the next piece was the I piece, the O piece is drawn).
  \<open>after_hard_drop\<close> is the state after a hard drop from there: the I piece lies on the last
  row (\<open>lone_I\<close>), the O piece is active, the I piece is still held. \<open>after_soft_lock\<close> is
  the state after nineteen soft drops and the \<open>moveDown\<close> that locks instead; it differs in
  the score, which has no drop bonus.
\<close>

definition after_store :: "string hold_game" where
  "after_store =
     (canvas_state emptyBoard 0)\<lparr>storedPiece := Some (I_canvas 0), nextPiece := Some O_canvas,
        canStore := False\<rparr>"

definition lone_I :: board where
  "lone_I = replicate 19 (replicate 10 0) @ [[0, 0, 0, 1, 1, 1, 1, 0, 0, 0]]"

definition after_hard_drop :: "string hold_game" where
  "after_hard_drop =
     \<lparr>board = lone_I, piece = Some O_canvas, nextPiece = Some (I_canvas 0), score = 29,
      level = 1, gameOver = False, speed = 500, storedPiece = Some (I_canvas 0),
      canStore = True, highScore = 29\<rparr>"

definition after_soft_lock :: "string hold_game" where
  "after_soft_lock = after_hard_drop\<lparr>score := 10, highScore := 10\<rparr>"

text \<open>
  A piece moved by a kick offset \<open>(x, y)\<close>; a shape whose rows all have the length of the
  first row.
\<close>

definition kicked_by :: "'c piece \<Rightarrow> int \<times> int \<Rightarrow> 'c piece" where
  "kicked_by p k = p\<lparr>pos_x := pos_x p + fst k, pos_y := pos_y p + snd k\<rparr>"

definition rectangular :: "int list list \<Rightarrow> bool" where
  "rectangular sh = (sh \<noteq> [] \<and> (\<forall>r \<in> set sh. length r = length (hd sh)))"

text \<open>
  The T piece after one rotation and the upright I piece, next to the right wall of the
  empty board.
\<close>

definition T_vert :: "'c \<Rightarrow> 'c piece" where
  "T_vert c = \<lparr>shape = [[0, 1], [1, 1], [0, 1]], pos_x = 8, pos_y = 5, color = c\<rparr>"

definition I_vert :: "string piece" where
  "I_vert = \<lparr>shape = [[1], [1], [1], [1]], pos_x = 9, pos_y = 5, color = ''#00FFFF''\<rparr>"

definition at_wall :: "string piece \<Rightarrow> string hold_game" where
  "at_wall p = (canvas_state emptyBoard 0)\<lparr>piece := Some p\<rparr>"

definition at_wall_dom :: "int game" where
  "at_wall_dom = (dom_state emptyBoard 0)\<lparr>piece := Some (T_vert 3)\<rparr>"

text \<open>
  \<open>n\<close> soft drops in the first component of \<open>tetris-2d.tsx\<close>: \<open>moveDown\<close> run \<open>n\<close> times, each
  on the state the one before returned; and the game right after its start, with the I
  piece at row \<open>y\<close> of the empty board and \<open>np\<close> as the next piece.
\<close>

fun soft_drops :: "nat \<Rightarrow> nat \<Rightarrow> nat \<Rightarrow> int game \<Rightarrow> error + int game" where
  "soft_drops 0 r1 r2 g = Inr g"
| "soft_drops (Suc n) r1 r2 g =
     (case moveDown_dom r1 r2 g of Inl e \<Rightarrow> Inl e | Inr g' \<Rightarrow> soft_drops n r1 r2 g')"

definition I_falling :: "int \<Rightarrow> int piece \<Rightarrow> int game" where
  "I_falling y np = initial_game\<lparr>piece := Some (I_dom y), nextPiece := Some np\<rparr>"

definition O_dom :: "int piece" where
  "O_dom = \<lparr>shape = [[1, 1], [1, 1]], pos_x = 4, pos_y = 0, color = 2\<rparr>"

text \<open>
  \<open>n\<close> soft drops in the second component of \<open>tetris-2d.tsx\<close>; a shape with an occupied
  sub-cell; a first state of \<open>tetris-3d.tsx\<close> with the I piece; and the part of a state on
  which a hard drop and soft drops can agree (all but score, high score, level and
  interval, which the bonus of the hard drop changes).
\<close>

fun soft_drops_canvas :: "nat \<Rightarrow> nat \<Rightarrow> nat \<Rightarrow> string hold_game \<Rightarrow> error + string hold_game" where
  "soft_drops_canvas 0 r1 r2 h = Inr h"
| "soft_drops_canvas (Suc n) r1 r2 h =
     (case moveDown_canvas r1 r2 h of Inl e \<Rightarrow> Inl e | Inr h' \<Rightarrow> soft_drops_canvas n r1 r2 h')"

definition has_cell :: "int list list \<Rightarrow> bool" where
  "has_cell sh = (\<exists>j < length sh. \<exists>i < length (sh ! j). sh ! j ! i \<noteq> 0)"

definition state_3d :: "string game" where
  "state_3d =
     \<lparr>board = emptyBoard, piece = Some (I_canvas 0), nextPiece = Some (I_canvas 0), score = 0,
      level = 1, gameOver = False, speed = 500\<rparr>"

definition placement ::
  "string hold_game \<Rightarrow> board \<times> string piece option \<times> string piece option \<times> bool \<times> string piece option \<times> bool" where
  "placement s = (board s, piece s, nextPiece s, gameOver s, storedPiece s, canStore s)"

section \<open>Validity of a placement\<close>

lemma ex_less_Suc_split: "(\<exists>i < Suc n. P i) = (P 0 \<or> (\<exists>i < n. P (Suc i)))"
  by (metis less_Suc_eq_0_disj)

lemma wf_emptyBoard: "wf_board emptyBoard"
  by (simp add: wf_board_def emptyBoard_def BOARD_HEIGHT_def BOARD_WIDTH_def list_all_iff)

lemma wf_emptyBoard3: "wf_board3 emptyBoard3"
  by (simp add: wf_board3_def emptyBoard3_def BOARD_DEPTH_def list_all_iff wf_emptyBoard)

lemma collides_wf:
  assumes "wf_board b"
  shows "collides b newX newY = Inr (blocked_at b newX newY)"
proof -
  have len: "int (length b) = BOARD_HEIGHT"
    and rows: "\<And>r. r \<in> set b \<Longrightarrow> int (length r) = BOARD_WIDTH"
    using assms by (auto simp: wf_board_def list_all_iff)
  show ?thesis
  proof (cases "newX < 0 \<or> BOARD_WIDTH \<le> newX \<or> BOARD_HEIGHT \<le> newY \<or> newY < 0")
    case True
    then show ?thesis by (auto simp: collides_def blocked_at_def)
  next
    case False
    then have y: "nat newY < length b" using len by auto
    then have "int (length (b ! nat newY)) = BOARD_WIDTH" using rows by simp
    with False y len show ?thesis
      by (auto simp: collides_def blocked_at_def js_index_def)
  qed
qed

lemma scan_cells_wf:
  assumes "wf_board b"
  shows "scan_cells b newY newX vs =
     Inr (\<not> (\<exists>i < length vs. vs ! i \<noteq> 0 \<and> blocked_at b (newX + int i) newY))"
proof (induction vs arbitrary: newX)
  case Nil
  then show ?case by simp
next
  case (Cons v vs)
  show ?case
    using Cons.IH [of "newX + 1"] collides_wf [OF assms, of newX newY]
    by (simp add: ex_less_Suc_split add.assoc)
qed

lemma scan_rows_wf:
  assumes "wf_board b"
  shows "scan_rows b px newY rs =
     Inr (\<not> (\<exists>j < length rs. \<exists>i < length (rs ! j).
              rs ! j ! i \<noteq> 0 \<and> blocked_at b (px + int i) (newY + int j)))"
proof (induction rs arbitrary: newY)
  case Nil
  then show ?case by simp
next
  case (Cons r rs)
  show ?case
    using Cons.IH [of "newY + 1"] scan_cells_wf [OF assms, of newY px r]
    by (simp add: ex_less_Suc_split add.assoc)
qed

lemma isValidMove_wf:
  assumes "wf_board b"
  shows "isValidMove p b =
     Inr (\<not> (\<exists>y < length (shape p). \<exists>x < length (shape p ! y).
              shape p ! y ! x \<noteq> 0 \<and> blocked_at b (pos_x p + int x) (pos_y p + int y)))"
  unfolding isValidMove_def by (rule scan_rows_wf [OF assms])

lemma collides3_wf:
  assumes "wf_board3 b"
  shows "collides3 b newX newY newZ = Inr (blocked_at3 b newX newY newZ)"
proof -
  have len: "int (length b) = BOARD_DEPTH" and planes: "\<And>pl. pl \<in> set b \<Longrightarrow> wf_board pl"
    using assms by (auto simp: wf_board3_def list_all_iff)
  show ?thesis
  proof (cases "newX < 0 \<or> BOARD_WIDTH \<le> newX \<or> BOARD_HEIGHT \<le> newY \<or>
                newZ < 0 \<or> BOARD_DEPTH \<le> newZ \<or> newY < 0")
    case True
    then show ?thesis by (auto simp: collides3_def blocked_at3_def)
  next
    case False
    then have z: "nat newZ < length b" using len by auto
    then have "wf_board (b ! nat newZ)" using planes by simp
    then have lenp: "int (length (b ! nat newZ)) = BOARD_HEIGHT"
      and rows: "\<And>r. r \<in> set (b ! nat newZ) \<Longrightarrow> int (length r) = BOARD_WIDTH"
      by (auto simp: wf_board_def list_all_iff)
    from False lenp have y: "nat newY < length (b ! nat newZ)" by auto
    then have "int (length (b ! nat newZ ! nat newY)) = BOARD_WIDTH" using rows by simp
    with False y z len lenp show ?thesis
      by (auto simp: collides3_def blocked_at3_def js_index_def)
  qed
qed

lemma scan_cells3_wf:
  assumes "wf_board3 b"
  shows "scan_cells3 b newZ newY newX vs =
     Inr (\<not> (\<exists>i < length vs. vs ! i \<noteq> 0 \<and> blocked_at3 b (newX + int i) newY newZ))"
proof (induction vs arbitrary: newX)
  case Nil
  then show ?case by simp
next
  case (Cons v vs)
  show ?case
    using Cons.IH [of "newX + 1"] collides3_wf [OF assms, of newX newY newZ]
    by (simp add: ex_less_Suc_split add.assoc)
qed

lemma scan_rows3_wf:
  assumes "wf_board3 b"
  shows "scan_rows3 b newZ px newY rs =
     Inr (\<not> (\<exists>j < length rs. \<exists>i < length (rs ! j).
              rs ! j ! i \<noteq> 0 \<and> blocked_at3 b (px + int i) (newY + int j) newZ))"
proof (induction rs arbitrary: newY)
  case Nil
  then show ?case by simp
next
  case (Cons r rs)
  show ?case
    using Cons.IH [of "newY + 1"] scan_cells3_wf [OF assms, of newZ newY px r]
    by (simp add: ex_less_Suc_split add.assoc)
qed

lemma scan_planes3_wf:
  assumes "wf_board3 b"
  shows "scan_planes3 b px py newZ pls =
     Inr (\<not> (\<exists>k < length pls. \<exists>j < length (pls ! k). \<exists>i < length (pls ! k ! j).
              pls ! k ! j ! i \<noteq> 0 \<and> blocked_at3 b (px + int i) (py + int j) (newZ + int k)))"
proof (induction pls arbitrary: newZ)
  case Nil
  then show ?case by simp
next
  case (Cons pl pls)
  show ?case
    using Cons.IH [of "newZ + 1"] scan_rows3_wf [OF assms, of newZ px py pl]
    by (simp add: ex_less_Suc_split add.assoc)
qed

text \<open>
  Claim C1. On a board of the fixed extent, \<open>isValidMove\<close> returns (it does not throw), and
  it returns \<open>false\<close> exactly when some occupied sub-cell of the shape, moved by the
  position of the piece, lands on a column outside \<open>[0, BOARD_WIDTH)\<close>, or on a row
  \<open>\<ge> BOARD_HEIGHT\<close>, or, its row being \<open>\<ge> 0\<close>, on a cell of the board that is not \<open>0\<close>;
  in the volumetric component the depth coordinate must be in \<open>[0, BOARD_DEPTH)\<close> as well.
  A sub-cell above row \<open>0\<close> is not looked up in the board, but its column (and depth) is
  still checked.
\<close>

theorem isValidMove_characterisation:
  assumes "wf_board b" and "wf_board3 b3"
  shows "isValidMove p b =
           Inr (\<not> (\<exists>y < length (shape p). \<exists>x < length (shape p ! y).
                  shape p ! y ! x \<noteq> 0 \<and>
                  (pos_x p + int x < 0 \<or> BOARD_WIDTH \<le> pos_x p + int x \<or>
                   BOARD_HEIGHT \<le> pos_y p + int y \<or>
                   (0 \<le> pos_y p + int y \<and>
                    b ! nat (pos_y p + int y) ! nat (pos_x p + int x) \<noteq> 0))))
         \<and> isValidMove3 q b3 =
           Inr (\<not> (\<exists>z < length (shape3 q). \<exists>y < length (shape3 q ! z).
                  \<exists>x < length (shape3 q ! z ! y).
                  shape3 q ! z ! y ! x \<noteq> 0 \<and>
                  (pos3_x q + int x < 0 \<or> BOARD_WIDTH \<le> pos3_x q + int x \<or>
                   BOARD_HEIGHT \<le> pos3_y q + int y \<or>
                   pos3_z q + int z < 0 \<or> BOARD_DEPTH \<le> pos3_z q + int z \<or>
                   (0 \<le> pos3_y q + int y \<and>
                    b3 ! nat (pos3_z q + int z) ! nat (pos3_y q + int y)
                       ! nat (pos3_x q + int x) \<noteq> 0))))"
  unfolding isValidMove_wf [OF assms(1)] isValidMove3_def scan_planes3_wf [OF assms(2)]
    blocked_at_def blocked_at3_def
  by simp

theorem isValidMove_characterisation_witness:
  "wf_board emptyBoard \<and> wf_board3 emptyBoard3 \<and>
   isValidMove \<lparr>shape = [[1, 1, 1, 1]], pos_x = 8, pos_y = 0, color = (1::int)\<rparr> emptyBoard
     = Inr False \<and>
   isValidMove3
     \<lparr>shape3 = [[[1, 1, 1, 1]]], pos3_x = 3, pos3_y = 0, pos3_z = 4, color3 = ''#00FFFF''\<rparr>
     emptyBoard3 = Inr True"
proof -
  let ?p = "\<lparr>shape = [[1, 1, 1, 1]], pos_x = 8, pos_y = 0, color = (1::int)\<rparr>"
  let ?q = "\<lparr>shape3 = [[[1, 1, 1, 1]]], pos3_x = 3, pos3_y = 0, pos3_z = 4,
             color3 = ''#00FFFF''\<rparr>"
  note c = isValidMove_characterisation [OF wf_emptyBoard wf_emptyBoard3, of ?p ?q]
  have two: "isValidMove ?p emptyBoard = Inr False"
    unfolding conjunct1 [OF c]
    by (simp add: BOARD_WIDTH_def) (rule exI [of _ 2], simp)
  have cell: "\<And>x. x < 4 \<Longrightarrow> emptyBoard3 ! 4 ! 0 ! (3 + x) = 0"
    by (simp add: emptyBoard3_def emptyBoard_def BOARD_DEPTH_def BOARD_HEIGHT_def
        BOARD_WIDTH_def)
  have three: "isValidMove3 ?q emptyBoard3 = Inr True"
    unfolding conjunct2 [OF c]
    by (auto simp: BOARD_WIDTH_def BOARD_HEIGHT_def BOARD_DEPTH_def nat_add_distrib cell)
  show ?thesis
    using wf_emptyBoard wf_emptyBoard3 two three by simp
qed

section \<open>Clearing full rows\<close>

lemma filter_rows_eq:
  "filter_rows b n = (filter (\<lambda>r. \<not> full_row r) b, n + int (length (filter full_row b)))"
  by (induction b arbitrary: n) (auto simp: full_row_def list_all_iff)

lemma pad_rows_eq:
  "int (length nb) \<le> BOARD_HEIGHT \<Longrightarrow>
   pad_rows nb = replicate (nat BOARD_HEIGHT - length nb) (replicate (nat BOARD_WIDTH) 0) @ nb"
proof (induction nb rule: pad_rows.induct)
  case (1 nb)
  show ?case
  proof (cases "int (length nb) < BOARD_HEIGHT")
    case True
    then have "pad_rows nb = pad_rows (replicate (nat BOARD_WIDTH) 0 # nb)"
      by (subst pad_rows.simps) simp
    also have "\<dots> = replicate (nat BOARD_HEIGHT - Suc (length nb)) (replicate (nat BOARD_WIDTH) 0)
                  @ (replicate (nat BOARD_WIDTH) 0 # nb)"
      using "1.IH" [OF True] True by simp
    also have "\<dots> = replicate (Suc (nat BOARD_HEIGHT - Suc (length nb))) (replicate (nat BOARD_WIDTH) 0) @ nb"
      by (simp add: replicate_app_Cons_same)
    also have "Suc (nat BOARD_HEIGHT - Suc (length nb)) = nat BOARD_HEIGHT - length nb"
      using True by linarith
    finally show ?thesis .
  next
    case False
    with "1.prems" show ?thesis
      by (subst pad_rows.simps) simp
  qed
qed

lemma pad_rows_id: "\<not> int (length nb) < BOARD_HEIGHT \<Longrightarrow> pad_rows nb = nb"
  by (subst pad_rows.simps) simp

lemma clearLines_eq:
  assumes "int (length b) = BOARD_HEIGHT"
  shows "clearLines b =
     (replicate (length (filter full_row b)) (replicate (nat BOARD_WIDTH) 0)
        @ filter (\<lambda>r. \<not> full_row r) b,
      int (length (filter full_row b)))"
proof -
  have sum: "length (filter full_row b) + length (filter (\<lambda>r. \<not> full_row r) b) = length b"
    by (rule sum_length_filter_compl)
  then have le: "int (length (filter (\<lambda>r. \<not> full_row r) b)) \<le> BOARD_HEIGHT"
    using assms by linarith
  have "nat BOARD_HEIGHT - length (filter (\<lambda>r. \<not> full_row r) b) = length (filter full_row b)"
    using sum assms by linarith
  then show ?thesis
    by (simp add: clearLines_def filter_rows_eq pad_rows_eq [OF le])
qed

lemma filter_planes_eq:
  "filter_planes b n =
     (map (filter (\<lambda>r. \<not> full_row r)) b,
      n + (\<Sum>pl \<leftarrow> b. int (length (filter full_row pl))))"
  by (induction b arbitrary: n) (simp_all add: filter_rows_eq)

lemma pad_planes_eq: "pad_planes nb = map pad_rows nb"
proof (cases "list_ex (\<lambda>pl. int (length pl) < BOARD_HEIGHT) nb")
  case True
  have "\<not> list_ex (\<lambda>pl. int (length pl) < BOARD_HEIGHT) (map pad_rows nb)"
    by (simp add: list_ex_iff pad_rows_length)
  then have "pad_planes (map pad_rows nb) = map pad_rows nb"
    by (subst pad_planes.simps) simp
  with True show ?thesis
    by (subst pad_planes.simps) simp
next
  case False
  then have "map pad_rows nb = nb"
    by (simp add: list_ex_iff map_idI pad_rows_id)
  with False show ?thesis
    by (subst pad_planes.simps) simp
qed

lemma clearLines3_eq:
  "clearLines3 b = (map (\<lambda>pl. fst (clearLines pl)) b, (\<Sum>pl \<leftarrow> b. snd (clearLines pl)))"
  by (simp add: clearLines3_def clearLines_def filter_planes_eq filter_rows_eq pad_planes_eq
      comp_def)

text \<open>
  Claim C2. On a board of \<open>BOARD_HEIGHT\<close> rows, \<open>clearLines\<close> returns the rows that are not
  full, in their order, below as many empty rows as there are full rows, and it returns
  the number of full rows: the result has \<open>BOARD_HEIGHT\<close> rows again, and a board with no
  full row comes back unchanged with the count \<open>0\<close>. In the volumetric component
  \<open>clearLines\<close> does this to each plane, and returns the sum of the counts.
\<close>

theorem clearLines_removes_full_rows:
  assumes "int (length b) = BOARD_HEIGHT"
  shows "clearLines b =
           (replicate (length (filter full_row b)) (replicate (nat BOARD_WIDTH) 0)
              @ filter (\<lambda>r. \<not> full_row r) b,
            int (length (filter full_row b)))
         \<and> int (length (fst (clearLines b))) = BOARD_HEIGHT
         \<and> ((\<forall>r \<in> set b. \<not> full_row r) \<longrightarrow> clearLines b = (b, 0))
         \<and> clearLines3 b3 =
             (map (\<lambda>pl. fst (clearLines pl)) b3, (\<Sum>pl \<leftarrow> b3. snd (clearLines pl)))"
proof -
  note eq = clearLines_eq [OF assms]
  have len: "int (length (fst (clearLines b))) = BOARD_HEIGHT"
    using sum_length_filter_compl [of full_row b] assms by (simp add: eq)
  have same: "(\<forall>r \<in> set b. \<not> full_row r) \<longrightarrow> clearLines b = (b, 0)"
    by (simp add: eq filter_empty_conv filter_id_conv)
  show ?thesis
    using eq len same clearLines3_eq by blast
qed

theorem clearLines_removes_full_rows_witness:
  "int (length (replicate 18 (replicate 10 0) @ [replicate 10 1, [1, 0, 0, 0, 0, 0, 0, 0, 0, 0]]))
     = BOARD_HEIGHT \<and>
   clearLines (replicate 18 (replicate 10 0) @ [replicate 10 1, [1, 0, 0, 0, 0, 0, 0, 0, 0, 0]])
     = (replicate 19 (replicate 10 0) @ [[1, 0, 0, 0, 0, 0, 0, 0, 0, 0]], 1) \<and>
   clearLines3 (replicate 10 (replicate 18 (replicate 10 0) @ [replicate 10 1, [1, 0, 0, 0, 0, 0, 0, 0, 0, 0]]))
     = (replicate 10 (replicate 19 (replicate 10 0) @ [[1, 0, 0, 0, 0, 0, 0, 0, 0, 0]]), 10)"
proof -
  let ?b = "replicate 18 (replicate 10 0) @ [replicate 10 1, [1, 0, 0, 0, 0, 0, 0, 0, 0, 0::int]]"
  have h: "int (length ?b) = BOARD_HEIGHT"
    by (simp add: BOARD_HEIGHT_def)
  note c = clearLines_removes_full_rows [OF h, of "replicate 10 ?b"]
  have full: "filter full_row ?b = [replicate 10 1]"
    by (simp add: full_row_def)
  have rest: "filter (\<lambda>r. \<not> full_row r) ?b = replicate 18 (replicate 10 0) @ [[1, 0, 0, 0, 0, 0, 0, 0, 0, 0]]"
    by (simp add: full_row_def)
  have r19: "replicate 19 x = x # replicate 18 x" for x :: "int list"
  proof -
    have "(19::nat) = Suc 18" by simp
    then show ?thesis by (simp only: replicate_Suc)
  qed
  have one: "clearLines ?b = (replicate 19 (replicate 10 0) @ [[1, 0, 0, 0, 0, 0, 0, 0, 0, 0]], 1)"
    unfolding conjunct1 [OF c] full rest
    by (simp add: BOARD_WIDTH_def r19)
  have three: "clearLines3 (replicate 10 ?b)
     = (replicate 10 (replicate 19 (replicate 10 0) @ [[1, 0, 0, 0, 0, 0, 0, 0, 0, 0]]), 10)"
    unfolding conjunct2 [OF conjunct2 [OF conjunct2 [OF c]]]
    by (simp add: map_replicate_const sum_list_replicate one)
  show ?thesis using h one three by simp
qed

section \<open>Boards keep their extent\<close>

lemma wf_set_cell:
  assumes "wf_board nb" and "set_cell nb Y X v = Inr nb'"
  shows "wf_board nb'"
proof -
  from assms(2) obtain r where r: "js_index nb Y = Some r"
    and nb': "nb' = nb[nat Y := r[nat X := v]]"
    by (auto simp: set_cell_def split: option.splits if_splits)
  from r have "r \<in> set nb"
    by (auto simp: js_index_def split: if_splits)
  with assms(1) have "int (length r) = BOARD_WIDTH"
    by (simp add: wf_board_def list_all_iff)
  with assms(1) show ?thesis
    unfolding nb' wf_board_def list_all_iff
    by (auto dest!: set_update_subset_insert [THEN subsetD])
qed

lemma wf_write_cells:
  "wf_board nb \<Longrightarrow> write_cells v Y X cs nb = Inr nb' \<Longrightarrow> wf_board nb'"
proof (induction cs arbitrary: X nb)
  case Nil
  then show ?case by simp
next
  case (Cons c cs)
  then show ?case
    by (auto split: if_splits sum.splits dest: wf_set_cell)
qed

lemma wf_write_rows:
  "wf_board nb \<Longrightarrow> write_rows v px Y rs nb = Inr nb' \<Longrightarrow> wf_board nb'"
proof (induction rs arbitrary: Y nb)
  case Nil
  then show ?case by simp
next
  case (Cons r rs)
  then show ?case
    by (auto split: sum.splits dest: wf_write_cells)
qed

lemma wf_mergePieceToBoard_dom:
  "wf_board b \<Longrightarrow> mergePieceToBoard_dom p b = Inr nb \<Longrightarrow> wf_board nb"
  unfolding mergePieceToBoard_dom_def by (rule wf_write_rows)

lemma wf_mergePieceToBoard:
  "wf_board b \<Longrightarrow> mergePieceToBoard p b = Inr nb \<Longrightarrow> wf_board nb"
  unfolding mergePieceToBoard_def by (rule wf_write_rows)

lemma wf_clearLines:
  assumes "wf_board b"
  shows "wf_board (fst (clearLines b))"
proof -
  have len: "int (length b) = BOARD_HEIGHT"
    using assms by (simp add: wf_board_def)
  have "length (filter full_row b) + length (filter (\<lambda>r. \<not> full_row r) b) = length b"
    by (rule sum_length_filter_compl)
  with len have "int (length (fst (clearLines b))) = BOARD_HEIGHT"
    by (simp add: clearLines_eq [OF len])
  moreover have "\<forall>r \<in> set (fst (clearLines b)). int (length r) = BOARD_WIDTH"
    using assms by (auto simp: clearLines_eq [OF len] wf_board_def list_all_iff BOARD_WIDTH_def)
  ultimately show ?thesis
    by (simp add: wf_board_def list_all_iff)
qed

section \<open>The lock sequence: score\<close>

lemma isValidMove_total: "wf_board b \<Longrightarrow> \<exists>ok. isValidMove p b = Inr ok"
  by (simp add: isValidMove_wf)

lemma below_seven:
  assumes "r < (7::nat)"
  obtains "r = 0" | "r = 1" | "r = 2" | "r = 3" | "r = 4" | "r = 5" | "r = 6"
  using assms by linarith

lemma createNewPiece_dom_ok: "r < 7 \<Longrightarrow> \<exists>n. createNewPiece_dom r = Inr n"
  by (erule below_seven)
     (simp_all add: createNewPiece_dom_def createNewPiece_from_def SHAPES_dom_def js_index_def
        spawn_x_def)

lemma createNewPiece_ok: "r < 7 \<Longrightarrow> \<exists>n. createNewPiece r = Inr n"
  by (erule below_seven)
     (simp_all add: createNewPiece_def createNewPiece_from_def SHAPES_def js_index_def
        spawn_x_def)

lemma level_up_frame [simp]:
  "board (level_up s l g) = board g"
  "piece (level_up s l g) = piece g"
  "nextPiece (level_up s l g) = nextPiece g"
  "score (level_up s l g) = score g"
  "gameOver (level_up s l g) = gameOver g"
  "game.more (level_up s l g) = game.more g"
  by (simp_all add: level_up_def)

lemma level_up_hold_frame [simp]:
  "storedPiece (level_up s l h) = storedPiece h"
  "canStore (level_up s l h) = canStore h"
  "highScore (level_up s l h) = highScore h"
  by (simp_all add: level_up_def)

lemma advance_dom_frame:
  "advance_dom r1 r2 nxt cb g = Inr g' \<Longrightarrow>
   board g' = board g \<and> score g' = score g \<and> level g' = level g \<and> speed g' = speed g"
  by (auto simp: advance_dom_def split: option.splits sum.splits if_splits)

lemma advance_dom_total:
  assumes "wf_board cb" and "r1 < 7" and "r2 < 7"
  shows "\<exists>g'. advance_dom r1 r2 nxt cb g = Inr g'"
proof -
  obtain n1 n2 where n: "createNewPiece_dom r1 = Inr n1" "createNewPiece_dom r2 = Inr n2"
    using createNewPiece_dom_ok assms(2,3) by blast
  obtain ok where "isValidMove n1 cb = Inr ok"
    using isValidMove_total [OF assms(1)] by blast
  with n show ?thesis
    by (simp add: advance_dom_def split: option.splits)
qed

lemma advance_canvas_frame:
  "advance_canvas r1 r2 nxt cb h = Inr h' \<Longrightarrow>
   board h' = board h \<and> score h' = score h \<and> level h' = level h \<and> speed h' = speed h \<and>
   storedPiece h' = storedPiece h \<and> highScore h' = highScore h"
  by (auto simp: advance_canvas_def split: option.splits sum.splits if_splits)

lemma advance_canvas_total:
  assumes "wf_board cb" and "r1 < 7" and "r2 < 7"
  shows "\<exists>h'. advance_canvas r1 r2 nxt cb h = Inr h'"
proof -
  obtain n1 n2 where n: "createNewPiece r1 = Inr n1" "createNewPiece r2 = Inr n2"
    using createNewPiece_ok assms(2,3) by blast
  obtain ok where ok: "isValidMove n1 cb = Inr ok"
    using isValidMove_total [OF assms(1)] by blast
  show ?thesis
  proof (cases nxt)
    case None
    with n ok show ?thesis by (simp add: advance_canvas_def)
  next
    case (Some np)
    obtain ok' where "isValidMove np cb = Inr ok'"
      using isValidMove_total [OF assms(1)] by blast
    with Some n show ?thesis by (simp add: advance_canvas_def)
  qed
qed

lemma lock_canvas_score:
  assumes "wf_board nb" and "r1 < 7" and "r2 < 7"
  shows "\<exists>h'. lock_canvas r1 r2 bonus nb h = Inr h' \<and>
           score h' = score h + snd (clearLines nb) * snd (clearLines nb) * 100 + 10 + bonus"
proof -
  obtain cb k where ck: "clearLines nb = (cb, k)"
    by (cases "clearLines nb")
  then have "wf_board cb"
    using wf_clearLines [OF assms(1)] by simp
  from advance_canvas_total [OF this assms(2,3)] advance_canvas_frame ck
  show ?thesis
    by (fastforce simp: lock_canvas_def Let_def)
qed

text \<open>
  Claim C3. When the active piece cannot move down and is merged, \<open>moveDown\<close> (of both
  components of \<open>tetris-2d.tsx\<close>) returns a state whose score is the old score plus
  \<open>k * k * 100 + 10\<close>, \<open>k\<close> being the number of lines that \<open>clearLines\<close> counts on the merged
  board. \<open>hardDrop\<close> adds to this the rows between the row of the piece and the row it is
  dropped to.
\<close>

theorem score_delta_on_lock:
  assumes "r1 < 7" and "r2 < 7"
  shows "(wf_board (board g) \<and> piece g = Some p \<and>
          isValidMove (p\<lparr>pos_y := pos_y p + 1\<rparr>) (board g) = Inr False \<and>
          mergePieceToBoard_dom p (board g) = Inr nb \<longrightarrow>
            (\<exists>g'. moveDown_dom r1 r2 g = Inr g' \<and>
                  score g' = score g + snd (clearLines nb) * snd (clearLines nb) * 100 + 10))
       \<and> (wf_board (board h) \<and> piece h = Some q \<and>
          isValidMove (q\<lparr>pos_y := pos_y q + 1\<rparr>) (board h) = Inr False \<and>
          mergePieceToBoard q (board h) = Inr nb' \<longrightarrow>
            (\<exists>h'. moveDown_canvas r1 r2 h = Inr h' \<and>
                  score h' = score h + snd (clearLines nb') * snd (clearLines nb') * 100 + 10))
       \<and> (wf_board (board h) \<and> piece h = Some q \<and>
          getDropPosition q (board h) = Some (Inr (dx, dy)) \<and>
          mergePieceToBoard (q\<lparr>pos_x := dx, pos_y := dy\<rparr>) (board h) = Inr nb'' \<longrightarrow>
            (\<exists>h'. hardDrop_canvas r1 r2 h = Some (Inr h') \<and>
                  score h' = score h + snd (clearLines nb'') * snd (clearLines nb'') * 100 + 10
                               + (dy - pos_y q)))"
proof (intro conjI impI)
  assume a: "wf_board (board g) \<and> piece g = Some p \<and>
          isValidMove (p\<lparr>pos_y := pos_y p + 1\<rparr>) (board g) = Inr False \<and>
          mergePieceToBoard_dom p (board g) = Inr nb"
  then have wf: "wf_board nb"
    using wf_mergePieceToBoard_dom by blast
  obtain cb k where ck: "clearLines nb = (cb, k)"
    by (cases "clearLines nb")
  then have "wf_board cb"
    using wf_clearLines [OF wf] by simp
  from advance_dom_total [OF this assms] advance_dom_frame a ck
  show "\<exists>g'. moveDown_dom r1 r2 g = Inr g' \<and>
          score g' = score g + snd (clearLines nb) * snd (clearLines nb) * 100 + 10"
    by (fastforce simp: moveDown_dom_def Let_def)
next
  assume a: "wf_board (board h) \<and> piece h = Some q \<and>
          isValidMove (q\<lparr>pos_y := pos_y q + 1\<rparr>) (board h) = Inr False \<and>
          mergePieceToBoard q (board h) = Inr nb'"
  then have wf: "wf_board nb'"
    using wf_mergePieceToBoard by blast
  from lock_canvas_score [OF wf assms, of 0 h] a
  show "\<exists>h'. moveDown_canvas r1 r2 h = Inr h' \<and>
          score h' = score h + snd (clearLines nb') * snd (clearLines nb') * 100 + 10"
    by (simp add: moveDown_canvas_def)
next
  assume a: "wf_board (board h) \<and> piece h = Some q \<and>
          getDropPosition q (board h) = Some (Inr (dx, dy)) \<and>
          mergePieceToBoard (q\<lparr>pos_x := dx, pos_y := dy\<rparr>) (board h) = Inr nb''"
  then have wf: "wf_board nb''"
    using wf_mergePieceToBoard by blast
  from lock_canvas_score [OF wf assms, of "dy - pos_y q" "h\<lparr>piece := Some (q\<lparr>pos_x := dx, pos_y := dy\<rparr>)\<rparr>"] a
  show "\<exists>h'. hardDrop_canvas r1 r2 h = Some (Inr h') \<and>
          score h' = score h + snd (clearLines nb'') * snd (clearLines nb'') * 100 + 10
                       + (dy - pos_y q)"
    by (simp add: hardDrop_canvas_def)
qed

theorem score_delta_on_lock_witness:
  "(0::nat) < 7 \<and>
   wf_board (board (dom_state gap_board 19)) \<and>
   piece (dom_state gap_board 19) = Some (I_dom 19) \<and>
   isValidMove ((I_dom 19)\<lparr>pos_y := pos_y (I_dom 19) + 1\<rparr>) (board (dom_state gap_board 19))
     = Inr False \<and>
   mergePieceToBoard_dom (I_dom 19) (board (dom_state gap_board 19)) = Inr full_bottom \<and>
   (\<exists>g'. moveDown_dom 0 0 (dom_state gap_board 19) = Inr g' \<and> score g' = 110) \<and>
   wf_board (board (canvas_state gap_board 19)) \<and>
   piece (canvas_state gap_board 19) = Some (I_canvas 19) \<and>
   isValidMove ((I_canvas 19)\<lparr>pos_y := pos_y (I_canvas 19) + 1\<rparr>)
     (board (canvas_state gap_board 19)) = Inr False \<and>
   mergePieceToBoard (I_canvas 19) (board (canvas_state gap_board 19)) = Inr full_bottom \<and>
   (\<exists>h'. moveDown_canvas 0 0 (canvas_state gap_board 19) = Inr h' \<and> score h' = 110) \<and>
   wf_board (board (canvas_state gap_board 17)) \<and>
   piece (canvas_state gap_board 17) = Some (I_canvas 17) \<and>
   getDropPosition (I_canvas 17) (board (canvas_state gap_board 17)) = Some (Inr (3, 19)) \<and>
   mergePieceToBoard ((I_canvas 17)\<lparr>pos_x := 3, pos_y := 19\<rparr>)
     (board (canvas_state gap_board 17)) = Inr full_bottom \<and>
   (\<exists>h'. hardDrop_canvas 0 0 (canvas_state gap_board 17) = Some (Inr h') \<and> score h' = 112)"
proof -
  have r: "(0::nat) < 7" by simp
  have d1: "wf_board (board (dom_state gap_board 19))" by code_simp
  have d2: "piece (dom_state gap_board 19) = Some (I_dom 19)" by (simp add: dom_state_def)
  have d3: "isValidMove ((I_dom 19)\<lparr>pos_y := pos_y (I_dom 19) + 1\<rparr>)
      (board (dom_state gap_board 19)) = Inr False" by code_simp
  have d4: "mergePieceToBoard_dom (I_dom 19) (board (dom_state gap_board 19)) = Inr full_bottom"
    by code_simp
  have c1: "wf_board (board (canvas_state gap_board 19))" by code_simp
  have c2: "piece (canvas_state gap_board 19) = Some (I_canvas 19)"
    by (simp add: canvas_state_def)
  have c3: "isValidMove ((I_canvas 19)\<lparr>pos_y := pos_y (I_canvas 19) + 1\<rparr>)
      (board (canvas_state gap_board 19)) = Inr False" by code_simp
  have c4: "mergePieceToBoard (I_canvas 19) (board (canvas_state gap_board 19)) = Inr full_bottom"
    by code_simp
  have h1: "wf_board (board (canvas_state gap_board 17))" by code_simp
  have h2: "piece (canvas_state gap_board 17) = Some (I_canvas 17)"
    by (simp add: canvas_state_def)
  have h3: "getDropPosition (I_canvas 17) (board (canvas_state gap_board 17)) = Some (Inr (3, 19))"
    by code_simp
  have h4: "mergePieceToBoard ((I_canvas 17)\<lparr>pos_x := 3, pos_y := 19\<rparr>)
      (board (canvas_state gap_board 17)) = Inr full_bottom" by code_simp
  have k: "snd (clearLines full_bottom) = 1" by code_simp
  have s: "score (dom_state gap_board 19) = 0" "score (canvas_state gap_board 19) = 0"
    "score (canvas_state gap_board 17) = 0" "pos_y (I_canvas 17) = 17"
    by (simp_all add: dom_state_def canvas_state_def I_canvas_def)
  note t1 = score_delta_on_lock [OF r r, of "dom_state gap_board 19" "I_dom 19" full_bottom
      "canvas_state gap_board 19" "I_canvas 19" full_bottom 3 19 full_bottom]
  note t2 = score_delta_on_lock [OF r r, of "dom_state gap_board 19" "I_dom 19" full_bottom
      "canvas_state gap_board 17" "I_canvas 17" full_bottom 3 19 full_bottom]
  have e1: "\<exists>g'. moveDown_dom 0 0 (dom_state gap_board 19) = Inr g' \<and> score g' = 110"
    using conjunct1 [OF t1] d1 d2 d3 d4 by (simp add: k s)
  have e2: "\<exists>h'. moveDown_canvas 0 0 (canvas_state gap_board 19) = Inr h' \<and> score h' = 110"
    using conjunct1 [OF conjunct2 [OF t1]] c1 c2 c3 c4 by (simp add: k s)
  have e3: "\<exists>h'. hardDrop_canvas 0 0 (canvas_state gap_board 17) = Some (Inr h') \<and> score h' = 112"
    using conjunct2 [OF conjunct2 [OF t2]] h1 h2 h3 h4 by (simp add: k s)
  show ?thesis
    using r d1 d2 d3 d4 e1 c1 c2 c3 c4 e2 h1 h2 h3 h4 e3 by blast
qed

section \<open>The lock sequence: level and interval\<close>

lemma level_up_level:
  "level (level_up s l g) = (if l * LEVEL_THRESHOLD \<le> s then level g + 1 else level g)"
  "speed (level_up s l g) = (if l * LEVEL_THRESHOLD \<le> s then max (speed g - SPEED_INCREMENT) 100 else speed g)"
  by (simp_all add: level_up_def)

lemma moveDown_dom_lock_level:
  assumes "r1 < 7" and "r2 < 7" and "wf_board (board g)" and "piece g = Some p"
    and "isValidMove (p\<lparr>pos_y := pos_y p + 1\<rparr>) (board g) = Inr False"
    and "mergePieceToBoard_dom p (board g) = Inr nb"
  shows "\<exists>g'. moveDown_dom r1 r2 g = Inr g' \<and>
           level g' = (if level g * LEVEL_THRESHOLD \<le> score g' then level g + 1 else level g) \<and>
           speed g' = (if level g * LEVEL_THRESHOLD \<le> score g'
                       then max (speed g - SPEED_INCREMENT) 100 else speed g)"
proof -
  have wf: "wf_board nb"
    using assms(3,6) by (rule wf_mergePieceToBoard_dom)
  obtain cb k where ck: "clearLines nb = (cb, k)"
    by (cases "clearLines nb")
  then have "wf_board cb"
    using wf_clearLines [OF wf] by simp
  from advance_dom_total [OF this assms(1,2)] advance_dom_frame assms(4,5,6) ck
  show ?thesis
    by (fastforce simp: moveDown_dom_def Let_def level_up_level)
qed

lemma moveDown_canvas_lock_level:
  assumes "r1 < 7" and "r2 < 7" and "wf_board (board h)" and "piece h = Some q"
    and "isValidMove (q\<lparr>pos_y := pos_y q + 1\<rparr>) (board h) = Inr False"
    and "mergePieceToBoard q (board h) = Inr nb"
  shows "\<exists>h'. moveDown_canvas r1 r2 h = Inr h' \<and>
           level h' = (if level h * LEVEL_THRESHOLD \<le> score h' then level h + 1 else level h) \<and>
           speed h' = (if level h * LEVEL_THRESHOLD \<le> score h'
                       then max (speed h - SPEED_INCREMENT) 100 else speed h)"
proof -
  have wf: "wf_board nb"
    using assms(3,6) by (rule wf_mergePieceToBoard)
  obtain cb k where ck: "clearLines nb = (cb, k)"
    by (cases "clearLines nb")
  then have "wf_board cb"
    using wf_clearLines [OF wf] by simp
  from advance_canvas_total [OF this assms(1,2)] advance_canvas_frame assms(4,5,6) ck
  show ?thesis
    by (fastforce simp: moveDown_canvas_def lock_canvas_def Let_def level_up_level)
qed

lemma level_step:
  fixes lv lv' sp sp' sc :: int
  assumes "lv' = (if lv * LEVEL_THRESHOLD \<le> sc then lv + 1 else lv)"
    and "sp' = (if lv * LEVEL_THRESHOLD \<le> sc then max (sp - SPEED_INCREMENT) 100 else sp)"
  shows "(lv * LEVEL_THRESHOLD \<le> sc \<longrightarrow>
            lv' = lv + 1 \<and> sp' = max (sp - SPEED_INCREMENT) 100 \<and>
            (100 \<le> sp \<longrightarrow> 100 \<le> sp' \<and> sp' \<le> sp) \<and>
            (100 < sp \<longrightarrow> sp' < sp) \<and>
            (100 + SPEED_INCREMENT \<le> sp \<longrightarrow> sp' = sp - SPEED_INCREMENT)) \<and>
         (sc < lv * LEVEL_THRESHOLD \<longrightarrow> lv' = lv \<and> sp' = sp) \<and>
         lv \<le> lv'"
  using assms by (auto simp: SPEED_INCREMENT_def)

lemma step_bounds:
  fixes lv lv' sp sp' :: int
  assumes "(lv' = lv \<and> sp' = sp) \<or> (lv' = lv + 1 \<and> sp' = max (sp - SPEED_INCREMENT) 100)"
  shows "lv \<le> lv' \<and> (100 \<le> sp \<longrightarrow> 100 \<le> sp' \<and> sp' \<le> sp)"
  using assms by (auto simp: SPEED_INCREMENT_def)

lemma lock_canvas_levels:
  assumes "lock_canvas r1 r2 bonus nb s = Inr s'"
  shows "level s' = (if level s * LEVEL_THRESHOLD \<le> score s' then level s + 1 else level s) \<and>
         speed s' = (if level s * LEVEL_THRESHOLD \<le> score s'
                     then max (speed s - SPEED_INCREMENT) 100 else speed s)"
proof -
  obtain cb k where ck: "clearLines nb = (cb, k)"
    by (cases "clearLines nb")
  from assms ck advance_canvas_frame show ?thesis
    by (fastforce simp: lock_canvas_def Let_def level_up_level)
qed

lemma hardDrop_canvas_lock_level:
  assumes "r1 < 7" and "r2 < 7" and "wf_board (board h)" and "piece h = Some q"
    and "getDropPosition q (board h) = Some (Inr (dx, dy))"
    and "mergePieceToBoard (q\<lparr>pos_x := dx, pos_y := dy\<rparr>) (board h) = Inr nb"
  shows "\<exists>h'. hardDrop_canvas r1 r2 h = Some (Inr h') \<and>
           level h' = (if level h * LEVEL_THRESHOLD \<le> score h' then level h + 1 else level h) \<and>
           speed h' = (if level h * LEVEL_THRESHOLD \<le> score h'
                       then max (speed h - SPEED_INCREMENT) 100 else speed h)"
proof -
  let ?s = "h\<lparr>piece := Some (q\<lparr>pos_x := dx, pos_y := dy\<rparr>)\<rparr>"
  have wf: "wf_board nb"
    using assms(3,6) by (rule wf_mergePieceToBoard)
  from lock_canvas_score [OF wf assms(1,2), of "dy - pos_y q" ?s]
  obtain h' where h': "lock_canvas r1 r2 (dy - pos_y q) nb ?s = Inr h'"
    by blast
  have "hardDrop_canvas r1 r2 h = Some (Inr h')"
    using assms(4,5,6) h' by (simp add: hardDrop_canvas_def)
  with lock_canvas_levels [OF h'] show ?thesis by simp
qed

lemma lock_canvas_step:
  assumes "lock_canvas r1 r2 bonus nb s = Inr s'"
  shows "(level s' = level s \<and> speed s' = speed s) \<or>
         (level s' = level s + 1 \<and> speed s' = max (speed s - SPEED_INCREMENT) 100)"
  using lock_canvas_levels [OF assms] by (simp split: if_splits)

lemma moveDown_dom_levels:
  assumes "moveDown_dom r1 r2 a = Inr a'"
  shows "level a \<le> level a' \<and> (100 \<le> speed a \<longrightarrow> 100 \<le> speed a' \<and> speed a' \<le> speed a)"
proof (rule step_bounds)
  show "(level a' = level a \<and> speed a' = speed a) \<or>
        (level a' = level a + 1 \<and> speed a' = max (speed a - SPEED_INCREMENT) 100)"
    using assms advance_dom_frame
    by (fastforce simp: moveDown_dom_def Let_def level_up_level
        split: option.splits sum.splits if_splits prod.splits)
qed

lemma moveDown_canvas_step:
  assumes "moveDown_canvas r1 r2 c = Inr c'"
  shows "(level c' = level c \<and> speed c' = speed c) \<or>
         (level c' = level c + 1 \<and> speed c' = max (speed c - SPEED_INCREMENT) 100)"
  using assms lock_canvas_step
  by (fastforce simp: moveDown_canvas_def split: option.splits sum.splits if_splits)

lemma moveDown_canvas_levels:
  assumes "moveDown_canvas r1 r2 c = Inr c'"
  shows "level c \<le> level c' \<and> (100 \<le> speed c \<longrightarrow> 100 \<le> speed c' \<and> speed c' \<le> speed c)"
  by (rule step_bounds) (rule moveDown_canvas_step [OF assms])

lemma hardDrop_canvas_step:
  assumes "hardDrop_canvas r1 r2 c = Some (Inr c')"
  shows "(level c' = level c \<and> speed c' = speed c) \<or>
         (level c' = level c + 1 \<and> speed c' = max (speed c - SPEED_INCREMENT) 100)"
proof (cases "piece c")
  case None
  with assms show ?thesis by (simp add: hardDrop_canvas_def)
next
  case (Some p)
  with assms obtain dx dy nb where
    "lock_canvas r1 r2 (dy - pos_y p) nb (c\<lparr>piece := Some (p\<lparr>pos_x := dx, pos_y := dy\<rparr>)\<rparr>) = Inr c'"
    by (auto simp: hardDrop_canvas_def split: option.splits sum.splits)
  from lock_canvas_step [OF this] show ?thesis by simp
qed

lemma hardDrop_canvas_levels:
  assumes "hardDrop_canvas r1 r2 c = Some (Inr c')"
  shows "level c \<le> level c' \<and> (100 \<le> speed c \<longrightarrow> 100 \<le> speed c' \<and> speed c' \<le> speed c)"
  by (rule step_bounds) (rule hardDrop_canvas_step [OF assms])

lemma spawn_dom_levels:
  "spawn_dom r1 r2 a = Inr a' \<Longrightarrow> level a' = level a \<and> speed a' = speed a"
  by (auto simp: spawn_dom_def split: sum.splits if_splits)

lemma moveSideways_levels:
  "moveSideways d a = Inr a' \<Longrightarrow> level a' = level a \<and> speed a' = speed a"
  by (auto simp: moveSideways_def split: option.splits sum.splits if_splits)

lemma rotate_plain_levels:
  "rotate_plain a = Inr a' \<Longrightarrow> level a' = level a \<and> speed a' = speed a"
  by (auto simp: rotate_plain_def split: option.splits sum.splits if_splits)

lemma rotate_canvas_levels:
  "rotate_canvas c = Inr c' \<Longrightarrow> level c' = level c \<and> speed c' = speed c"
  by (auto simp: rotate_canvas_def split: option.splits sum.splits if_splits)

lemma storePiece_levels:
  "storePiece r c = Inr c' \<Longrightarrow> level c' = level c \<and> speed c' = speed c"
  by (auto simp: storePiece_def split: option.splits sum.splits if_splits)

lemma spawn_checked_levels:
  "spawn_checked r1 r2 c = Inr c' \<Longrightarrow> level c' = level c \<and> speed c' = speed c"
  by (auto simp: spawn_checked_def split: sum.splits if_splits)

lemma gameLoop_canvas_levels:
  assumes "gameLoop_canvas r1 r2 c = Inr c'"
  shows "level c \<le> level c' \<and> (100 \<le> speed c \<longrightarrow> 100 \<le> speed c' \<and> speed c' \<le> speed c)"
proof (cases "gameOver c")
  case True
  with assms show ?thesis by (auto simp: gameLoop_canvas_def)
next
  case False
  with assms show ?thesis by (simp add: gameLoop_canvas_def moveDown_canvas_levels)
qed

lemma handleKeyPress_canvas_levels:
  assumes "handleKeyPress_canvas r1 r2 k c = Some (Inr c')"
  shows "level c \<le> level c' \<and> (100 \<le> speed c \<longrightarrow> 100 \<le> speed c' \<and> speed c' \<le> speed c)"
proof (cases "gameOver c")
  case True
  with assms show ?thesis by (auto simp: handleKeyPress_canvas_def)
next
  case False
  show ?thesis
  proof (cases k)
    case ArrowLeft
    with assms False moveSideways_levels [of Left c c'] show ?thesis
      by (simp add: handleKeyPress_canvas_def)
  next
    case ArrowRight
    with assms False moveSideways_levels [of Right c c'] show ?thesis
      by (simp add: handleKeyPress_canvas_def)
  next
    case ArrowDown
    with assms False show ?thesis
      by (simp add: handleKeyPress_canvas_def moveDown_canvas_levels)
  next
    case ArrowUp
    with assms False show ?thesis
      by (simp add: handleKeyPress_canvas_def hardDrop_canvas_levels)
  next
    case Key_z
    with assms False rotate_canvas_levels [of c c'] show ?thesis
      by (simp add: handleKeyPress_canvas_def)
  next
    case Key_x
    with assms False storePiece_levels [of r1 c c'] show ?thesis
      by (simp add: handleKeyPress_canvas_def)
  next
    case Key_other
    with assms False show ?thesis
      by (auto simp: handleKeyPress_canvas_def)
  qed
qed

lemma advance_3d_frame:
  "advance_3d r1 r2 nxt cb g = Inr g' \<Longrightarrow> level g' = level g \<and> speed g' = speed g"
  by (auto simp: advance_3d_def split: option.splits sum.splits if_splits)

lemma moveDown_3d_step:
  assumes "moveDown_3d r1 r2 cl g = Inr g'"
  shows "(level g' = level g \<and> speed g' = speed g) \<or>
         (level g' = level g + 1 \<and> speed g' = max (speed g - SPEED_INCREMENT) 100)"
  using assms advance_3d_frame
  by (fastforce simp: moveDown_3d_def Let_def level_up_level
      split: option.splits sum.splits if_splits prod.splits)

lemma moveDown_3d_levels:
  assumes "moveDown_3d r1 r2 t t = Inr t'"
  shows "level t \<le> level t' \<and> (100 \<le> speed t \<longrightarrow> 100 \<le> speed t' \<and> speed t' \<le> speed t)"
  by (rule step_bounds) (rule moveDown_3d_step [OF assms])

lemma hardDrop_3d_levels:
  assumes "hardDrop_3d r1 r2 t = Some (Inr t')"
  shows "level t \<le> level t' \<and> (100 \<le> speed t \<longrightarrow> 100 \<le> speed t' \<and> speed t' \<le> speed t)"
proof (cases "piece t")
  case None
  with assms show ?thesis by (simp add: hardDrop_3d_def)
next
  case (Some p)
  with assms obtain newY where
    "moveDown_3d r1 r2 t (t\<lparr>piece := Some (p\<lparr>pos_y := newY\<rparr>)\<rparr>) = Inr t'"
    by (auto simp: hardDrop_3d_def split: option.splits sum.splits)
  from moveDown_3d_step [OF this] show ?thesis
    by (intro step_bounds) simp
qed

text \<open>
  Claim C5, as amended. When the active piece is locked, by \<open>moveDown\<close> in either component
  of \<open>tetris-2d.tsx\<close> or by \<open>hardDrop\<close> (lines 512-515, where the new score also has the drop
  bonus), and the new score is at least \<open>level * LEVEL_THRESHOLD\<close>, the level grows by one and
  the interval becomes \<open>max (speed - SPEED_INCREMENT) 100\<close>: from an interval of at least 100
  it stays at least 100 and does not grow, it decreases strictly when it was above 100, and
  by exactly \<open>SPEED_INCREMENT\<close> when it was at least 150. Below the threshold level and
  interval are unchanged. The level never decreases: in every branch of every callback of
  the two components (\<open>moveDown\<close>, \<open>hardDrop\<close>, \<open>moveSideways\<close>, \<open>rotate\<close>, \<open>storePiece\<close>,
  the first spawn, \<open>handleKeyPress\<close>, the interval), and of \<open>moveDown\<close> and \<open>hardDrop\<close> of
  \<open>tetris-3d.tsx\<close>, the level stays or grows, and an interval of at least 100 stays at least
  100 and does not grow; the callbacks that never lock leave both as they are.
\<close>

theorem level_and_interval_on_lock:
  assumes "r1 < 7" and "r2 < 7"
  shows "(wf_board (board g) \<and> piece g = Some p \<and>
          isValidMove (p\<lparr>pos_y := pos_y p + 1\<rparr>) (board g) = Inr False \<and>
          mergePieceToBoard_dom p (board g) = Inr nb \<longrightarrow>
            (\<exists>g'. moveDown_dom r1 r2 g = Inr g' \<and>
               (level g * LEVEL_THRESHOLD \<le> score g' \<longrightarrow>
                  level g' = level g + 1 \<and> speed g' = max (speed g - SPEED_INCREMENT) 100 \<and>
                  (100 \<le> speed g \<longrightarrow> 100 \<le> speed g' \<and> speed g' \<le> speed g) \<and>
                  (100 < speed g \<longrightarrow> speed g' < speed g) \<and>
                  (100 + SPEED_INCREMENT \<le> speed g \<longrightarrow> speed g' = speed g - SPEED_INCREMENT)) \<and>
               (score g' < level g * LEVEL_THRESHOLD \<longrightarrow> level g' = level g \<and> speed g' = speed g) \<and>
               level g \<le> level g'))
       \<and> (wf_board (board h) \<and> piece h = Some q \<and>
          isValidMove (q\<lparr>pos_y := pos_y q + 1\<rparr>) (board h) = Inr False \<and>
          mergePieceToBoard q (board h) = Inr nb' \<longrightarrow>
            (\<exists>h'. moveDown_canvas r1 r2 h = Inr h' \<and>
               (level h * LEVEL_THRESHOLD \<le> score h' \<longrightarrow>
                  level h' = level h + 1 \<and> speed h' = max (speed h - SPEED_INCREMENT) 100 \<and>
                  (100 \<le> speed h \<longrightarrow> 100 \<le> speed h' \<and> speed h' \<le> speed h) \<and>
                  (100 < speed h \<longrightarrow> speed h' < speed h) \<and>
                  (100 + SPEED_INCREMENT \<le> speed h \<longrightarrow> speed h' = speed h - SPEED_INCREMENT)) \<and>
               (score h' < level h * LEVEL_THRESHOLD \<longrightarrow> level h' = level h \<and> speed h' = speed h) \<and>
               level h \<le> level h'))
       \<and> (wf_board (board h) \<and> piece h = Some q \<and>
          getDropPosition q (board h) = Some (Inr (dx, dy)) \<and>
          mergePieceToBoard (q\<lparr>pos_x := dx, pos_y := dy\<rparr>) (board h) = Inr nb'' \<longrightarrow>
            (\<exists>h'. hardDrop_canvas r1 r2 h = Some (Inr h') \<and>
               (level h * LEVEL_THRESHOLD \<le> score h' \<longrightarrow>
                  level h' = level h + 1 \<and> speed h' = max (speed h - SPEED_INCREMENT) 100 \<and>
                  (100 \<le> speed h \<longrightarrow> 100 \<le> speed h' \<and> speed h' \<le> speed h) \<and>
                  (100 < speed h \<longrightarrow> speed h' < speed h) \<and>
                  (100 + SPEED_INCREMENT \<le> speed h \<longrightarrow> speed h' = speed h - SPEED_INCREMENT)) \<and>
               (score h' < level h * LEVEL_THRESHOLD \<longrightarrow> level h' = level h \<and> speed h' = speed h) \<and>
               level h \<le> level h'))
       \<and> (moveDown_dom s1 s2 a = Inr a' \<longrightarrow>
            level a \<le> level a' \<and> (100 \<le> speed a \<longrightarrow> 100 \<le> speed a' \<and> speed a' \<le> speed a))
       \<and> (spawn_dom s1 s2 a = Inr a' \<longrightarrow>
            level a' = level a \<and> speed a' = speed a)
       \<and> (moveSideways d a = Inr a' \<longrightarrow>
            level a' = level a \<and> speed a' = speed a)
       \<and> (rotate_plain a = Inr a' \<longrightarrow>
            level a' = level a \<and> speed a' = speed a)
       \<and> (moveDown_canvas s1 s2 c = Inr c' \<longrightarrow>
            level c \<le> level c' \<and> (100 \<le> speed c \<longrightarrow> 100 \<le> speed c' \<and> speed c' \<le> speed c))
       \<and> (hardDrop_canvas s1 s2 c = Some (Inr c') \<longrightarrow>
            level c \<le> level c' \<and> (100 \<le> speed c \<longrightarrow> 100 \<le> speed c' \<and> speed c' \<le> speed c))
       \<and> (moveSideways d c = Inr c' \<longrightarrow>
            level c' = level c \<and> speed c' = speed c)
       \<and> (rotate_canvas c = Inr c' \<longrightarrow>
            level c' = level c \<and> speed c' = speed c)
       \<and> (storePiece s1 c = Inr c' \<longrightarrow>
            level c' = level c \<and> speed c' = speed c)
       \<and> (spawn_checked s1 s2 c = Inr c' \<longrightarrow>
            level c' = level c \<and> speed c' = speed c)
       \<and> (handleKeyPress_canvas s1 s2 k c = Some (Inr c') \<longrightarrow>
            level c \<le> level c' \<and> (100 \<le> speed c \<longrightarrow> 100 \<le> speed c' \<and> speed c' \<le> speed c))
       \<and> (gameLoop_canvas s1 s2 c = Inr c' \<longrightarrow>
            level c \<le> level c' \<and> (100 \<le> speed c \<longrightarrow> 100 \<le> speed c' \<and> speed c' \<le> speed c))
       \<and> (moveDown_3d s1 s2 t t = Inr t' \<longrightarrow>
            level t \<le> level t' \<and> (100 \<le> speed t \<longrightarrow> 100 \<le> speed t' \<and> speed t' \<le> speed t))
       \<and> (hardDrop_3d s1 s2 t = Some (Inr t') \<longrightarrow>
            level t \<le> level t' \<and> (100 \<le> speed t \<longrightarrow> 100 \<le> speed t' \<and> speed t' \<le> speed t))"
proof (intro conjI)
  show "wf_board (board g) \<and> piece g = Some p \<and>
          isValidMove (p\<lparr>pos_y := pos_y p + 1\<rparr>) (board g) = Inr False \<and>
          mergePieceToBoard_dom p (board g) = Inr nb \<longrightarrow>
            (\<exists>g'. moveDown_dom r1 r2 g = Inr g' \<and>
               (level g * LEVEL_THRESHOLD \<le> score g' \<longrightarrow>
                  level g' = level g + 1 \<and> speed g' = max (speed g - SPEED_INCREMENT) 100 \<and>
                  (100 \<le> speed g \<longrightarrow> 100 \<le> speed g' \<and> speed g' \<le> speed g) \<and>
                  (100 < speed g \<longrightarrow> speed g' < speed g) \<and>
                  (100 + SPEED_INCREMENT \<le> speed g \<longrightarrow> speed g' = speed g - SPEED_INCREMENT)) \<and>
               (score g' < level g * LEVEL_THRESHOLD \<longrightarrow> level g' = level g \<and> speed g' = speed g) \<and>
               level g \<le> level g')"
  proof
    assume a: "wf_board (board g) \<and> piece g = Some p \<and>
          isValidMove (p\<lparr>pos_y := pos_y p + 1\<rparr>) (board g) = Inr False \<and>
          mergePieceToBoard_dom p (board g) = Inr nb"
    then obtain g' where g': "moveDown_dom r1 r2 g = Inr g'"
      "level g' = (if level g * LEVEL_THRESHOLD \<le> score g' then level g + 1 else level g)"
      "speed g' = (if level g * LEVEL_THRESHOLD \<le> score g'
                   then max (speed g - SPEED_INCREMENT) 100 else speed g)"
      using moveDown_dom_lock_level [OF assms, of g p nb] by blast
    show "\<exists>g'. moveDown_dom r1 r2 g = Inr g' \<and>
               (level g * LEVEL_THRESHOLD \<le> score g' \<longrightarrow>
                  level g' = level g + 1 \<and> speed g' = max (speed g - SPEED_INCREMENT) 100 \<and>
                  (100 \<le> speed g \<longrightarrow> 100 \<le> speed g' \<and> speed g' \<le> speed g) \<and>
                  (100 < speed g \<longrightarrow> speed g' < speed g) \<and>
                  (100 + SPEED_INCREMENT \<le> speed g \<longrightarrow> speed g' = speed g - SPEED_INCREMENT)) \<and>
               (score g' < level g * LEVEL_THRESHOLD \<longrightarrow> level g' = level g \<and> speed g' = speed g) \<and>
               level g \<le> level g'"
      using g'(1) level_step [OF g'(2,3)] by (intro exI [of _ g'] conjI) blast+
  qed
next
  show "wf_board (board h) \<and> piece h = Some q \<and>
          isValidMove (q\<lparr>pos_y := pos_y q + 1\<rparr>) (board h) = Inr False \<and>
          mergePieceToBoard q (board h) = Inr nb' \<longrightarrow>
            (\<exists>h'. moveDown_canvas r1 r2 h = Inr h' \<and>
               (level h * LEVEL_THRESHOLD \<le> score h' \<longrightarrow>
                  level h' = level h + 1 \<and> speed h' = max (speed h - SPEED_INCREMENT) 100 \<and>
                  (100 \<le> speed h \<longrightarrow> 100 \<le> speed h' \<and> speed h' \<le> speed h) \<and>
                  (100 < speed h \<longrightarrow> speed h' < speed h) \<and>
                  (100 + SPEED_INCREMENT \<le> speed h \<longrightarrow> speed h' = speed h - SPEED_INCREMENT)) \<and>
               (score h' < level h * LEVEL_THRESHOLD \<longrightarrow> level h' = level h \<and> speed h' = speed h) \<and>
               level h \<le> level h')"
  proof
    assume a: "wf_board (board h) \<and> piece h = Some q \<and>
          isValidMove (q\<lparr>pos_y := pos_y q + 1\<rparr>) (board h) = Inr False \<and>
          mergePieceToBoard q (board h) = Inr nb'"
    then obtain h' where h': "moveDown_canvas r1 r2 h = Inr h'"
      "level h' = (if level h * LEVEL_THRESHOLD \<le> score h' then level h + 1 else level h)"
      "speed h' = (if level h * LEVEL_THRESHOLD \<le> score h'
                   then max (speed h - SPEED_INCREMENT) 100 else speed h)"
      using moveDown_canvas_lock_level [OF assms, of h q nb'] by blast
    show "\<exists>h'. moveDown_canvas r1 r2 h = Inr h' \<and>
               (level h * LEVEL_THRESHOLD \<le> score h' \<longrightarrow>
                  level h' = level h + 1 \<and> speed h' = max (speed h - SPEED_INCREMENT) 100 \<and>
                  (100 \<le> speed h \<longrightarrow> 100 \<le> speed h' \<and> speed h' \<le> speed h) \<and>
                  (100 < speed h \<longrightarrow> speed h' < speed h) \<and>
                  (100 + SPEED_INCREMENT \<le> speed h \<longrightarrow> speed h' = speed h - SPEED_INCREMENT)) \<and>
               (score h' < level h * LEVEL_THRESHOLD \<longrightarrow> level h' = level h \<and> speed h' = speed h) \<and>
               level h \<le> level h'"
      using h'(1) level_step [OF h'(2,3)] by (intro exI [of _ h'] conjI) blast+
  qed
next
  show "wf_board (board h) \<and> piece h = Some q \<and>
          getDropPosition q (board h) = Some (Inr (dx, dy)) \<and>
          mergePieceToBoard (q\<lparr>pos_x := dx, pos_y := dy\<rparr>) (board h) = Inr nb'' \<longrightarrow>
            (\<exists>h'. hardDrop_canvas r1 r2 h = Some (Inr h') \<and>
               (level h * LEVEL_THRESHOLD \<le> score h' \<longrightarrow>
                  level h' = level h + 1 \<and> speed h' = max (speed h - SPEED_INCREMENT) 100 \<and>
                  (100 \<le> speed h \<longrightarrow> 100 \<le> speed h' \<and> speed h' \<le> speed h) \<and>
                  (100 < speed h \<longrightarrow> speed h' < speed h) \<and>
                  (100 + SPEED_INCREMENT \<le> speed h \<longrightarrow> speed h' = speed h - SPEED_INCREMENT)) \<and>
               (score h' < level h * LEVEL_THRESHOLD \<longrightarrow> level h' = level h \<and> speed h' = speed h) \<and>
               level h \<le> level h')"
  proof
    assume a: "wf_board (board h) \<and> piece h = Some q \<and>
          getDropPosition q (board h) = Some (Inr (dx, dy)) \<and>
          mergePieceToBoard (q\<lparr>pos_x := dx, pos_y := dy\<rparr>) (board h) = Inr nb''"
    then obtain h' where h': "hardDrop_canvas r1 r2 h = Some (Inr h')"
      "level h' = (if level h * LEVEL_THRESHOLD \<le> score h' then level h + 1 else level h)"
      "speed h' = (if level h * LEVEL_THRESHOLD \<le> score h'
                   then max (speed h - SPEED_INCREMENT) 100 else speed h)"
      using hardDrop_canvas_lock_level [OF assms, of h q dx dy nb''] by blast
    show "\<exists>h'. hardDrop_canvas r1 r2 h = Some (Inr h') \<and>
               (level h * LEVEL_THRESHOLD \<le> score h' \<longrightarrow>
                  level h' = level h + 1 \<and> speed h' = max (speed h - SPEED_INCREMENT) 100 \<and>
                  (100 \<le> speed h \<longrightarrow> 100 \<le> speed h' \<and> speed h' \<le> speed h) \<and>
                  (100 < speed h \<longrightarrow> speed h' < speed h) \<and>
                  (100 + SPEED_INCREMENT \<le> speed h \<longrightarrow> speed h' = speed h - SPEED_INCREMENT)) \<and>
               (score h' < level h * LEVEL_THRESHOLD \<longrightarrow> level h' = level h \<and> speed h' = speed h) \<and>
               level h \<le> level h'"
      using h'(1) level_step [OF h'(2,3)] by (intro exI [of _ h'] conjI) blast+
  qed
next
  show "moveDown_dom s1 s2 a = Inr a' \<longrightarrow>
            level a \<le> level a' \<and> (100 \<le> speed a \<longrightarrow> 100 \<le> speed a' \<and> speed a' \<le> speed a)"
    by (intro impI) (rule moveDown_dom_levels)
next
  show "spawn_dom s1 s2 a = Inr a' \<longrightarrow>
            level a' = level a \<and> speed a' = speed a"
    by (intro impI) (rule spawn_dom_levels)
next
  show "moveSideways d a = Inr a' \<longrightarrow>
            level a' = level a \<and> speed a' = speed a"
    by (intro impI) (rule moveSideways_levels)
next
  show "rotate_plain a = Inr a' \<longrightarrow>
            level a' = level a \<and> speed a' = speed a"
    by (intro impI) (rule rotate_plain_levels)
next
  show "moveDown_canvas s1 s2 c = Inr c' \<longrightarrow>
            level c \<le> level c' \<and> (100 \<le> speed c \<longrightarrow> 100 \<le> speed c' \<and> speed c' \<le> speed c)"
    by (intro impI) (rule moveDown_canvas_levels)
next
  show "hardDrop_canvas s1 s2 c = Some (Inr c') \<longrightarrow>
            level c \<le> level c' \<and> (100 \<le> speed c \<longrightarrow> 100 \<le> speed c' \<and> speed c' \<le> speed c)"
    by (intro impI) (rule hardDrop_canvas_levels)
next
  show "moveSideways d c = Inr c' \<longrightarrow>
            level c' = level c \<and> speed c' = speed c"
    by (intro impI) (rule moveSideways_levels)
next
  show "rotate_canvas c = Inr c' \<longrightarrow>
            level c' = level c \<and> speed c' = speed c"
    by (intro impI) (rule rotate_canvas_levels)
next
  show "storePiece s1 c = Inr c' \<longrightarrow>
            level c' = level c \<and> speed c' = speed c"
    by (intro impI) (rule storePiece_levels)
next
  show "spawn_checked s1 s2 c = Inr c' \<longrightarrow>
            level c' = level c \<and> speed c' = speed c"
    by (intro impI) (rule spawn_checked_levels)
next
  show "handleKeyPress_canvas s1 s2 k c = Some (Inr c') \<longrightarrow>
            level c \<le> level c' \<and> (100 \<le> speed c \<longrightarrow> 100 \<le> speed c' \<and> speed c' \<le> speed c)"
    by (intro impI) (rule handleKeyPress_canvas_levels)
next
  show "gameLoop_canvas s1 s2 c = Inr c' \<longrightarrow>
            level c \<le> level c' \<and> (100 \<le> speed c \<longrightarrow> 100 \<le> speed c' \<and> speed c' \<le> speed c)"
    by (intro impI) (rule gameLoop_canvas_levels)
next
  show "moveDown_3d s1 s2 t t = Inr t' \<longrightarrow>
            level t \<le> level t' \<and> (100 \<le> speed t \<longrightarrow> 100 \<le> speed t' \<and> speed t' \<le> speed t)"
    by (intro impI) (rule moveDown_3d_levels)
next
  show "hardDrop_3d s1 s2 t = Some (Inr t') \<longrightarrow>
            level t \<le> level t' \<and> (100 \<le> speed t \<longrightarrow> 100 \<le> speed t' \<and> speed t' \<le> speed t)"
    by (intro impI) (rule hardDrop_3d_levels)
qed

theorem level_and_interval_on_lock_witness:
  "(0::nat) < 7 \<and>
   wf_board (board crossing_state) \<and> piece crossing_state = Some (I_dom 19) \<and>
   isValidMove ((I_dom 19)\<lparr>pos_y := pos_y (I_dom 19) + 1\<rparr>) (board crossing_state) = Inr False \<and>
   mergePieceToBoard_dom (I_dom 19) (board crossing_state)
     = Inr (replicate 19 (replicate 10 0) @ [[0, 0, 0, 1, 1, 1, 1, 0, 0, 0]]) \<and>
   (\<exists>g'. moveDown_dom 0 0 crossing_state = Inr g' \<and> score g' = 1000 \<and> level g' = 2 \<and>
      speed g' = 450) \<and>
   wf_board (board crossing_canvas) \<and> piece crossing_canvas = Some (I_canvas 19) \<and>
   isValidMove ((I_canvas 19)\<lparr>pos_y := pos_y (I_canvas 19) + 1\<rparr>) (board crossing_canvas)
     = Inr False \<and>
   mergePieceToBoard (I_canvas 19) (board crossing_canvas)
     = Inr (replicate 19 (replicate 10 0) @ [[0, 0, 0, 1, 1, 1, 1, 0, 0, 0]]) \<and>
   (\<exists>h'. moveDown_canvas 0 0 crossing_canvas = Inr h' \<and> score h' = 1000 \<and> level h' = 2 \<and>
      speed h' = 450) \<and>
   wf_board (board crossing_drop) \<and> piece crossing_drop = Some (I_canvas 0) \<and>
   getDropPosition (I_canvas 0) (board crossing_drop) = Some (Inr (3, 19)) \<and>
   mergePieceToBoard ((I_canvas 0)\<lparr>pos_x := 3, pos_y := 19\<rparr>) (board crossing_drop)
     = Inr (replicate 19 (replicate 10 0) @ [[0, 0, 0, 1, 1, 1, 1, 0, 0, 0]]) \<and>
   (\<exists>h'. hardDrop_canvas 0 0 crossing_drop = Some (Inr h') \<and> score h' = 1009 \<and> level h' = 2 \<and>
      speed h' = 450) \<and>
   (\<exists>x. moveDown_dom 0 0 crossing_state = Inr x \<and>
      level crossing_state \<le> level x \<and> 100 \<le> speed x \<and> speed x \<le> speed crossing_state) \<and>
   (\<exists>x. spawn_dom 0 0 (initial_game :: int game) = Inr x \<and>
      level x = level (initial_game :: int game) \<and> speed x = speed (initial_game :: int game)) \<and>
   (\<exists>x. moveSideways Left crossing_state = Inr x \<and>
      level x = level crossing_state \<and> speed x = speed crossing_state) \<and>
   (\<exists>x. rotate_plain crossing_state = Inr x \<and>
      level x = level crossing_state \<and> speed x = speed crossing_state) \<and>
   (\<exists>x. moveDown_canvas 0 0 crossing_drop = Inr x \<and>
      level crossing_drop \<le> level x \<and> 100 \<le> speed x \<and> speed x \<le> speed crossing_drop) \<and>
   (\<exists>x. hardDrop_canvas 0 0 crossing_canvas = Some (Inr x) \<and>
      level crossing_canvas \<le> level x \<and> 100 \<le> speed x \<and> speed x \<le> speed crossing_canvas) \<and>
   (\<exists>x. moveSideways Right crossing_drop = Inr x \<and>
      level x = level crossing_drop \<and> speed x = speed crossing_drop) \<and>
   (\<exists>x. rotate_canvas crossing_drop = Inr x \<and>
      level x = level crossing_drop \<and> speed x = speed crossing_drop) \<and>
   (\<exists>x. storePiece 0 crossing_drop = Inr x \<and>
      level x = level crossing_drop \<and> speed x = speed crossing_drop) \<and>
   (\<exists>x. spawn_checked 0 0 (initial_hold_game 0 :: string hold_game) = Inr x \<and>
      level x = level (initial_hold_game 0 :: string hold_game) \<and> speed x = speed (initial_hold_game 0 :: string hold_game)) \<and>
   (\<exists>x. handleKeyPress_canvas 0 0 ArrowUp crossing_drop = Some (Inr x) \<and>
      level crossing_drop \<le> level x \<and> 100 \<le> speed x \<and> speed x \<le> speed crossing_drop) \<and>
   (\<exists>x. gameLoop_canvas 0 0 crossing_canvas = Inr x \<and>
      level crossing_canvas \<le> level x \<and> 100 \<le> speed x \<and> speed x \<le> speed crossing_canvas) \<and>
   (\<exists>x. moveDown_3d 0 0 state_3d state_3d = Inr x \<and>
      level state_3d \<le> level x \<and> 100 \<le> speed x \<and> speed x \<le> speed state_3d) \<and>
   (\<exists>x. hardDrop_3d 0 0 state_3d = Some (Inr x) \<and>
      level state_3d \<le> level x \<and> 100 \<le> speed x \<and> speed x \<le> speed state_3d)"
proof -
  let ?nb = "replicate 19 (replicate 10 0) @ [[0, 0, 0, 1, 1, 1, 1, 0, 0, 0::int]]"
  have r: "(0::nat) < 7" by simp
  have d1: "wf_board (board crossing_state)" by code_simp
  have d2: "piece crossing_state = Some (I_dom 19)" by (simp add: crossing_state_def)
  have d3: "isValidMove ((I_dom 19)\<lparr>pos_y := pos_y (I_dom 19) + 1\<rparr>) (board crossing_state)
      = Inr False" by code_simp
  have d4: "mergePieceToBoard_dom (I_dom 19) (board crossing_state) = Inr ?nb" by code_simp
  have c1: "wf_board (board crossing_canvas)" by code_simp
  have c2: "piece crossing_canvas = Some (I_canvas 19)" by (simp add: crossing_canvas_def)
  have c3: "isValidMove ((I_canvas 19)\<lparr>pos_y := pos_y (I_canvas 19) + 1\<rparr>)
      (board crossing_canvas) = Inr False" by code_simp
  have c4: "mergePieceToBoard (I_canvas 19) (board crossing_canvas) = Inr ?nb" by code_simp
  have h1: "wf_board (board crossing_drop)" by code_simp
  have h2: "piece crossing_drop = Some (I_canvas 0)" by (simp add: crossing_drop_def)
  have h3: "getDropPosition (I_canvas 0) (board crossing_drop) = Some (Inr (3, 19))"
    by code_simp
  have h4: "mergePieceToBoard ((I_canvas 0)\<lparr>pos_x := 3, pos_y := 19\<rparr>) (board crossing_drop)
      = Inr ?nb" by code_simp
  note t = level_and_interval_on_lock [OF r r]
  have sd: "score (projr (moveDown_dom 0 0 crossing_state)) = 1000" by code_simp
  have sc: "score (projr (moveDown_canvas 0 0 crossing_canvas)) = 1000" by code_simp
  have sh: "score (projr (the (hardDrop_canvas 0 0 crossing_drop))) = 1009" by code_simp
  have v: "level crossing_state = 1" "speed crossing_state = 500"
    "level crossing_canvas = 1" "speed crossing_canvas = 500"
    "level crossing_drop = 1" "speed crossing_drop = 500"
    "level state_3d = 1" "speed state_3d = 500"
    "level (initial_game :: int game) = 1" "speed (initial_game :: int game) = 500"
    "level (initial_hold_game 0 :: string hold_game) = 1"
    "speed (initial_hold_game 0 :: string hold_game) = 500"
    by (simp_all add: crossing_state_def crossing_canvas_def crossing_drop_def state_3d_def
        initial_game_def initial_hold_game_def INITIAL_SPEED_def)
  have e1: "\<exists>g'. moveDown_dom 0 0 crossing_state = Inr g' \<and> score g' = 1000 \<and> level g' = 2 \<and>
      speed g' = 450"
    using t [where g = crossing_state and p = "I_dom 19" and nb = ?nb, THEN conjunct1] d1 d2 d3 d4 sd
    by (auto simp: v LEVEL_THRESHOLD_def SPEED_INCREMENT_def)
  have e2: "\<exists>h'. moveDown_canvas 0 0 crossing_canvas = Inr h' \<and> score h' = 1000 \<and> level h' = 2 \<and>
      speed h' = 450"
    using t [where h = crossing_canvas and q = "I_canvas 19" and nb' = ?nb,
        THEN conjunct2, THEN conjunct1] c1 c2 c3 c4 sc
    by (auto simp: v LEVEL_THRESHOLD_def SPEED_INCREMENT_def)
  have e3: "\<exists>h'. hardDrop_canvas 0 0 crossing_drop = Some (Inr h') \<and> score h' = 1009 \<and>
      level h' = 2 \<and> speed h' = 450"
    using t [where h = crossing_drop and q = "I_canvas 0" and dx = 3 and dy = 19
        and nb'' = ?nb, THEN conjunct2, THEN conjunct2, THEN conjunct1] h1 h2 h3 h4 sh
    by (auto simp: v LEVEL_THRESHOLD_def SPEED_INCREMENT_def)
  let ?x4 = "projr (moveDown_dom 0 0 crossing_state)"
  have x4: "moveDown_dom 0 0 crossing_state = Inr ?x4"
    by code_simp
  have y4: "level crossing_state \<le> level ?x4 \<and> 100 \<le> speed ?x4 \<and> speed ?x4 \<le> speed crossing_state"
    using t [where a = "crossing_state" and a' = ?x4
        and ?s1.0 = 0 and ?s2.0 = 0,
        THEN conjunct2, THEN conjunct2, THEN conjunct2, THEN conjunct1] x4
    by (simp add: v)
  have z4: "\<exists>x. moveDown_dom 0 0 crossing_state = Inr x \<and>
      level crossing_state \<le> level x \<and> 100 \<le> speed x \<and> speed x \<le> speed crossing_state"
    using x4 y4 by blast
  let ?x5 = "projr (spawn_dom 0 0 (initial_game :: int game))"
  have x5: "spawn_dom 0 0 (initial_game :: int game) = Inr ?x5"
    by code_simp
  have y5: "level ?x5 = level (initial_game :: int game) \<and> speed ?x5 = speed (initial_game :: int game)"
    using t [where a = "initial_game :: int game" and a' = ?x5
        and ?s1.0 = 0 and ?s2.0 = 0,
        THEN conjunct2, THEN conjunct2, THEN conjunct2, THEN conjunct2, THEN conjunct1] x5
    by (simp add: v)
  have z5: "\<exists>x. spawn_dom 0 0 (initial_game :: int game) = Inr x \<and>
      level x = level (initial_game :: int game) \<and> speed x = speed (initial_game :: int game)"
    using x5 y5 by blast
  let ?x6 = "projr (moveSideways Left crossing_state)"
  have x6: "moveSideways Left crossing_state = Inr ?x6"
    by code_simp
  have y6: "level ?x6 = level crossing_state \<and> speed ?x6 = speed crossing_state"
    using t [where a = "crossing_state" and a' = ?x6
        and d = Left,
        THEN conjunct2, THEN conjunct2, THEN conjunct2, THEN conjunct2, THEN conjunct2,
        THEN conjunct1] x6
    by (simp add: v)
  have z6: "\<exists>x. moveSideways Left crossing_state = Inr x \<and>
      level x = level crossing_state \<and> speed x = speed crossing_state"
    using x6 y6 by blast
  let ?x7 = "projr (rotate_plain crossing_state)"
  have x7: "rotate_plain crossing_state = Inr ?x7"
    by code_simp
  have y7: "level ?x7 = level crossing_state \<and> speed ?x7 = speed crossing_state"
    using t [where a = "crossing_state" and a' = ?x7,
        THEN conjunct2, THEN conjunct2, THEN conjunct2, THEN conjunct2, THEN conjunct2,
        THEN conjunct2, THEN conjunct1] x7
    by (simp add: v)
  have z7: "\<exists>x. rotate_plain crossing_state = Inr x \<and>
      level x = level crossing_state \<and> speed x = speed crossing_state"
    using x7 y7 by blast
  let ?x8 = "projr (moveDown_canvas 0 0 crossing_drop)"
  have x8: "moveDown_canvas 0 0 crossing_drop = Inr ?x8"
    by code_simp
  have y8: "level crossing_drop \<le> level ?x8 \<and> 100 \<le> speed ?x8 \<and> speed ?x8 \<le> speed crossing_drop"
    using t [where c = "crossing_drop" and c' = ?x8
        and ?s1.0 = 0 and ?s2.0 = 0,
        THEN conjunct2, THEN conjunct2, THEN conjunct2, THEN conjunct2, THEN conjunct2,
        THEN conjunct2, THEN conjunct2, THEN conjunct1] x8
    by (simp add: v)
  have z8: "\<exists>x. moveDown_canvas 0 0 crossing_drop = Inr x \<and>
      level crossing_drop \<le> level x \<and> 100 \<le> speed x \<and> speed x \<le> speed crossing_drop"
    using x8 y8 by blast
  let ?x9 = "projr (the (hardDrop_canvas 0 0 crossing_canvas))"
  have x9: "hardDrop_canvas 0 0 crossing_canvas = Some (Inr ?x9)"
    by code_simp
  have y9: "level crossing_canvas \<le> level ?x9 \<and> 100 \<le> speed ?x9 \<and> speed ?x9 \<le> speed crossing_canvas"
    using t [where c = "crossing_canvas" and c' = ?x9
        and ?s1.0 = 0 and ?s2.0 = 0,
        THEN conjunct2, THEN conjunct2, THEN conjunct2, THEN conjunct2, THEN conjunct2,
        THEN conjunct2, THEN conjunct2, THEN conjunct2, THEN conjunct1] x9
    by (simp add: v)
  have z9: "\<exists>x. hardDrop_canvas 0 0 crossing_canvas = Some (Inr x) \<and>
      level crossing_canvas \<le> level x \<and> 100 \<le> speed x \<and> speed x \<le> speed crossing_canvas"
    using x9 y9 by blast
  let ?x10 = "projr (moveSideways Right crossing_drop)"
  have x10: "moveSideways Right crossing_drop = Inr ?x10"
    by code_simp
  have y10: "level ?x10 = level crossing_drop \<and> speed ?x10 = speed crossing_drop"
    using t [where c = "crossing_drop" and c' = ?x10
        and d = Right,
        THEN conjunct2, THEN conjunct2, THEN conjunct2, THEN conjunct2, THEN conjunct2,
        THEN conjunct2, THEN conjunct2, THEN conjunct2, THEN conjunct2, THEN conjunct1] x10
    by (simp add: v)
  have z10: "\<exists>x. moveSideways Right crossing_drop = Inr x \<and>
      level x = level crossing_drop \<and> speed x = speed crossing_drop"
    using x10 y10 by blast
  let ?x11 = "projr (rotate_canvas crossing_drop)"
  have x11: "rotate_canvas crossing_drop = Inr ?x11"
    by code_simp
  have y11: "level ?x11 = level crossing_drop \<and> speed ?x11 = speed crossing_drop"
    using t [where c = "crossing_drop" and c' = ?x11,
        THEN conjunct2, THEN conjunct2, THEN conjunct2, THEN conjunct2, THEN conjunct2,
        THEN conjunct2, THEN conjunct2, THEN conjunct2, THEN conjunct2, THEN conjunct2,
        THEN conjunct1] x11
    by (simp add: v)
  have z11: "\<exists>x. rotate_canvas crossing_drop = Inr x \<and>
      level x = level crossing_drop \<and> speed x = speed crossing_drop"
    using x11 y11 by blast
  let ?x12 = "projr (storePiece 0 crossing_drop)"
  have x12: "storePiece 0 crossing_drop = Inr ?x12"
    by code_simp
  have y12: "level ?x12 = level crossing_drop \<and> speed ?x12 = speed crossing_drop"
    using t [where c = "crossing_drop" and c' = ?x12
        and ?s1.0 = 0,
        THEN conjunct2, THEN conjunct2, THEN conjunct2, THEN conjunct2, THEN conjunct2,
        THEN conjunct2, THEN conjunct2, THEN conjunct2, THEN conjunct2, THEN conjunct2,
        THEN conjunct2, THEN conjunct1] x12
    by (simp add: v)
  have z12: "\<exists>x. storePiece 0 crossing_drop = Inr x \<and>
      level x = level crossing_drop \<and> speed x = speed crossing_drop"
    using x12 y12 by blast
  let ?x13 = "projr (spawn_checked 0 0 (initial_hold_game 0 :: string hold_game))"
  have x13: "spawn_checked 0 0 (initial_hold_game 0 :: string hold_game) = Inr ?x13"
    by code_simp
  have y13: "level ?x13 = level (initial_hold_game 0 :: string hold_game) \<and> speed ?x13 = speed (initial_hold_game 0 :: string hold_game)"
    using t [where c = "initial_hold_game 0 :: string hold_game" and c' = ?x13
        and ?s1.0 = 0 and ?s2.0 = 0,
        THEN conjunct2, THEN conjunct2, THEN conjunct2, THEN conjunct2, THEN conjunct2,
        THEN conjunct2, THEN conjunct2, THEN conjunct2, THEN conjunct2, THEN conjunct2,
        THEN conjunct2, THEN conjunct2, THEN conjunct1] x13
    by (simp add: v)
  have z13: "\<exists>x. spawn_checked 0 0 (initial_hold_game 0 :: string hold_game) = Inr x \<and>
      level x = level (initial_hold_game 0 :: string hold_game) \<and> speed x = speed (initial_hold_game 0 :: string hold_game)"
    using x13 y13 by blast
  let ?x14 = "projr (the (handleKeyPress_canvas 0 0 ArrowUp crossing_drop))"
  have x14: "handleKeyPress_canvas 0 0 ArrowUp crossing_drop = Some (Inr ?x14)"
    by code_simp
  have y14: "level crossing_drop \<le> level ?x14 \<and> 100 \<le> speed ?x14 \<and> speed ?x14 \<le> speed crossing_drop"
    using t [where c = "crossing_drop" and c' = ?x14
        and ?s1.0 = 0 and ?s2.0 = 0 and k = ArrowUp,
        THEN conjunct2, THEN conjunct2, THEN conjunct2, THEN conjunct2, THEN conjunct2,
        THEN conjunct2, THEN conjunct2, THEN conjunct2, THEN conjunct2, THEN conjunct2,
        THEN conjunct2, THEN conjunct2, THEN conjunct2, THEN conjunct1] x14
    by (simp add: v)
  have z14: "\<exists>x. handleKeyPress_canvas 0 0 ArrowUp crossing_drop = Some (Inr x) \<and>
      level crossing_drop \<le> level x \<and> 100 \<le> speed x \<and> speed x \<le> speed crossing_drop"
    using x14 y14 by blast
  let ?x15 = "projr (gameLoop_canvas 0 0 crossing_canvas)"
  have x15: "gameLoop_canvas 0 0 crossing_canvas = Inr ?x15"
    by code_simp
  have y15: "level crossing_canvas \<le> level ?x15 \<and> 100 \<le> speed ?x15 \<and> speed ?x15 \<le> speed crossing_canvas"
    using t [where c = "crossing_canvas" and c' = ?x15
        and ?s1.0 = 0 and ?s2.0 = 0,
        THEN conjunct2, THEN conjunct2, THEN conjunct2, THEN conjunct2, THEN conjunct2,
        THEN conjunct2, THEN conjunct2, THEN conjunct2, THEN conjunct2, THEN conjunct2,
        THEN conjunct2, THEN conjunct2, THEN conjunct2, THEN conjunct2, THEN conjunct1] x15
    by (simp add: v)
  have z15: "\<exists>x. gameLoop_canvas 0 0 crossing_canvas = Inr x \<and>
      level crossing_canvas \<le> level x \<and> 100 \<le> speed x \<and> speed x \<le> speed crossing_canvas"
    using x15 y15 by blast
  let ?x16 = "projr (moveDown_3d 0 0 state_3d state_3d)"
  have x16: "moveDown_3d 0 0 state_3d state_3d = Inr ?x16"
    by code_simp
  have y16: "level state_3d \<le> level ?x16 \<and> 100 \<le> speed ?x16 \<and> speed ?x16 \<le> speed state_3d"
    using t [where t = "state_3d" and t' = ?x16
        and ?s1.0 = 0 and ?s2.0 = 0,
        THEN conjunct2, THEN conjunct2, THEN conjunct2, THEN conjunct2, THEN conjunct2,
        THEN conjunct2, THEN conjunct2, THEN conjunct2, THEN conjunct2, THEN conjunct2,
        THEN conjunct2, THEN conjunct2, THEN conjunct2, THEN conjunct2, THEN conjunct2,
        THEN conjunct1] x16
    by (simp add: v)
  have z16: "\<exists>x. moveDown_3d 0 0 state_3d state_3d = Inr x \<and>
      level state_3d \<le> level x \<and> 100 \<le> speed x \<and> speed x \<le> speed state_3d"
    using x16 y16 by blast
  let ?x17 = "projr (the (hardDrop_3d 0 0 state_3d))"
  have x17: "hardDrop_3d 0 0 state_3d = Some (Inr ?x17)"
    by code_simp
  have y17: "level state_3d \<le> level ?x17 \<and> 100 \<le> speed ?x17 \<and> speed ?x17 \<le> speed state_3d"
    using t [where t = "state_3d" and t' = ?x17
        and ?s1.0 = 0 and ?s2.0 = 0,
        THEN conjunct2, THEN conjunct2, THEN conjunct2, THEN conjunct2, THEN conjunct2,
        THEN conjunct2, THEN conjunct2, THEN conjunct2, THEN conjunct2, THEN conjunct2,
        THEN conjunct2, THEN conjunct2, THEN conjunct2, THEN conjunct2, THEN conjunct2,
        THEN conjunct2] x17
    by (simp add: v)
  have z17: "\<exists>x. hardDrop_3d 0 0 state_3d = Some (Inr x) \<and>
      level state_3d \<le> level x \<and> 100 \<le> speed x \<and> speed x \<le> speed state_3d"
    using x17 y17 by blast
  show ?thesis
    using r d1 d2 d3 d4 e1 c1 c2 c3 c4 e2 h1 h2 h3 h4 e3
      z4 z5 z6 z7 z8 z9 z10 z11 z12 z13 z14 z15 z16 z17
    by (intro conjI)
qed

text \<open>
  Claim C5 as stated fails at the floor: at level 9 the interval is 100; the lock below
  brings the score to 9000, the level becomes 10, and the interval is 100 again, neither
  smaller than before nor smaller by \<open>SPEED_INCREMENT\<close>.
\<close>

theorem interval_floor_counterexample:
  "moveDown_dom 0 0 floor_state =
     Inr \<lparr>board = replicate 19 (replicate 10 0) @ [[0, 0, 0, 1, 1, 1, 1, 0, 0, 0]],
          piece = Some (I_dom 0), nextPiece = Some (I_dom 0), score = 9000, level = 10,
          gameOver = False, speed = 100\<rparr>
   \<and> level floor_state * LEVEL_THRESHOLD \<le> 9000
   \<and> speed floor_state = 100"
  by code_simp

section \<open>The lock sequence: the end of the game\<close>

text \<open>
  In the second component of \<open>tetris-2d.tsx\<close> the flag is set exactly when the piece that
  is to become active is not valid on the cleared board, and a game that is over ignores
  the keys and the interval.
\<close>

lemma advance_canvas_gameOver:
  assumes "advance_canvas r1 r2 nxt cb h = Inr h'" and "\<not> gameOver h"
  shows "gameOver h' \<longleftrightarrow>
           (\<exists>q. (nxt = Some q \<or> nxt = None \<and> createNewPiece r1 = Inr q) \<and>
                isValidMove q cb = Inr False)"
  using assms
  by (auto simp: advance_canvas_def split: option.splits sum.splits if_splits)

lemma moveDown_canvas_gameOver:
  assumes "moveDown_canvas r1 r2 h = Inr h'" and "\<not> gameOver h"
  shows "gameOver h' \<longleftrightarrow>
           (\<exists>p nb q. piece h = Some p \<and>
              isValidMove (p\<lparr>pos_y := pos_y p + 1\<rparr>) (board h) = Inr False \<and>
              mergePieceToBoard p (board h) = Inr nb \<and>
              (nextPiece h = Some q \<or> nextPiece h = None \<and> createNewPiece r1 = Inr q) \<and>
              isValidMove q (fst (clearLines nb)) = Inr False)"
proof (cases "piece h")
  case None
  with assms show ?thesis by (simp add: moveDown_canvas_def)
next
  case (Some p)
  show ?thesis
  proof (cases "isValidMove (p\<lparr>pos_y := pos_y p + 1\<rparr>) (board h) = Inr False")
    case False
    with assms Some show ?thesis
      by (auto simp: moveDown_canvas_def split: sum.splits if_splits)
  next
    case True
    with assms(1) Some obtain nb where nb: "mergePieceToBoard p (board h) = Inr nb"
      and l: "lock_canvas r1 r2 0 nb h = Inr h'"
      by (auto simp: moveDown_canvas_def split: sum.splits)
    obtain cb k where ck: "clearLines nb = (cb, k)"
      by (cases "clearLines nb")
    from l ck obtain h0 where "advance_canvas r1 r2 (nextPiece h) cb h0 = Inr h'"
      and "gameOver h0 = gameOver h"
      by (auto simp: lock_canvas_def Let_def)
    from advance_canvas_gameOver [OF this(1)] this(2) assms(2) Some True nb ck
    show ?thesis by auto
  qed
qed

lemma canvas_ignores_after_gameOver:
  assumes "gameOver h"
  shows "handleKeyPress_canvas r1 r2 k h = Some (Inr h)" and "gameLoop_canvas r1 r2 h = Inr h"
  using assms by (simp_all add: handleKeyPress_canvas_def gameLoop_canvas_def)

text \<open>
  Claim C4 fails in the first component of \<open>tetris-2d.tsx\<close>: lines 134-136 make the next
  piece the active piece without \<open>isValidMove\<close>. On the tower the locked I piece fills
  columns 3 to 6 of row 0, where the next I piece is to appear: that piece is not valid on
  the new board, and \<open>moveDown\<close> installs it and leaves \<open>gameOver\<close> false. The second
  component, on the same board, sets \<open>gameOver\<close> and keeps the piece.
\<close>

theorem next_piece_promoted_unchecked:
  "moveDown_dom 0 0 tower_dom =
     Inr \<lparr>board = replicate 20 tower_row, piece = Some (I_dom 0), nextPiece = Some (I_dom 0),
          score = 200, level = 1, gameOver = False, speed = 500\<rparr>
   \<and> isValidMove (I_dom 0) (replicate 20 tower_row) = Inr False
   \<and> moveDown_canvas 0 0 tower_canvas =
     Inr \<lparr>board = replicate 20 tower_row, piece = Some (I_canvas 0),
          nextPiece = Some (I_canvas 0), score = 200, level = 1, gameOver = True, speed = 500,
          storedPiece = None, canStore = True, highScore = 200\<rparr>"
  by code_simp

section \<open>Hold\<close>

text \<open>
  Claim C10. When \<open>canStore\<close> is true, a piece is held, and the held piece is not valid at
  its spawn position on the board, \<open>storePiece\<close> changes nothing but \<open>canStore\<close>, which
  becomes false: the active piece, the held piece, the board and the score stay.
\<close>

theorem storePiece_rejected_swap:
  assumes "canStore h" and "piece h = Some p" and "storedPiece h = Some sp"
    and "spawn_x (shape sp) = Inr x0"
    and "isValidMove (sp\<lparr>pos_x := x0, pos_y := 0\<rparr>) (board h) = Inr False"
  shows "storePiece r h = Inr (h\<lparr>canStore := False\<rparr>)
         \<and> piece (h\<lparr>canStore := False\<rparr>) = piece h
         \<and> storedPiece (h\<lparr>canStore := False\<rparr>) = storedPiece h
         \<and> board (h\<lparr>canStore := False\<rparr>) = board h
         \<and> score (h\<lparr>canStore := False\<rparr>) = score h
         \<and> \<not> canStore (h\<lparr>canStore := False\<rparr>)"
  using assms by (simp add: storePiece_def)

theorem storePiece_rejected_swap_witness:
  "canStore held_blocked \<and> piece held_blocked = Some (I_canvas 0) \<and>
   storedPiece held_blocked = Some O_canvas \<and> spawn_x (shape O_canvas) = Inr 4 \<and>
   isValidMove (O_canvas\<lparr>pos_x := 4, pos_y := 0\<rparr>) (board held_blocked) = Inr False \<and>
   storePiece 2 held_blocked = Inr (held_blocked\<lparr>canStore := False\<rparr>)"
proof -
  have a: "canStore held_blocked" "piece held_blocked = Some (I_canvas 0)"
    "storedPiece held_blocked = Some O_canvas"
    by (simp_all add: held_blocked_def tower_canvas_def)
  have b: "spawn_x (shape O_canvas) = Inr 4" by code_simp
  have c: "isValidMove (O_canvas\<lparr>pos_x := 4, pos_y := 0\<rparr>) (board held_blocked) = Inr False"
    by code_simp
  show ?thesis
    using storePiece_rejected_swap [OF a b c, of 2] a b c by simp
qed

lemma advance_canvas_canStore:
  assumes "advance_canvas r1 r2 nxt cb h = Inr h'" and "\<not> canStore h"
  shows "canStore h' \<longleftrightarrow>
           (\<exists>q. piece h' = Some q \<and> isValidMove q cb = Inr True \<and>
                (nxt = Some q \<or> nxt = None \<and> createNewPiece r1 = Inr q))"
  using assms
  by (auto simp: advance_canvas_def split: option.splits sum.splits if_splits)

lemma lock_canvas_canStore:
  assumes "lock_canvas r1 r2 bonus nb h = Inr h'" and "\<not> canStore h"
  shows "canStore h' \<longleftrightarrow>
           (\<exists>q. piece h' = Some q \<and> isValidMove q (fst (clearLines nb)) = Inr True \<and>
                (nextPiece h = Some q \<or> nextPiece h = None \<and> createNewPiece r1 = Inr q))"
proof -
  obtain cb k where ck: "clearLines nb = (cb, k)"
    by (cases "clearLines nb")
  from assms(1) ck obtain h0 where "advance_canvas r1 r2 (nextPiece h) cb h0 = Inr h'"
    and "canStore h0 = canStore h"
    by (auto simp: lock_canvas_def Let_def)
  from advance_canvas_canStore [OF this(1)] this(2) assms(2) ck
  show ?thesis by simp
qed

lemma storePiece_clears:
  "piece h \<noteq> None \<Longrightarrow> storePiece r h = Inr h' \<Longrightarrow> \<not> canStore h'"
  by (auto simp: storePiece_def split: option.splits sum.splits if_splits)

lemma moveSideways_canStore: "moveSideways d h = Inr h' \<Longrightarrow> canStore h' = canStore h"
  by (auto simp: moveSideways_def split: option.splits sum.splits if_splits)

lemma rotate_canvas_canStore: "rotate_canvas h = Inr h' \<Longrightarrow> canStore h' = canStore h"
  by (auto simp: rotate_canvas_def split: option.splits sum.splits if_splits)

lemma moveDown_canvas_canStore:
  assumes "moveDown_canvas r1 r2 h = Inr h'" and "\<not> canStore h"
  shows "canStore h' \<longleftrightarrow>
           (\<exists>p nb q. piece h = Some p \<and>
              isValidMove (p\<lparr>pos_y := pos_y p + 1\<rparr>) (board h) = Inr False \<and>
              mergePieceToBoard p (board h) = Inr nb \<and>
              piece h' = Some q \<and> isValidMove q (fst (clearLines nb)) = Inr True \<and>
              (nextPiece h = Some q \<or> nextPiece h = None \<and> createNewPiece r1 = Inr q))"
proof (cases "piece h")
  case None
  with assms show ?thesis by (simp add: moveDown_canvas_def)
next
  case (Some p)
  show ?thesis
  proof (cases "isValidMove (p\<lparr>pos_y := pos_y p + 1\<rparr>) (board h) = Inr False")
    case False
    with assms Some show ?thesis
      by (auto simp: moveDown_canvas_def split: sum.splits if_splits)
  next
    case True
    with assms(1) Some obtain nb where nb: "mergePieceToBoard p (board h) = Inr nb"
      and l: "lock_canvas r1 r2 0 nb h = Inr h'"
      by (auto simp: moveDown_canvas_def split: sum.splits)
    from lock_canvas_canStore [OF l assms(2)] Some True nb
    show ?thesis by simp
  qed
qed

lemma hardDrop_canvas_canStore:
  assumes "hardDrop_canvas r1 r2 h = Some (Inr h')" and "\<not> canStore h"
  shows "canStore h' \<longleftrightarrow>
           (\<exists>p dx dy nb q. piece h = Some p \<and>
              getDropPosition p (board h) = Some (Inr (dx, dy)) \<and>
              mergePieceToBoard (p\<lparr>pos_x := dx, pos_y := dy\<rparr>) (board h) = Inr nb \<and>
              piece h' = Some q \<and> isValidMove q (fst (clearLines nb)) = Inr True \<and>
              (nextPiece h = Some q \<or> nextPiece h = None \<and> createNewPiece r1 = Inr q))"
proof (cases "piece h")
  case None
  with assms show ?thesis by (simp add: hardDrop_canvas_def)
next
  case (Some p)
  with assms(1) obtain dx dy nb where d: "getDropPosition p (board h) = Some (Inr (dx, dy))"
    and nb: "mergePieceToBoard (p\<lparr>pos_x := dx, pos_y := dy\<rparr>) (board h) = Inr nb"
    and l: "lock_canvas r1 r2 (dy - pos_y p) nb (h\<lparr>piece := Some (p\<lparr>pos_x := dx, pos_y := dy\<rparr>)\<rparr>)
              = Inr h'"
    by (auto simp: hardDrop_canvas_def split: option.splits sum.splits)
  from lock_canvas_canStore [OF l] assms(2) Some d nb
  show ?thesis by simp
qed

lemma storePiece_stores:
  assumes "canStore h" and "piece h = Some p" and "storedPiece h = None" and "r < 7"
  shows "\<exists>h'. storePiece r h = Inr h' \<and> storedPiece h' = Some p"
proof -
  obtain n where "createNewPiece r = Inr n"
    using createNewPiece_ok [OF assms(4)] by blast
  with assms(1-3) show ?thesis
    by (simp add: storePiece_def split: option.splits)
qed

lemma advance_canvas_hold:
  "advance_canvas r1 r2 nxt cb h = Inr h' \<Longrightarrow> canStore h \<longrightarrow> canStore h'"
  by (auto simp: advance_canvas_def split: option.splits sum.splits if_splits)

lemma lock_canvas_hold:
  assumes "lock_canvas r1 r2 bonus nb h = Inr h'"
  shows "storedPiece h' = storedPiece h \<and> (canStore h \<longrightarrow> canStore h')"
proof -
  obtain cb k where ck: "clearLines nb = (cb, k)"
    by (cases "clearLines nb")
  from assms ck obtain h0 where a: "advance_canvas r1 r2 (nextPiece h) cb h0 = Inr h'"
    and "canStore h0 = canStore h" and "storedPiece h0 = storedPiece h"
    by (auto simp: lock_canvas_def Let_def)
  with advance_canvas_frame [OF a] advance_canvas_hold [OF a] show ?thesis
    by simp
qed

lemma moveDown_canvas_hold:
  assumes "moveDown_canvas r1 r2 h = Inr h'"
  shows "storedPiece h' = storedPiece h \<and> (canStore h \<longrightarrow> canStore h')"
  using assms lock_canvas_hold
  by (fastforce simp: moveDown_canvas_def split: option.splits sum.splits if_splits)

lemma hardDrop_canvas_hold:
  assumes "hardDrop_canvas r1 r2 h = Some (Inr h')"
  shows "storedPiece h' = storedPiece h \<and> (canStore h \<longrightarrow> canStore h')"
proof (cases "piece h")
  case None
  with assms show ?thesis by (simp add: hardDrop_canvas_def)
next
  case (Some p)
  with assms obtain dx dy nb where
    "lock_canvas r1 r2 (dy - pos_y p) nb (h\<lparr>piece := Some (p\<lparr>pos_x := dx, pos_y := dy\<rparr>)\<rparr>) = Inr h'"
    by (auto simp: hardDrop_canvas_def split: option.splits sum.splits)
  from lock_canvas_hold [OF this] show ?thesis by simp
qed

lemma moveSideways_hold: "moveSideways d h = Inr h' \<Longrightarrow> storedPiece h' = storedPiece h"
  by (auto simp: moveSideways_def split: option.splits sum.splits if_splits)

lemma rotate_canvas_hold: "rotate_canvas h = Inr h' \<Longrightarrow> storedPiece h' = storedPiece h"
  by (auto simp: rotate_canvas_def split: option.splits sum.splits if_splits)

lemma spawn_checked_hold:
  "spawn_checked r1 r2 h = Inr h' \<Longrightarrow> canStore h' = canStore h \<and> storedPiece h' = storedPiece h"
  by (auto simp: spawn_checked_def split: sum.splits if_splits)

lemma storePiece_swaps:
  assumes "canStore h" and "piece h = Some p" and "storedPiece h = Some sp"
    and "spawn_x (shape sp) = Inr x0"
    and "isValidMove (sp\<lparr>pos_x := x0, pos_y := 0\<rparr>) (board h) = Inr True"
  shows "storePiece r h = Inr (h\<lparr>storedPiece := Some p,
           piece := Some (sp\<lparr>pos_x := x0, pos_y := 0\<rparr>), canStore := False\<rparr>)"
  using assms by (simp add: storePiece_def)

lemma store_after_moveDown:
  assumes "\<not> canStore h" and "storedPiece h = Some sp" and "moveDown_canvas r1 r2 h = Inr h'"
    and "canStore h'" and "spawn_x (shape sp) = Inr x0"
    and "isValidMove (sp\<lparr>pos_x := x0, pos_y := 0\<rparr>) (board h') = Inr True"
  shows "\<exists>q. piece h' = Some q \<and>
           storePiece r h' = Inr (h'\<lparr>storedPiece := Some q,
             piece := Some (sp\<lparr>pos_x := x0, pos_y := 0\<rparr>), canStore := False\<rparr>)"
proof -
  from moveDown_canvas_canStore [OF assms(3,1)] assms(4)
  obtain q where q: "piece h' = Some q" by blast
  have "storedPiece h' = Some sp"
    using moveDown_canvas_hold [OF assms(3)] assms(2) by simp
  from storePiece_swaps [OF assms(4) q this assms(5,6)] q show ?thesis by blast
qed

lemma store_after_hardDrop:
  assumes "\<not> canStore h" and "storedPiece h = Some sp"
    and "hardDrop_canvas r1 r2 h = Some (Inr h')"
    and "canStore h'" and "spawn_x (shape sp) = Inr x0"
    and "isValidMove (sp\<lparr>pos_x := x0, pos_y := 0\<rparr>) (board h') = Inr True"
  shows "\<exists>q. piece h' = Some q \<and>
           storePiece r h' = Inr (h'\<lparr>storedPiece := Some q,
             piece := Some (sp\<lparr>pos_x := x0, pos_y := 0\<rparr>), canStore := False\<rparr>)"
proof -
  from hardDrop_canvas_canStore [OF assms(3,1)] assms(4)
  obtain q where q: "piece h' = Some q" by blast
  have "storedPiece h' = Some sp"
    using hardDrop_canvas_hold [OF assms(3)] assms(2) by simp
  from storePiece_swaps [OF assms(4) q this assms(5,6)] q show ?thesis by blast
qed

text \<open>
  Claim C7. With an active piece, \<open>storePiece\<close> leaves \<open>canStore\<close> false; while \<open>canStore\<close> is
  false \<open>storePiece\<close> returns the state as it is. While \<open>canStore\<close> is true, \<open>storePiece\<close> takes
  effect: with nothing held it holds the active piece and promotes the next piece (or
  draws one); with a piece held that is valid at its spawn position it swaps the two, the
  held piece becoming active at its spawn position. Moving sideways, rotating and the
  first spawn change neither \<open>canStore\<close> nor the held piece. \<open>moveDown\<close> and \<open>hardDrop\<close> keep
  the held piece and a true \<open>canStore\<close>, and make a false \<open>canStore\<close> true exactly when they
  lock the active piece and the piece that becomes active (the next piece, or a piece
  drawn when there is none) is valid on the cleared board. So after a store, once
  \<open>moveDown\<close> or \<open>hardDrop\<close> has returned a state with \<open>canStore\<close> true, \<open>storePiece\<close> swaps the
  new active piece with the held one, if that is valid at its spawn position.
\<close>

theorem canStore_once_per_piece:
  "(piece h \<noteq> None \<and> storePiece r h = Inr h' \<longrightarrow> \<not> canStore h')
   \<and> (\<not> canStore h \<longrightarrow> storePiece r h = Inr h)
   \<and> (canStore h \<and> piece h = Some p \<and> storedPiece h = None \<and> r < 7 \<longrightarrow>
        (\<exists>h''. storePiece r h = Inr h'' \<and> storedPiece h'' = Some p))
   \<and> (moveSideways d h = Inr h' \<longrightarrow> canStore h' = canStore h)
   \<and> (rotate_canvas h = Inr h' \<longrightarrow> canStore h' = canStore h)
   \<and> (moveDown_canvas r1 r2 h = Inr h' \<and> \<not> canStore h \<longrightarrow>
        (canStore h' \<longleftrightarrow>
           (\<exists>p nb q. piece h = Some p \<and>
              isValidMove (p\<lparr>pos_y := pos_y p + 1\<rparr>) (board h) = Inr False \<and>
              mergePieceToBoard p (board h) = Inr nb \<and>
              piece h' = Some q \<and> isValidMove q (fst (clearLines nb)) = Inr True \<and>
              (nextPiece h = Some q \<or> nextPiece h = None \<and> createNewPiece r1 = Inr q))))
   \<and> (hardDrop_canvas r1 r2 h = Some (Inr h') \<and> \<not> canStore h \<longrightarrow>
        (canStore h' \<longleftrightarrow>
           (\<exists>p dx dy nb q. piece h = Some p \<and>
              getDropPosition p (board h) = Some (Inr (dx, dy)) \<and>
              mergePieceToBoard (p\<lparr>pos_x := dx, pos_y := dy\<rparr>) (board h) = Inr nb \<and>
              piece h' = Some q \<and> isValidMove q (fst (clearLines nb)) = Inr True \<and>
              (nextPiece h = Some q \<or> nextPiece h = None \<and> createNewPiece r1 = Inr q))))
   \<and> (canStore h \<and> piece h = Some p \<and> storedPiece h = Some sp \<and>
      spawn_x (shape sp) = Inr x0 \<and>
      isValidMove (sp\<lparr>pos_x := x0, pos_y := 0\<rparr>) (board h) = Inr True \<longrightarrow>
        storePiece r h = Inr (h\<lparr>storedPiece := Some p,
          piece := Some (sp\<lparr>pos_x := x0, pos_y := 0\<rparr>), canStore := False\<rparr>))
   \<and> (canStore h \<and> piece h = Some p \<and> storedPiece h = None \<and> nextPiece h = Some np \<and>
      createNewPiece r = Inr n \<longrightarrow>
        storePiece r h = Inr (h\<lparr>storedPiece := Some p, piece := Some np,
          nextPiece := Some n, canStore := False\<rparr>))
   \<and> (canStore h \<and> piece h = Some p \<and> storedPiece h = None \<and> nextPiece h = None \<and>
      createNewPiece r = Inr n \<longrightarrow>
        storePiece r h = Inr (h\<lparr>storedPiece := Some p, piece := Some n, canStore := False\<rparr>))
   \<and> (moveDown_canvas r1 r2 h = Inr h' \<longrightarrow>
        storedPiece h' = storedPiece h \<and> (canStore h \<longrightarrow> canStore h'))
   \<and> (hardDrop_canvas r1 r2 h = Some (Inr h') \<longrightarrow>
        storedPiece h' = storedPiece h \<and> (canStore h \<longrightarrow> canStore h'))
   \<and> (moveSideways d h = Inr h' \<longrightarrow> storedPiece h' = storedPiece h)
   \<and> (rotate_canvas h = Inr h' \<longrightarrow> storedPiece h' = storedPiece h)
   \<and> (spawn_checked r1 r2 h = Inr h' \<longrightarrow>
        canStore h' = canStore h \<and> storedPiece h' = storedPiece h)
   \<and> (\<not> canStore h \<and> storedPiece h = Some sp \<and> moveDown_canvas r1 r2 h = Inr h' \<and>
      canStore h' \<and> spawn_x (shape sp) = Inr x0 \<and>
      isValidMove (sp\<lparr>pos_x := x0, pos_y := 0\<rparr>) (board h') = Inr True \<longrightarrow>
        (\<exists>q. piece h' = Some q \<and>
           storePiece r h' = Inr (h'\<lparr>storedPiece := Some q,
             piece := Some (sp\<lparr>pos_x := x0, pos_y := 0\<rparr>), canStore := False\<rparr>)))
   \<and> (\<not> canStore h \<and> storedPiece h = Some sp \<and> hardDrop_canvas r1 r2 h = Some (Inr h') \<and>
      canStore h' \<and> spawn_x (shape sp) = Inr x0 \<and>
      isValidMove (sp\<lparr>pos_x := x0, pos_y := 0\<rparr>) (board h') = Inr True \<longrightarrow>
        (\<exists>q. piece h' = Some q \<and>
           storePiece r h' = Inr (h'\<lparr>storedPiece := Some q,
             piece := Some (sp\<lparr>pos_x := x0, pos_y := 0\<rparr>), canStore := False\<rparr>)))"
proof (intro conjI)
  show "piece h \<noteq> None \<and> storePiece r h = Inr h' \<longrightarrow> \<not> canStore h'"
    using storePiece_clears by blast
next
  show "\<not> canStore h \<longrightarrow> storePiece r h = Inr h"
    by (simp add: storePiece_def)
next
  show "canStore h \<and> piece h = Some p \<and> storedPiece h = None \<and> r < 7 \<longrightarrow>
        (\<exists>h''. storePiece r h = Inr h'' \<and> storedPiece h'' = Some p)"
    using storePiece_stores by blast
next
  show "moveSideways d h = Inr h' \<longrightarrow> canStore h' = canStore h"
    using moveSideways_canStore by blast
next
  show "rotate_canvas h = Inr h' \<longrightarrow> canStore h' = canStore h"
    using rotate_canvas_canStore by blast
next
  show "moveDown_canvas r1 r2 h = Inr h' \<and> \<not> canStore h \<longrightarrow>
        (canStore h' \<longleftrightarrow>
           (\<exists>p nb q. piece h = Some p \<and>
              isValidMove (p\<lparr>pos_y := pos_y p + 1\<rparr>) (board h) = Inr False \<and>
              mergePieceToBoard p (board h) = Inr nb \<and>
              piece h' = Some q \<and> isValidMove q (fst (clearLines nb)) = Inr True \<and>
              (nextPiece h = Some q \<or> nextPiece h = None \<and> createNewPiece r1 = Inr q)))"
    using moveDown_canvas_canStore by blast
next
  show "hardDrop_canvas r1 r2 h = Some (Inr h') \<and> \<not> canStore h \<longrightarrow>
        (canStore h' \<longleftrightarrow>
           (\<exists>p dx dy nb q. piece h = Some p \<and>
              getDropPosition p (board h) = Some (Inr (dx, dy)) \<and>
              mergePieceToBoard (p\<lparr>pos_x := dx, pos_y := dy\<rparr>) (board h) = Inr nb \<and>
              piece h' = Some q \<and> isValidMove q (fst (clearLines nb)) = Inr True \<and>
              (nextPiece h = Some q \<or> nextPiece h = None \<and> createNewPiece r1 = Inr q)))"
    using hardDrop_canvas_canStore by blast
next
  show "canStore h \<and> piece h = Some p \<and> storedPiece h = Some sp \<and>
      spawn_x (shape sp) = Inr x0 \<and>
      isValidMove (sp\<lparr>pos_x := x0, pos_y := 0\<rparr>) (board h) = Inr True \<longrightarrow>
        storePiece r h = Inr (h\<lparr>storedPiece := Some p,
          piece := Some (sp\<lparr>pos_x := x0, pos_y := 0\<rparr>), canStore := False\<rparr>)"
    using storePiece_swaps by blast
next
  show "canStore h \<and> piece h = Some p \<and> storedPiece h = None \<and> nextPiece h = Some np \<and>
      createNewPiece r = Inr n \<longrightarrow>
        storePiece r h = Inr (h\<lparr>storedPiece := Some p, piece := Some np,
          nextPiece := Some n, canStore := False\<rparr>)"
    by (simp add: storePiece_def)
next
  show "canStore h \<and> piece h = Some p \<and> storedPiece h = None \<and> nextPiece h = None \<and>
      createNewPiece r = Inr n \<longrightarrow>
        storePiece r h = Inr (h\<lparr>storedPiece := Some p, piece := Some n, canStore := False\<rparr>)"
    by (simp add: storePiece_def)
next
  show "moveDown_canvas r1 r2 h = Inr h' \<longrightarrow>
        storedPiece h' = storedPiece h \<and> (canStore h \<longrightarrow> canStore h')"
    using moveDown_canvas_hold by blast
next
  show "hardDrop_canvas r1 r2 h = Some (Inr h') \<longrightarrow>
        storedPiece h' = storedPiece h \<and> (canStore h \<longrightarrow> canStore h')"
    using hardDrop_canvas_hold by blast
next
  show "moveSideways d h = Inr h' \<longrightarrow> storedPiece h' = storedPiece h"
    using moveSideways_hold by blast
next
  show "rotate_canvas h = Inr h' \<longrightarrow> storedPiece h' = storedPiece h"
    using rotate_canvas_hold by blast
next
  show "spawn_checked r1 r2 h = Inr h' \<longrightarrow>
        canStore h' = canStore h \<and> storedPiece h' = storedPiece h"
    using spawn_checked_hold by blast
next
  show "\<not> canStore h \<and> storedPiece h = Some sp \<and> moveDown_canvas r1 r2 h = Inr h' \<and>
      canStore h' \<and> spawn_x (shape sp) = Inr x0 \<and>
      isValidMove (sp\<lparr>pos_x := x0, pos_y := 0\<rparr>) (board h') = Inr True \<longrightarrow>
        (\<exists>q. piece h' = Some q \<and>
           storePiece r h' = Inr (h'\<lparr>storedPiece := Some q,
             piece := Some (sp\<lparr>pos_x := x0, pos_y := 0\<rparr>), canStore := False\<rparr>))"
    using store_after_moveDown by blast
next
  show "\<not> canStore h \<and> storedPiece h = Some sp \<and> hardDrop_canvas r1 r2 h = Some (Inr h') \<and>
      canStore h' \<and> spawn_x (shape sp) = Inr x0 \<and>
      isValidMove (sp\<lparr>pos_x := x0, pos_y := 0\<rparr>) (board h') = Inr True \<longrightarrow>
        (\<exists>q. piece h' = Some q \<and>
           storePiece r h' = Inr (h'\<lparr>storedPiece := Some q,
             piece := Some (sp\<lparr>pos_x := x0, pos_y := 0\<rparr>), canStore := False\<rparr>))"
    using store_after_hardDrop by blast
qed

theorem canStore_once_per_piece_witness:
  "spawn_checked 0 0 (initial_hold_game 0) = Inr (canvas_state emptyBoard 0) \<and>
   piece (canvas_state emptyBoard 0) \<noteq> None \<and>
   canStore (canvas_state emptyBoard 0) \<and> storedPiece (canvas_state emptyBoard 0) = None \<and>
   storePiece 1 (canvas_state emptyBoard 0) = Inr after_store \<and>
   storedPiece after_store = piece (canvas_state emptyBoard 0) \<and>
   \<not> canStore after_store \<and>
   storePiece 1 after_store = Inr after_store \<and>
   (\<exists>h'. moveSideways Left after_store = Inr h' \<and> \<not> canStore h' \<and>
      storedPiece h' = storedPiece after_store) \<and>
   (\<exists>h'. rotate_canvas after_store = Inr h' \<and> \<not> canStore h' \<and>
      storedPiece h' = storedPiece after_store) \<and>
   (\<exists>h'. moveDown_canvas 0 0 after_store = Inr h' \<and> \<not> canStore h' \<and>
      storedPiece h' = storedPiece after_store) \<and>
   hardDrop_canvas 0 0 after_store = Some (Inr after_hard_drop) \<and>
   canStore after_hard_drop \<and>
   storedPiece after_hard_drop = Some (I_canvas 0) \<and>
   piece after_hard_drop = Some O_canvas \<and>
   storePiece 2 after_hard_drop
     = Inr (after_hard_drop\<lparr>storedPiece := Some O_canvas, piece := Some (I_canvas 0),
              canStore := False\<rparr>) \<and>
   soft_drops_canvas 19 0 0 after_store = Inr (after_store\<lparr>piece := Some (I_canvas 19)\<rparr>) \<and>
   \<not> canStore (after_store\<lparr>piece := Some (I_canvas 19)\<rparr>) \<and>
   moveDown_canvas 0 0 (after_store\<lparr>piece := Some (I_canvas 19)\<rparr>) = Inr after_soft_lock \<and>
   canStore after_soft_lock \<and>
   storePiece 2 after_soft_lock
     = Inr (after_soft_lock\<lparr>storedPiece := Some O_canvas, piece := Some (I_canvas 0),
              canStore := False\<rparr>)"
proof -
  note t = canStore_once_per_piece
  let ?s0 = "canvas_state emptyBoard 0"
  let ?s19 = "after_store\<lparr>piece := Some (I_canvas 19)\<rparr>"
  have i: "spawn_checked 0 0 (initial_hold_game 0) = Inr ?s0" by code_simp
  have a1: "piece ?s0 \<noteq> None" "canStore ?s0" "storedPiece ?s0 = None"
    "piece ?s0 = Some (I_canvas 0)" "nextPiece ?s0 = Some (I_canvas 0)"
    by (simp_all add: canvas_state_def)
  have a0: "createNewPiece 1 = Inr O_canvas" by code_simp
  have a2: "storePiece 1 ?s0 = Inr after_store"
    using t [where h = ?s0 and r = 1 and p = "I_canvas 0" and np = "I_canvas 0"
        and n = O_canvas, THEN conjunct2, THEN conjunct2, THEN conjunct2, THEN conjunct2, THEN conjunct2, THEN conjunct2, THEN conjunct2, THEN conjunct2, THEN conjunct1] a1 a0
    by (simp add: after_store_def canvas_state_def)
  have a3: "\<not> canStore after_store"
    using t [where h = ?s0 and r = 1 and h' = after_store, THEN conjunct1] a1 a2 by simp
  have b: "storePiece 1 after_store = Inr after_store"
    using t [where h = after_store and r = 1, THEN conjunct2, THEN conjunct1] a3 by simp
  have g: "storedPiece after_store = piece ?s0"
    using t [where h = ?s0 and r = 1 and p = "I_canvas 0", THEN conjunct2, THEN conjunct2, THEN conjunct1] a1 a2
    by auto
  have g': "storedPiece after_store = Some (I_canvas 0)"
    using g a1(4) by simp
  let ?c = "projr (moveSideways Left after_store)"
  have c0: "moveSideways Left after_store = Inr ?c" by code_simp
  have c1: "\<not> canStore ?c"
    using t [where h = after_store and h' = ?c and d = Left, THEN conjunct2, THEN conjunct2, THEN conjunct2, THEN conjunct1] c0 a3 by simp
  have c2: "storedPiece ?c = storedPiece after_store"
    using t [where h = after_store and h' = ?c and d = Left, THEN conjunct2, THEN conjunct2, THEN conjunct2, THEN conjunct2, THEN conjunct2, THEN conjunct2, THEN conjunct2, THEN conjunct2, THEN conjunct2, THEN conjunct2, THEN conjunct2, THEN conjunct2, THEN conjunct1] c0 by simp
  have c: "\<exists>h'. moveSideways Left after_store = Inr h' \<and> \<not> canStore h' \<and>
      storedPiece h' = storedPiece after_store"
    using c0 c1 c2 by blast
  let ?d = "projr (rotate_canvas after_store)"
  have d0: "rotate_canvas after_store = Inr ?d" by code_simp
  have d1: "\<not> canStore ?d"
    using t [where h = after_store and h' = ?d, THEN conjunct2, THEN conjunct2, THEN conjunct2, THEN conjunct2, THEN conjunct1] d0 a3 by simp
  have d2: "storedPiece ?d = storedPiece after_store"
    using t [where h = after_store and h' = ?d, THEN conjunct2, THEN conjunct2, THEN conjunct2, THEN conjunct2, THEN conjunct2, THEN conjunct2, THEN conjunct2, THEN conjunct2, THEN conjunct2, THEN conjunct2, THEN conjunct2, THEN conjunct2, THEN conjunct2, THEN conjunct1] d0 by simp
  have d: "\<exists>h'. rotate_canvas after_store = Inr h' \<and> \<not> canStore h' \<and>
      storedPiece h' = storedPiece after_store"
    using d0 d1 d2 by blast
  let ?e = "projr (moveDown_canvas 0 0 after_store)"
  have e0: "moveDown_canvas 0 0 after_store = Inr ?e" by code_simp
  have e1: "isValidMove ((I_canvas 0)\<lparr>pos_y := pos_y (I_canvas 0) + 1\<rparr>) (board after_store)
      = Inr True" by code_simp
  have e2: "piece after_store = Some (I_canvas 0)" by code_simp
  have e3: "\<not> canStore ?e"
    using t [where h = after_store and ?r1.0 = 0 and ?r2.0 = 0 and h' = ?e, THEN conjunct2, THEN conjunct2, THEN conjunct2, THEN conjunct2, THEN conjunct2, THEN conjunct1]
      e0 a3 e1 e2
    by (metis Inr_inject option.inject)
  have e4: "storedPiece ?e = storedPiece after_store"
    using t [where h = after_store and ?r1.0 = 0 and ?r2.0 = 0 and h' = ?e, THEN conjunct2, THEN conjunct2, THEN conjunct2, THEN conjunct2, THEN conjunct2, THEN conjunct2, THEN conjunct2, THEN conjunct2, THEN conjunct2, THEN conjunct2, THEN conjunct1] e0
    by simp
  have e: "\<exists>h'. moveDown_canvas 0 0 after_store = Inr h' \<and> \<not> canStore h' \<and>
      storedPiece h' = storedPiece after_store"
    using e0 e3 e4 by blast
  have sx: "spawn_x (shape (I_canvas 0)) = Inr 3" by code_simp
  have sI: "(I_canvas 0)\<lparr>pos_x := 3, pos_y := 0\<rparr> = I_canvas 0"
    by (simp add: I_canvas_def)
  have m0: "hardDrop_canvas 0 0 after_store = Some (Inr after_hard_drop)" by code_simp
  have m2: "getDropPosition (I_canvas 0) (board after_store) = Some (Inr (3, 19))"
    by code_simp
  have m3: "mergePieceToBoard ((I_canvas 0)\<lparr>pos_x := 3, pos_y := 19\<rparr>) (board after_store)
      = Inr lone_I" by code_simp
  have m4: "piece after_hard_drop = Some O_canvas" by (simp add: after_hard_drop_def)
  have m5: "isValidMove O_canvas (fst (clearLines lone_I)) = Inr True" by code_simp
  have m6: "nextPiece after_store = Some O_canvas" by code_simp
  have m7: "canStore after_hard_drop"
    using t [where h = after_store and ?r1.0 = 0 and ?r2.0 = 0 and h' = after_hard_drop, THEN conjunct2, THEN conjunct2, THEN conjunct2, THEN conjunct2, THEN conjunct2, THEN conjunct2, THEN conjunct1]
      m0 a3 e2 m2 m3 m4 m5 m6 by blast
  have m8: "storedPiece after_hard_drop = Some (I_canvas 0)"
    using t [where h = after_store and ?r1.0 = 0 and ?r2.0 = 0 and h' = after_hard_drop, THEN conjunct2, THEN conjunct2, THEN conjunct2, THEN conjunct2, THEN conjunct2, THEN conjunct2, THEN conjunct2, THEN conjunct2, THEN conjunct2, THEN conjunct2, THEN conjunct2, THEN conjunct1]
      m0 g' by simp
  have m9: "isValidMove ((I_canvas 0)\<lparr>pos_x := 3, pos_y := 0\<rparr>) (board after_hard_drop)
      = Inr True" by code_simp
  have m: "storePiece 2 after_hard_drop
     = Inr (after_hard_drop\<lparr>storedPiece := Some O_canvas, piece := Some (I_canvas 0),
              canStore := False\<rparr>)"
    using t [where h = after_store and ?r1.0 = 0 and ?r2.0 = 0 and h' = after_hard_drop
        and sp = "I_canvas 0" and ?x0.0 = 3 and r = 2, THEN conjunct2, THEN conjunct2, THEN conjunct2, THEN conjunct2, THEN conjunct2, THEN conjunct2, THEN conjunct2, THEN conjunct2, THEN conjunct2, THEN conjunct2, THEN conjunct2, THEN conjunct2, THEN conjunct2, THEN conjunct2, THEN conjunct2, THEN conjunct2]
      a3 g' m0 m7 sx m9 m4
    by (auto simp: sI)
  have s0: "soft_drops_canvas 19 0 0 after_store = Inr ?s19" by code_simp
  have s1: "\<not> canStore ?s19" using a3 by simp
  have s2: "moveDown_canvas 0 0 ?s19 = Inr after_soft_lock" by code_simp
  have s3: "piece ?s19 = Some (I_canvas 19)" by simp
  have s4: "isValidMove ((I_canvas 19)\<lparr>pos_y := pos_y (I_canvas 19) + 1\<rparr>) (board ?s19)
      = Inr False" by code_simp
  have s5: "mergePieceToBoard (I_canvas 19) (board ?s19) = Inr lone_I" by code_simp
  have s6: "piece after_soft_lock = Some O_canvas"
    by (simp add: after_soft_lock_def after_hard_drop_def)
  have s7: "nextPiece ?s19 = Some O_canvas" by code_simp
  have s8: "canStore after_soft_lock"
    using t [where h = ?s19 and ?r1.0 = 0 and ?r2.0 = 0 and h' = after_soft_lock, THEN conjunct2, THEN conjunct2, THEN conjunct2, THEN conjunct2, THEN conjunct2, THEN conjunct1]
      s2 s1 s3 s4 s5 s6 m5 s7 by blast
  have s9: "storedPiece ?s19 = Some (I_canvas 0)" using g' by simp
  have s10: "isValidMove ((I_canvas 0)\<lparr>pos_x := 3, pos_y := 0\<rparr>) (board after_soft_lock)
      = Inr True" by code_simp
  have s: "storePiece 2 after_soft_lock
     = Inr (after_soft_lock\<lparr>storedPiece := Some O_canvas, piece := Some (I_canvas 0),
              canStore := False\<rparr>)"
    using t [where h = ?s19 and ?r1.0 = 0 and ?r2.0 = 0 and h' = after_soft_lock
        and sp = "I_canvas 0" and ?x0.0 = 3 and r = 2, THEN conjunct2, THEN conjunct2, THEN conjunct2, THEN conjunct2, THEN conjunct2, THEN conjunct2, THEN conjunct2, THEN conjunct2, THEN conjunct2, THEN conjunct2, THEN conjunct2, THEN conjunct2, THEN conjunct2, THEN conjunct2, THEN conjunct2, THEN conjunct1]
      s1 s9 s2 s8 sx s10 s6
    by (auto simp: sI)
  show ?thesis
    using i a1(1,2,3) a2 g a3 b c d e m0 m7 m8 m4 m s0 s1 s2 s8 s by blast
qed

section \<open>Rotation\<close>

lemma try_kicks_first:
  "i < length ks \<Longrightarrow> isValidMove (kicked_by np (ks ! i)) b = Inr True \<Longrightarrow>
   (\<And>j. j < i \<Longrightarrow> isValidMove (kicked_by np (ks ! j)) b = Inr False) \<Longrightarrow>
   try_kicks np b ks = Inr (Some (kicked_by np (ks ! i)))"
proof (induction ks arbitrary: i)
  case Nil
  then show ?case by simp
next
  case (Cons k ks)
  show ?case
  proof (cases i)
    case 0
    with Cons.prems(2) show ?thesis by (simp add: kicked_by_def)
  next
    case (Suc i')
    from Cons.prems(3) [of 0] Suc have k: "isValidMove (kicked_by np k) b = Inr False" by simp
    have "try_kicks np b ks = Inr (Some (kicked_by np (ks ! i')))"
    proof (rule Cons.IH)
      show "i' < length ks" using Cons.prems(1) Suc by simp
      show "isValidMove (kicked_by np (ks ! i')) b = Inr True" using Cons.prems(2) Suc by simp
      show "isValidMove (kicked_by np (ks ! j)) b = Inr False" if "j < i'" for j
        using Cons.prems(3) [of "Suc j"] that Suc by simp
    qed
    with k Suc show ?thesis by (simp add: kicked_by_def)
  qed
qed

lemma try_kicks_none:
  "(\<And>j. j < length ks \<Longrightarrow> isValidMove (kicked_by np (ks ! j)) b = Inr False) \<Longrightarrow>
   try_kicks np b ks = Inr None"
proof (induction ks)
  case Nil
  then show ?case by simp
next
  case (Cons k ks)
  from Cons.prems [of 0] have k: "isValidMove (kicked_by np k) b = Inr False" by simp
  have "try_kicks np b ks = Inr None"
  proof (rule Cons.IH)
    show "isValidMove (kicked_by np (ks ! j)) b = Inr False" if "j < length ks" for j
      using Cons.prems [of "Suc j"] that by simp
  qed
  with k show ?case by (simp add: kicked_by_def)
qed

lemma column_at_eq:
  "(\<And>r. r \<in> set sh \<Longrightarrow> i < length r) \<Longrightarrow> column_at (int i) sh = Inr (map (\<lambda>r. r ! i) sh)"
  by (induction sh) (simp_all add: js_index_def)

lemma rotate_columns_eq:
  "(\<And>r. r \<in> set sh \<Longrightarrow> i + length cs \<le> length r) \<Longrightarrow>
   rotate_columns sh (int i) cs = Inr (map (\<lambda>c. rev (map (\<lambda>r. r ! c) sh)) [i ..< i + length cs])"
proof (induction cs arbitrary: i)
  case Nil
  then show ?case by simp
next
  case (Cons c cs)
  have col: "column_at (int i) sh = Inr (map (\<lambda>r. r ! i) sh)"
    using Cons.prems by (intro column_at_eq) fastforce
  have "rotate_columns sh (int (Suc i)) cs
          = Inr (map (\<lambda>c. rev (map (\<lambda>r. r ! c) sh)) [Suc i ..< Suc i + length cs])"
    using Cons.prems by (intro Cons.IH) fastforce
  then have rest: "rotate_columns sh (int i + 1) cs
          = Inr (map (\<lambda>c. rev (map (\<lambda>r. r ! c) sh)) [Suc i ..< Suc i + length cs])"
    by (simp add: add.commute)
  have "[i ..< Suc (i + length cs)] = i # [Suc i ..< Suc (i + length cs)]"
    by (rule upt_conv_Cons) simp
  then show ?case
    by (simp only: col rest length_Cons add_Suc_right add_Suc rotate_columns.simps sum.case list.map)
qed

lemma rotate_shape_rectangular:
  assumes "rectangular sh"
  shows "rotate_shape sh = Inr (map rev (transpose sh))"
proof -
  from assms have ne: "sh \<noteq> []" and all: "\<forall>r \<in> set sh. length r = length (hd sh)"
    unfolding rectangular_def by blast+
  from ne obtain r0 rs where sh: "sh = r0 # rs"
    by (cases sh) simp_all
  have len: "length r = length r0" if "r \<in> set sh" for r
    using all that sh by (metis list.sel(1))
  have "rotate_columns sh (int 0) r0
          = Inr (map (\<lambda>c. rev (map (\<lambda>r. r ! c) sh)) [0 ..< 0 + length r0])"
  proof (rule rotate_columns_eq)
    show "0 + length r0 \<le> length r" if "r \<in> set sh" for r
      using len [OF that] by linarith
  qed
  then have rot: "rotate_shape sh = Inr (map (\<lambda>c. rev (map (\<lambda>r. r ! c) sh)) [0 ..< length r0])"
    unfolding rotate_shape_def sh by simp
  have tr: "transpose sh = map (\<lambda>i. map (\<lambda>j. sh ! j ! i) [0..<length sh]) [0..<length r0]"
  proof (rule transpose_rectangle)
    show "length r0 = 0" if "sh = []"
      using that ne by simp
    show "length (sh ! i) = length r0" if "i < length sh" for i
      using len [OF nth_mem [OF that]] .
  qed
  have col: "map (\<lambda>j. sh ! j ! i) [0..<length sh] = map (\<lambda>r. r ! i) sh" for i
    by (rule nth_equalityI) simp_all
  show ?thesis
    unfolding rot tr col by (simp add: comp_def)
qed

text \<open>
  Claim C6. The rotation of a rectangular shape is its transpose with every row reversed.
  In the second component of \<open>tetris-2d.tsx\<close>, \<open>rotate\<close> takes the rotated piece when it is
  valid; when it is not, it takes the rotated piece moved by the first of the offsets
  \<open>(1, 0)\<close>, \<open>(-1, 0)\<close>, \<open>(0, -1)\<close>, \<open>(1, -1)\<close>, \<open>(-1, -1)\<close>, in this order, that makes it
  valid; when none does, the state is unchanged. The \<open>rotate\<close> without kicks returns the
  state unchanged as soon as the rotated piece is not valid.
\<close>

theorem rotation_with_kicks:
  assumes "piece h = Some p" and "rotate_shape (shape p) = Inr newShape"
    and "piece g = Some p'" and "rotate_shape (shape p') = Inr newShape'"
  shows "(rectangular sh \<longrightarrow> rotate_shape sh = Inr (map rev (transpose sh)))
       \<and> kicks = [(1, 0), (-1, 0), (0, -1), (1, -1), (-1, -1)]
       \<and> (isValidMove (p\<lparr>shape := newShape\<rparr>) (board h) = Inr True \<longrightarrow>
            rotate_canvas h = Inr (h\<lparr>piece := Some (p\<lparr>shape := newShape\<rparr>)\<rparr>))
       \<and> (isValidMove (p\<lparr>shape := newShape\<rparr>) (board h) = Inr False \<and> i < length kicks \<and>
          isValidMove (kicked_by (p\<lparr>shape := newShape\<rparr>) (kicks ! i)) (board h) = Inr True \<and>
          (\<forall>j < i. isValidMove (kicked_by (p\<lparr>shape := newShape\<rparr>) (kicks ! j)) (board h)
                     = Inr False) \<longrightarrow>
            rotate_canvas h
              = Inr (h\<lparr>piece := Some (kicked_by (p\<lparr>shape := newShape\<rparr>) (kicks ! i))\<rparr>))
       \<and> (isValidMove (p\<lparr>shape := newShape\<rparr>) (board h) = Inr False \<and>
          (\<forall>j < length kicks.
              isValidMove (kicked_by (p\<lparr>shape := newShape\<rparr>) (kicks ! j)) (board h) = Inr False) \<longrightarrow>
            rotate_canvas h = Inr h)
       \<and> (isValidMove (p'\<lparr>shape := newShape'\<rparr>) (board g) = Inr True \<longrightarrow>
            rotate_plain g = Inr (g\<lparr>piece := Some (p'\<lparr>shape := newShape'\<rparr>)\<rparr>))
       \<and> (isValidMove (p'\<lparr>shape := newShape'\<rparr>) (board g) = Inr False \<longrightarrow>
            rotate_plain g = Inr g)"
proof (intro conjI impI)
  assume "rectangular sh"
  then show "rotate_shape sh = Inr (map rev (transpose sh))"
    by (rule rotate_shape_rectangular)
next
  show "kicks = [(1, 0), (-1, 0), (0, -1), (1, -1), (-1, -1)]"
    by (simp add: kicks_def)
next
  assume "isValidMove (p\<lparr>shape := newShape\<rparr>) (board h) = Inr True"
  with assms(1,2) show "rotate_canvas h = Inr (h\<lparr>piece := Some (p\<lparr>shape := newShape\<rparr>)\<rparr>)"
    by (simp add: rotate_canvas_def)
next
  let ?np = "p\<lparr>shape := newShape\<rparr>"
  assume a: "isValidMove ?np (board h) = Inr False \<and> i < length kicks \<and>
          isValidMove (kicked_by ?np (kicks ! i)) (board h) = Inr True \<and>
          (\<forall>j < i. isValidMove (kicked_by ?np (kicks ! j)) (board h) = Inr False)"
  then have "try_kicks ?np (board h) kicks = Inr (Some (kicked_by ?np (kicks ! i)))"
    by (intro try_kicks_first) simp_all
  with a assms(1,2) show "rotate_canvas h = Inr (h\<lparr>piece := Some (kicked_by ?np (kicks ! i))\<rparr>)"
    by (simp add: rotate_canvas_def)
next
  let ?np = "p\<lparr>shape := newShape\<rparr>"
  assume a: "isValidMove ?np (board h) = Inr False \<and>
          (\<forall>j < length kicks. isValidMove (kicked_by ?np (kicks ! j)) (board h) = Inr False)"
  then have "try_kicks ?np (board h) kicks = Inr None"
    by (intro try_kicks_none) simp_all
  with a assms(1,2) show "rotate_canvas h = Inr h"
    by (simp add: rotate_canvas_def)
next
  assume "isValidMove (p'\<lparr>shape := newShape'\<rparr>) (board g) = Inr True"
  with assms(3,4) show "rotate_plain g = Inr (g\<lparr>piece := Some (p'\<lparr>shape := newShape'\<rparr>)\<rparr>)"
    by (simp add: rotate_plain_def)
next
  assume "isValidMove (p'\<lparr>shape := newShape'\<rparr>) (board g) = Inr False"
  with assms(3,4) show "rotate_plain g = Inr g"
    by (simp add: rotate_plain_def)
qed

theorem rotation_with_kicks_witness:
  "piece (at_wall (T_vert ''#800080'')) = Some (T_vert ''#800080'') \<and>
   rectangular (shape (T_vert ''#800080'')) \<and>
   rotate_shape (shape (T_vert ''#800080'')) = Inr [[0, 1, 0], [1, 1, 1]] \<and>
   isValidMove ((T_vert ''#800080'')\<lparr>shape := [[0, 1, 0], [1, 1, 1]]\<rparr>)
     (board (at_wall (T_vert ''#800080''))) = Inr False \<and>
   isValidMove (kicked_by ((T_vert ''#800080'')\<lparr>shape := [[0, 1, 0], [1, 1, 1]]\<rparr>) (kicks ! 0))
     (board (at_wall (T_vert ''#800080''))) = Inr False \<and>
   isValidMove (kicked_by ((T_vert ''#800080'')\<lparr>shape := [[0, 1, 0], [1, 1, 1]]\<rparr>) (kicks ! 1))
     (board (at_wall (T_vert ''#800080''))) = Inr True \<and>
   rotate_canvas (at_wall (T_vert ''#800080''))
     = Inr ((at_wall (T_vert ''#800080''))
          \<lparr>piece := Some ((T_vert ''#800080'')\<lparr>shape := [[0, 1, 0], [1, 1, 1]], pos_x := 7\<rparr>)\<rparr>) \<and>
   piece (at_wall I_vert) = Some I_vert \<and>
   rotate_shape (shape I_vert) = Inr [[1, 1, 1, 1]] \<and>
   rotate_canvas (at_wall I_vert) = Inr (at_wall I_vert) \<and>
   piece at_wall_dom = Some (T_vert 3) \<and>
   isValidMove ((T_vert 3)\<lparr>shape := [[0, 1, 0], [1, 1, 1]]\<rparr>) (board at_wall_dom) = Inr False \<and>
   rotate_plain at_wall_dom = Inr at_wall_dom"
proof -
  let ?T = "T_vert ''#800080''"
  let ?ns = "[[0, 1, 0], [1, 1, 1::int]]"
  have p1: "piece (at_wall ?T) = Some ?T" by (simp add: at_wall_def)
  have p2: "rotate_shape (shape ?T) = Inr ?ns" by code_simp
  have p3: "piece at_wall_dom = Some (T_vert 3)" by (simp add: at_wall_dom_def)
  have p4: "rotate_shape (shape (T_vert (3::int))) = Inr ?ns" by code_simp
  have rect: "rectangular (shape ?T)" by (simp add: rectangular_def T_vert_def)
  note t = rotation_with_kicks [OF p1 p2 p3 p4]
  have v0: "isValidMove (?T\<lparr>shape := ?ns\<rparr>) (board (at_wall ?T)) = Inr False" by code_simp
  have k0: "isValidMove (kicked_by (?T\<lparr>shape := ?ns\<rparr>) (kicks ! 0)) (board (at_wall ?T))
      = Inr False" by code_simp
  have k1: "isValidMove (kicked_by (?T\<lparr>shape := ?ns\<rparr>) (kicks ! 1)) (board (at_wall ?T))
      = Inr True" by code_simp
  have kp: "kicked_by (?T\<lparr>shape := ?ns\<rparr>) (kicks ! 1) = ?T\<lparr>shape := ?ns, pos_x := 7\<rparr>"
    by code_simp
  have lk: "(1::nat) < length kicks" by (simp add: kicks_def)
  have before: "\<forall>j < (1::nat). isValidMove (kicked_by (?T\<lparr>shape := ?ns\<rparr>) (kicks ! j))
      (board (at_wall ?T)) = Inr False"
    using k0 by simp
  have r1: "rotate_canvas (at_wall ?T)
      = Inr ((at_wall ?T)\<lparr>piece := Some (?T\<lparr>shape := ?ns, pos_x := 7\<rparr>)\<rparr>)"
    using t [where i = 1, THEN conjunct2, THEN conjunct2, THEN conjunct2, THEN conjunct1]
      v0 lk k1 before
    by (simp only: kp)
  have q1: "piece (at_wall I_vert) = Some I_vert" by (simp add: at_wall_def)
  have q2: "rotate_shape (shape I_vert) = Inr [[1, 1, 1, 1]]" by code_simp
  have w0: "isValidMove (I_vert\<lparr>shape := [[1, 1, 1, 1]]\<rparr>) (board (at_wall I_vert)) = Inr False"
    by code_simp
  have wk: "isValidMove (kicked_by (I_vert\<lparr>shape := [[1, 1, 1, 1]]\<rparr>) (kicks ! j))
      (board (at_wall I_vert)) = Inr False" if "j < length kicks" for j
  proof -
    from that have "j = 0 \<or> j = 1 \<or> j = 2 \<or> j = 3 \<or> j = 4"
      by (auto simp: kicks_def)
    moreover have "isValidMove (kicked_by (I_vert\<lparr>shape := [[1, 1, 1, 1]]\<rparr>) (kicks ! 0))
        (board (at_wall I_vert)) = Inr False" by code_simp
    moreover have "isValidMove (kicked_by (I_vert\<lparr>shape := [[1, 1, 1, 1]]\<rparr>) (kicks ! 1))
        (board (at_wall I_vert)) = Inr False" by code_simp
    moreover have "isValidMove (kicked_by (I_vert\<lparr>shape := [[1, 1, 1, 1]]\<rparr>) (kicks ! 2))
        (board (at_wall I_vert)) = Inr False" by code_simp
    moreover have "isValidMove (kicked_by (I_vert\<lparr>shape := [[1, 1, 1, 1]]\<rparr>) (kicks ! 3))
        (board (at_wall I_vert)) = Inr False" by code_simp
    moreover have "isValidMove (kicked_by (I_vert\<lparr>shape := [[1, 1, 1, 1]]\<rparr>) (kicks ! 4))
        (board (at_wall I_vert)) = Inr False" by code_simp
    ultimately show ?thesis by blast
  qed
  have r2: "rotate_canvas (at_wall I_vert) = Inr (at_wall I_vert)"
    using rotation_with_kicks [OF q1 q2 p3 p4, THEN conjunct2, THEN conjunct2, THEN conjunct2,
        THEN conjunct2, THEN conjunct1] w0 wk
    by blast
  have d0: "isValidMove ((T_vert 3)\<lparr>shape := ?ns\<rparr>) (board at_wall_dom) = Inr False"
    by code_simp
  have r3: "rotate_plain at_wall_dom = Inr at_wall_dom"
    using t [THEN conjunct2, THEN conjunct2, THEN conjunct2, THEN conjunct2, THEN conjunct2,
        THEN conjunct2] d0
    by blast
  show ?thesis
    using p1 rect p2 v0 k0 k1 r1 q1 q2 r2 p3 d0 r3 by blast
qed

section \<open>The I piece on the empty board\<close>

lemma I_dom_on_emptyBoard: "isValidMove (I_dom y) emptyBoard = Inr (y < BOARD_HEIGHT)"
proof -
  have cell: "emptyBoard ! nat y ! nat (3 + int x) = 0" if "0 \<le> y" "y < 20" "x < 4" for x
    using that by (simp add: emptyBoard_def BOARD_HEIGHT_def BOARD_WIDTH_def nat_add_distrib)
  have four: "x < Suc (Suc (Suc (Suc 0))) \<longleftrightarrow> x < 4" for x :: nat
    by auto
  have blocked: "blocked_at emptyBoard (3 + int x) y \<longleftrightarrow> \<not> y < BOARD_HEIGHT"
    if "x < Suc (Suc (Suc (Suc 0)))" for x
    using cell [of x] that
    by (auto simp: four blocked_at_def BOARD_HEIGHT_def BOARD_WIDTH_def)
  have filled: "[1, 1, 1, 1::int] ! x \<noteq> 0" if "x < Suc (Suc (Suc (Suc 0)))" for x
    using that by (auto simp: nth_Cons split: nat.splits)
  show ?thesis
    apply (simp add: isValidMove_wf [OF wf_emptyBoard] I_dom_def)
    using blocked filled by (metis zero_less_Suc)
qed

lemma moveDown_dom_falling:
  assumes "y < 19"
  shows "moveDown_dom r1 r2 (I_falling y np) = Inr (I_falling (y + 1) np)"
proof -
  have "(I_dom y)\<lparr>pos_y := pos_y (I_dom y) + 1\<rparr> = I_dom (y + 1)"
    by (simp add: I_dom_def)
  then show ?thesis
    using assms
    by (simp add: moveDown_dom_def I_falling_def initial_game_def I_dom_on_emptyBoard
        BOARD_HEIGHT_def)
qed

lemma soft_drops_falling:
  "y + int n \<le> 19 \<Longrightarrow> soft_drops n r1 r2 (I_falling y np) = Inr (I_falling (y + int n) np)"
proof (induction n arbitrary: y)
  case 0
  then show ?case by simp
next
  case (Suc n)
  then have "moveDown_dom r1 r2 (I_falling y np) = Inr (I_falling (y + 1) np)"
    by (intro moveDown_dom_falling) simp
  moreover have "soft_drops n r1 r2 (I_falling (y + 1) np) = Inr (I_falling (y + 1 + int n) np)"
    using Suc.prems by (intro Suc.IH) simp
  ultimately show ?case by (simp add: add.assoc)
qed

lemma soft_drops_add_one:
  "soft_drops (n + 1) r1 r2 g
     = (case soft_drops n r1 r2 g of Inl e \<Rightarrow> Inl e | Inr g' \<Rightarrow> moveDown_dom r1 r2 g')"
proof (induction n arbitrary: g)
  case 0
  show ?case by (simp split: sum.splits)
next
  case (Suc n)
  show ?case
  proof (cases "moveDown_dom r1 r2 g")
    case (Inl e)
    then show ?thesis by simp
  next
    case (Inr g')
    then show ?thesis using Suc.IH [of g'] by simp
  qed
qed

lemma moveDown_dom_lands:
  assumes "createNewPiece_dom r1 = Inr n'"
  shows "moveDown_dom r1 r2 (I_falling 19 np) =
     Inr ((I_falling 0 np)
            \<lparr>board := replicate 19 (replicate 10 0) @ [[0, 0, 0, 1, 1, 1, 1, 0, 0, 0]],
             piece := Some np, nextPiece := Some n', score := 10\<rparr>)"
proof -
  have down: "(I_dom 19)\<lparr>pos_y := pos_y (I_dom 19) + 1\<rparr> = I_dom 20"
    by (simp add: I_dom_def)
  have merge: "mergePieceToBoard_dom (I_dom 19) emptyBoard
      = Inr (replicate 19 (replicate 10 0) @ [[0, 0, 0, 1, 1, 1, 1, 0, 0, 0]])"
    by code_simp
  have clear: "clearLines (replicate 19 (replicate 10 0) @ [[0, 0, 0, 1, 1, 1, 1, 0, 0, 0]])
      = (replicate 19 (replicate 10 0) @ [[0, 0, 0, 1, 1, 1, 1, 0, 0, 0]], 0)"
    by code_simp
  show ?thesis
    using assms
    by (simp add: moveDown_dom_def I_falling_def initial_game_def down I_dom_on_emptyBoard
        BOARD_HEIGHT_def merge clear level_up_def LEVEL_THRESHOLD_def advance_dom_def)
qed

text \<open>
  Claim C9, as amended. The I piece is created at row 0 and column 3, one row of four
  cells, so it spans columns 3 to 6; the first effect installs it on the empty board.
  Three soft drops bring it to row 3 with the same shape, and \<open>n \<le> 19\<close> soft drops bring
  it to row \<open>n\<close> and leave the board empty. Row 19 is the last valid row, and it is the
  20th soft drop that locks the piece: the board gets the four cells in row 19, the next
  piece becomes active and the score is 10.
\<close>

theorem I_piece_end_to_end:
  "createNewPiece_dom 0 = Inr \<lparr>shape = [[1, 1, 1, 1]], pos_x = 3, pos_y = 0, color = 1\<rparr>
   \<and> (createNewPiece_dom r = Inr np \<longrightarrow> spawn_dom 0 r initial_game = Inr (I_falling 0 np))
   \<and> board (I_falling 0 np) = emptyBoard
   \<and> soft_drops 3 r1 r2 (I_falling 0 np) = Inr (I_falling 3 np)
   \<and> piece (I_falling 3 np) = Some \<lparr>shape = [[1, 1, 1, 1]], pos_x = 3, pos_y = 3, color = 1\<rparr>
   \<and> (n \<le> 19 \<longrightarrow> soft_drops n r1 r2 (I_falling 0 np) = Inr (I_falling (int n) np))
   \<and> isValidMove (I_dom 19) emptyBoard = Inr True
   \<and> isValidMove (I_dom 20) emptyBoard = Inr False
   \<and> (createNewPiece_dom r1 = Inr n' \<longrightarrow>
        soft_drops 20 r1 r2 (I_falling 0 np) =
          Inr ((I_falling 0 np)
                 \<lparr>board := replicate 19 (replicate 10 0) @ [[0, 0, 0, 1, 1, 1, 1, 0, 0, 0]],
                  piece := Some np, nextPiece := Some n', score := 10\<rparr>))"
proof (intro conjI impI)
  show "createNewPiece_dom 0 = Inr \<lparr>shape = [[1, 1, 1, 1]], pos_x = 3, pos_y = 0, color = 1\<rparr>"
    by code_simp
  then have first: "createNewPiece_dom 0 = Inr (I_dom 0)"
    by (simp add: I_dom_def)
  show "spawn_dom 0 r initial_game = Inr (I_falling 0 np)" if "createNewPiece_dom r = Inr np"
    using that first by (simp add: spawn_dom_def I_falling_def initial_game_def)
  show "board (I_falling 0 np) = emptyBoard"
    by (simp add: I_falling_def initial_game_def)
  show "soft_drops 3 r1 r2 (I_falling 0 np) = Inr (I_falling 3 np)"
    using soft_drops_falling [of 0 3 r1 r2 np] by simp
  show "piece (I_falling 3 np) = Some \<lparr>shape = [[1, 1, 1, 1]], pos_x = 3, pos_y = 3, color = 1\<rparr>"
    by (simp add: I_falling_def I_dom_def)
  show "soft_drops n r1 r2 (I_falling 0 np) = Inr (I_falling (int n) np)" if "n \<le> 19"
    using soft_drops_falling [of 0 n r1 r2 np] that by simp
  show "isValidMove (I_dom 19) emptyBoard = Inr True"
    by (simp add: I_dom_on_emptyBoard BOARD_HEIGHT_def)
  show "isValidMove (I_dom 20) emptyBoard = Inr False"
    by (simp add: I_dom_on_emptyBoard BOARD_HEIGHT_def)
  show "soft_drops 20 r1 r2 (I_falling 0 np) =
          Inr ((I_falling 0 np)
                 \<lparr>board := replicate 19 (replicate 10 0) @ [[0, 0, 0, 1, 1, 1, 1, 0, 0, 0]],
                  piece := Some np, nextPiece := Some n', score := 10\<rparr>)"
    if "createNewPiece_dom r1 = Inr n'"
  proof -
    have "soft_drops (19 + 1) r1 r2 (I_falling 0 np)
        = (case soft_drops 19 r1 r2 (I_falling 0 np) of
             Inl e \<Rightarrow> Inl e | Inr g' \<Rightarrow> moveDown_dom r1 r2 g')"
      by (rule soft_drops_add_one)
    then show ?thesis
      using soft_drops_falling [of 0 19 r1 r2 np] moveDown_dom_lands [OF that, of r2 np]
      by simp
  qed
qed

theorem I_piece_end_to_end_witness:
  "createNewPiece_dom 1 = Inr O_dom \<and>
   spawn_dom 0 1 initial_game = Inr (I_falling 0 O_dom) \<and>
   (17::nat) \<le> 19 \<and>
   soft_drops 17 0 0 (I_falling 0 O_dom) = Inr (I_falling 17 O_dom) \<and>
   createNewPiece_dom 0 = Inr (I_dom 0) \<and>
   soft_drops 20 0 0 (I_falling 0 O_dom) =
     Inr ((I_falling 0 O_dom)
            \<lparr>board := replicate 19 (replicate 10 0) @ [[0, 0, 0, 1, 1, 1, 1, 0, 0, 0]],
             piece := Some O_dom, nextPiece := Some (I_dom 0), score := 10\<rparr>)"
proof -
  have a: "createNewPiece_dom 1 = Inr O_dom" by code_simp
  have b: "createNewPiece_dom 0 = Inr (I_dom 0)" by code_simp
  note t = I_piece_end_to_end [where r = 1 and np = O_dom and n = 17 and ?r1.0 = 0 and ?r2.0 = 0
      and n' = "I_dom 0"]
  have c: "spawn_dom 0 1 initial_game = Inr (I_falling 0 O_dom)"
    using t [THEN conjunct2, THEN conjunct1] a by simp
  have d: "soft_drops 17 0 0 (I_falling 0 O_dom) = Inr (I_falling 17 O_dom)"
    using t [THEN conjunct2, THEN conjunct2, THEN conjunct2, THEN conjunct2, THEN conjunct2,
        THEN conjunct1] by simp
  have e: "soft_drops 20 0 0 (I_falling 0 O_dom) =
     Inr ((I_falling 0 O_dom)
            \<lparr>board := replicate 19 (replicate 10 0) @ [[0, 0, 0, 1, 1, 1, 1, 0, 0, 0]],
             piece := Some O_dom, nextPiece := Some (I_dom 0), score := 10\<rparr>)"
    using t [THEN conjunct2, THEN conjunct2, THEN conjunct2, THEN conjunct2, THEN conjunct2,
        THEN conjunct2, THEN conjunct2, THEN conjunct2] b by simp
  show ?thesis
    using a c d b e by simp
qed

text \<open>
  Claim C9 as stated fails: after the 17th soft drop from the spawn the I piece is the
  active piece at row 17, the board is empty, and the next soft drop moves the piece to
  row 18.
\<close>

theorem seventeenth_soft_drop_counterexample:
  "spawn_dom 0 0 initial_game = Inr (I_falling 0 (I_dom 0))
   \<and> soft_drops 17 0 0 (I_falling 0 (I_dom 0)) = Inr (I_falling 17 (I_dom 0))
   \<and> board (I_falling 17 (I_dom 0)) = emptyBoard
   \<and> piece (I_falling 17 (I_dom 0)) = Some (I_dom 17)
   \<and> moveDown_dom 0 0 (I_falling 17 (I_dom 0)) = Inr (I_falling 18 (I_dom 0))"
  by code_simp

section \<open>Hard drop\<close>

text \<open>
  The loop of \<open>getDropPosition\<close> returns on a board of the fixed extent for a shape with
  an occupied sub-cell: it stops at the first row \<open>y + n\<close> from which the piece cannot move
  down, after \<open>n\<close> valid rows.
\<close>

lemma drop_loop_steps:
  "(\<And>k. k < n \<Longrightarrow> isValidMove (p\<lparr>pos_y := y0 + 1 + int k\<rparr>) b = Inr True) \<Longrightarrow>
   isValidMove (p\<lparr>pos_y := y0 + 1 + int n\<rparr>) b = Inr False \<Longrightarrow>
   drop_loop p b y0 = Some (Inr (y0 + int n))"
proof (induction n arbitrary: y0)
  case 0
  then show ?case by (subst drop_loop.simps) simp
next
  case (Suc n)
  from Suc.prems(1) [of 0] have first: "isValidMove (p\<lparr>pos_y := y0 + 1\<rparr>) b = Inr True"
    by simp
  have "drop_loop p b (y0 + 1) = Some (Inr (y0 + 1 + int n))"
  proof (rule Suc.IH)
    show "isValidMove (p\<lparr>pos_y := y0 + 1 + 1 + int k\<rparr>) b = Inr True" if "k < n" for k
      using Suc.prems(1) [of "Suc k"] that by (simp add: add.assoc)
    show "isValidMove (p\<lparr>pos_y := y0 + 1 + 1 + int n\<rparr>) b = Inr False"
      using Suc.prems(2) by (simp add: add.assoc)
  qed
  with first show ?case
    by (subst drop_loop.simps) (simp add: add.assoc)
qed

lemma floor_stops:
  assumes "wf_board b" and "has_cell (shape p)" and "BOARD_HEIGHT \<le> y"
  shows "isValidMove (p\<lparr>pos_y := y\<rparr>) b = Inr False"
proof -
  from assms(2) obtain j i where ji: "j < length (shape p)" "i < length (shape p ! j)"
    "shape p ! j ! i \<noteq> 0"
    unfolding has_cell_def by blast
  have "blocked_at b (pos_x p + int i) (y + int j)"
    using assms(3) by (simp add: blocked_at_def)
  with ji show ?thesis
    by (auto simp: isValidMove_wf [OF assms(1)])
qed

lemma first_obstruction:
  assumes "wf_board b" and "has_cell (shape p)"
  shows "\<exists>n. (\<forall>k < n. isValidMove (p\<lparr>pos_y := y0 + 1 + int k\<rparr>) b = Inr True) \<and>
             isValidMove (p\<lparr>pos_y := y0 + 1 + int n\<rparr>) b = Inr False"
proof -
  let ?bad = "\<lambda>n. isValidMove (p\<lparr>pos_y := y0 + 1 + int n\<rparr>) b = Inr False"
  have "?bad (nat (BOARD_HEIGHT - y0))"
    by (rule floor_stops [OF assms]) linarith
  then have least: "?bad (LEAST n. ?bad n)"
    by (rule LeastI)
  have before: "\<not> ?bad k" if "k < (LEAST n. ?bad n)" for k
    using that by (rule not_less_Least)
  have "isValidMove (p\<lparr>pos_y := y0 + 1 + int k\<rparr>) b = Inr True" if "k < (LEAST n. ?bad n)" for k
    using before [OF that] isValidMove_total [OF assms(1), of "p\<lparr>pos_y := y0 + 1 + int k\<rparr>"]
    by auto
  with least show ?thesis by blast
qed

lemma soft_drops_canvas_steps:
  "piece h = Some p \<Longrightarrow>
   (\<And>k. k < n \<Longrightarrow> isValidMove (p\<lparr>pos_y := pos_y p + 1 + int k\<rparr>) (board h) = Inr True) \<Longrightarrow>
   soft_drops_canvas n r1 r2 h = Inr (h\<lparr>piece := Some (p\<lparr>pos_y := pos_y p + int n\<rparr>)\<rparr>)"
proof (induction n arbitrary: h p)
  case 0
  then show ?case by simp
next
  case (Suc n)
  let ?q = "p\<lparr>pos_y := pos_y p + 1\<rparr>"
  let ?h = "h\<lparr>piece := Some ?q\<rparr>"
  from Suc.prems(2) [of 0] have "isValidMove ?q (board h) = Inr True" by simp
  with Suc.prems(1) have step: "moveDown_canvas r1 r2 h = Inr ?h"
    by (simp add: moveDown_canvas_def)
  have "soft_drops_canvas n r1 r2 ?h = Inr (?h\<lparr>piece := Some (?q\<lparr>pos_y := pos_y ?q + int n\<rparr>)\<rparr>)"
  proof (rule Suc.IH)
    show "piece ?h = Some ?q" by simp
    show "isValidMove (?q\<lparr>pos_y := pos_y ?q + 1 + int k\<rparr>) (board ?h) = Inr True" if "k < n" for k
      using Suc.prems(2) [of "Suc k"] that by (simp add: add.assoc)
  qed
  with step show ?case by (simp add: add.assoc)
qed

lemma soft_drops_canvas_Suc:
  "soft_drops_canvas (Suc n) r1 r2 h
     = (case soft_drops_canvas n r1 r2 h of Inl e \<Rightarrow> Inl e | Inr h' \<Rightarrow> moveDown_canvas r1 r2 h')"
proof (induction n arbitrary: h)
  case 0
  show ?case by (simp split: sum.splits)
next
  case (Suc n)
  show ?case
  proof (cases "moveDown_canvas r1 r2 h")
    case (Inl e)
    then show ?thesis by simp
  next
    case (Inr h')
    then show ?thesis using Suc.IH [of h'] by simp
  qed
qed

lemma advance_canvas_placement:
  assumes "placement s = placement s'"
  shows "map_sum id placement (advance_canvas r1 r2 nxt cb s)
       = map_sum id placement (advance_canvas r1 r2 nxt cb s')"
  using assms
  by (auto simp: advance_canvas_def placement_def split: option.splits sum.splits)

lemma lock_canvas_placement:
  "map_sum id placement (lock_canvas r1 r2 bonus nb s)
     = map_sum id placement (lock_canvas r1 r2 bonus' nb s)"
proof -
  obtain cb k where ck: "clearLines nb = (cb, k)"
    by (cases "clearLines nb")
  show ?thesis
    unfolding lock_canvas_def ck Let_def prod.case
    by (rule advance_canvas_placement) (simp add: placement_def level_up_def)
qed

text \<open>
  In the second component of \<open>tetris-2d.tsx\<close> the claim holds: \<open>getDropPosition\<close> returns
  the row \<open>n\<close> valid unit descents below the piece, from which the next descent is not
  valid; \<open>n\<close> soft drops bring the piece there, and \<open>hardDrop\<close> returns what the soft drop
  after them returns, in board, pieces and flags (or the same error).
\<close>

lemma hardDrop_canvas_refines_soft_drops:
  assumes "wf_board (board h)" and "piece h = Some p" and "has_cell (shape p)"
  shows "\<exists>n. getDropPosition p (board h) = Some (Inr (pos_x p, pos_y p + int n)) \<and>
           (\<forall>k < n. isValidMove (p\<lparr>pos_y := pos_y p + 1 + int k\<rparr>) (board h) = Inr True) \<and>
           isValidMove (p\<lparr>pos_y := pos_y p + 1 + int n\<rparr>) (board h) = Inr False \<and>
           soft_drops_canvas n r1 r2 h = Inr (h\<lparr>piece := Some (p\<lparr>pos_y := pos_y p + int n\<rparr>)\<rparr>) \<and>
           (\<exists>res. hardDrop_canvas r1 r2 h = Some res \<and>
              map_sum id placement res
                = map_sum id placement (soft_drops_canvas (Suc n) r1 r2 h))"
proof -
  from first_obstruction [OF assms(1,3), of "pos_y p"] obtain n
    where free: "\<And>k. k < n \<Longrightarrow> isValidMove (p\<lparr>pos_y := pos_y p + 1 + int k\<rparr>) (board h) = Inr True"
      and stop: "isValidMove (p\<lparr>pos_y := pos_y p + 1 + int n\<rparr>) (board h) = Inr False"
    by blast
  let ?q = "p\<lparr>pos_y := pos_y p + int n\<rparr>"
  let ?hn = "h\<lparr>piece := Some ?q\<rparr>"
  have loop: "drop_loop p (board h) (pos_y p) = Some (Inr (pos_y p + int n))"
    using free stop by (rule drop_loop_steps)
  then have pos: "getDropPosition p (board h) = Some (Inr (pos_x p, pos_y p + int n))"
    by (simp add: getDropPosition_def)
  have soft: "soft_drops_canvas n r1 r2 h = Inr ?hn"
    using assms(2) free by (rule soft_drops_canvas_steps)
  have stop': "isValidMove (?q\<lparr>pos_y := pos_y ?q + 1\<rparr>) (board ?hn) = Inr False"
    using stop by (simp add: add.commute add.left_commute)
  have last: "soft_drops_canvas (Suc n) r1 r2 h
      = (case mergePieceToBoard ?q (board h) of
           Inl e \<Rightarrow> Inl e | Inr nb \<Rightarrow> lock_canvas r1 r2 0 nb ?hn)"
    using stop' by (subst soft_drops_canvas_Suc) (simp add: soft moveDown_canvas_def)
  have hard: "hardDrop_canvas r1 r2 h
      = Some (case mergePieceToBoard ?q (board h) of
                Inl e \<Rightarrow> Inl e | Inr nb \<Rightarrow> lock_canvas r1 r2 (int n) nb ?hn)"
    using assms(2) by (simp add: hardDrop_canvas_def pos split: sum.splits)
  have "map_sum id placement
          (case mergePieceToBoard ?q (board h) of
             Inl e \<Rightarrow> Inl e | Inr nb \<Rightarrow> lock_canvas r1 r2 (int n) nb ?hn)
      = map_sum id placement (soft_drops_canvas (Suc n) r1 r2 h)"
    unfolding last by (simp add: lock_canvas_placement [of r1 r2 "int n" _ ?hn 0] split: sum.splits)
  with pos free stop soft hard show ?thesis by blast
qed

text \<open>
  In \<open>tetris-3d.tsx\<close> it does not: \<open>hardDrop\<close> sets the dropped piece and then calls the
  \<open>moveDown\<close> of its own render, which works on the piece as it was before the drop. A
  hard drop is a soft drop there.
\<close>

lemma hardDrop_3d_is_moveDown:
  assumes "wf_board (board g)" and "piece g = Some p" and "has_cell (shape p)"
  shows "hardDrop_3d r1 r2 g = Some (moveDown_3d r1 r2 g g)"
proof -
  from first_obstruction [OF assms(1,3), of "pos_y p"] obtain n
    where free: "\<And>k. k < n \<Longrightarrow> isValidMove (p\<lparr>pos_y := pos_y p + 1 + int k\<rparr>) (board g) = Inr True"
      and stop: "isValidMove (p\<lparr>pos_y := pos_y p + 1 + int n\<rparr>) (board g) = Inr False"
    by blast
  have loop: "drop_loop p (board g) (pos_y p) = Some (Inr (pos_y p + int n))"
    using free stop by (rule drop_loop_steps)
  have hard: "hardDrop_3d r1 r2 g
      = Some (moveDown_3d r1 r2 g (g\<lparr>piece := Some (p\<lparr>pos_y := pos_y p + int n\<rparr>)\<rparr>))"
    using assms(2) loop by (simp add: hardDrop_3d_def)
  show ?thesis
  proof (cases n)
    case 0
    have "g\<lparr>piece := Some (p\<lparr>pos_y := pos_y p + int 0\<rparr>)\<rparr> = g"
      using assms(2) by simp
    with hard 0 show ?thesis
      by (simp only:)
  next
    case (Suc m)
    with free [of 0] have "isValidMove (p\<lparr>pos_y := pos_y p + 1\<rparr>) (board g) = Inr True"
      by simp
    then show ?thesis
      using assms(2) by (simp add: hard moveDown_3d_def)
  qed
qed

text \<open>
  Claim C8 fails in \<open>tetris-3d.tsx\<close>. For the I piece at row 0 of the empty board the loop
  of \<open>hardDrop\<close> finds row 19, but the state that \<open>hardDrop\<close> returns has the piece at row
  1 and the board still empty: nothing is merged or cleared. \<open>hardDrop\<close> of the second
  component of \<open>tetris-2d.tsx\<close> locks the same piece in row 19.
\<close>

theorem hardDrop_3d_moves_one_row:
  "drop_loop (I_canvas 0) emptyBoard 0 = Some (Inr 19)
   \<and> hardDrop_3d 0 0 state_3d = Some (Inr (state_3d\<lparr>piece := Some (I_canvas 1)\<rparr>))
   \<and> board state_3d = emptyBoard
   \<and> hardDrop_canvas 0 0 (canvas_state emptyBoard 0) =
       Some (Inr \<lparr>board = replicate 19 (replicate 10 0) @ [[0, 0, 0, 1, 1, 1, 1, 0, 0, 0]],
                  piece = Some (I_canvas 0), nextPiece = Some (I_canvas 0), score = 29,
                  level = 1, gameOver = False, speed = 500, storedPiece = None,
                  canStore = True, highScore = 29\<rparr>)"
  by code_simp

end
